(* ===== verification/Pepita_Prelude.thy ===== *)
theory Pepita_Prelude
  imports Main "HOL-Library.Word" "HOL-Library.Multiset"
begin

text \<open>
  Shared vocabulary of the development.  It fixes how the Rust of \<^verbatim>\<open>src/src\<close> is read in HOL:
  fixed-width integers are words, a panic is a value of the type \<open>exec\<close>, a lock is a pair of a
  poison flag and its contents, and byte order is spelled out on lists of bytes.  The generic
  lemmas on words, byte strings and slices that several components use are collected here.
\<close>

unbundle bit_operations_syntax

section \<open>Machine integers\<close>

text \<open>
  Arithmetic follows the release profile of \<^verbatim>\<open>Cargo.toml\<close> (no overflow checks): \<open>+\<close>, \<open>-\<close> and
  \<open>*\<close> on fixed-width integers wrap around.  \<open>usize\<close> is 64 bits wide.  Signed integers are words
  read with \<open>sint\<close>.  A length of a slice is a \<open>nat\<close> where the code only compares or adds it.
\<close>

type_synonym u8 = "8 word"
type_synonym u16 = "16 word"
type_synonym u32 = "32 word"
type_synonym u64 = "64 word"
type_synonym i32 = "32 word"
type_synonym usize = "64 word"
type_synonym bytes = "u8 list"

named_theorems codec_simps \<open>lengths and slices of encoded fields\<close>
named_theorems word_bounds \<open>reading words as natural numbers\<close>

definition saturating_sub :: "'a::len word \<Rightarrow> 'a word \<Rightarrow> 'a word" where
  "saturating_sub a b = (if b \<le> a then a - b else 0)"

definition saturating_add :: "'a::len word \<Rightarrow> 'a word \<Rightarrow> 'a word" where
  "saturating_add a b = (if unat a + unat b < 2 ^ LENGTH('a) then a + b else - 1)"

definition saturating_mul :: "'a::len word \<Rightarrow> 'a word \<Rightarrow> 'a word" where
  "saturating_mul a b = (if unat a * unat b < 2 ^ LENGTH('a) then a * b else - 1)"

lemma unat_bound [word_bounds]: "unat (w :: 'a::len word) < 2 ^ LENGTH('a)"
  by (rule unsigned_less)

lemma le_exp_minus_one: "(x::nat) \<le> 2 ^ n - Suc 0 \<longleftrightarrow> x < 2 ^ n"
  using less_eq_Suc_le [of x "2 ^ n"] by (simp add: less_Suc_eq_le [symmetric])

lemma unat_saturating_sub [word_bounds]: "unat (saturating_sub a b) = unat a - unat b"
  by (simp add: saturating_sub_def unat_sub word_le_nat_alt)

lemma unat_minus_one_max: "unat (- 1 :: 'a::len word) = 2 ^ LENGTH('a) - 1"
  by (simp add: unsigned_minus_1_eq_mask mask_eq_exp_minus_1)

lemma unat_saturating_add [word_bounds]:
  "unat (saturating_add a (b :: 'a::len word)) = min (unat a + unat b) (2 ^ LENGTH('a) - 1)"
  by (simp add: saturating_add_def unat_minus_one_max unat_word_ariths min_def le_exp_minus_one)

lemma unat_saturating_mul [word_bounds]:
  "unat (saturating_mul a (b :: 'a::len word)) = min (unat a * unat b) (2 ^ LENGTH('a) - 1)"
  by (simp add: saturating_mul_def unat_minus_one_max unat_word_ariths min_def le_exp_minus_one)

lemma unat_plus_one_small [word_bounds]:
  "unat (a :: 'a::len word) + 1 < 2 ^ LENGTH('a) \<Longrightarrow> unat (a + 1) = unat a + 1"
  by (simp add: unat_word_ariths)

lemma unat_minus_one_pos [word_bounds]: "(a :: 'a::len word) \<noteq> 0 \<Longrightarrow> unat (a - 1) = unat a - 1"
  by (simp add: unat_minus_one)

section \<open>Panics\<close>

text \<open>A Rust call either returns a value or panics; with \<^verbatim>\<open>panic = "abort"\<close> nothing runs after it.\<close>

datatype 'a exec = Done 'a | Panic

fun exec_bind :: "'a exec \<Rightarrow> ('a \<Rightarrow> 'b exec) \<Rightarrow> 'b exec" where
  "exec_bind (Done a) f = f a"
| "exec_bind Panic f = Panic"

text \<open>A sequence of calls that each update a state or panic.\<close>

fun exec_fold :: "('a \<Rightarrow> 's \<Rightarrow> 's exec) \<Rightarrow> 'a list \<Rightarrow> 's \<Rightarrow> 's exec" where
  "exec_fold f [] s = Done s"
| "exec_fold f (x # xs) s = exec_bind (f x s) (exec_fold f xs)"

lemma exec_bind_Done [simp]: "exec_bind r Done = r"
  by (cases r) auto

lemma exec_fold_append: "exec_fold f (xs @ ys) s = exec_bind (exec_fold f xs s) (exec_fold f ys)"
proof (induction xs arbitrary: s)
  case (Cons x xs)
  then show ?case by (cases "f x s") auto
qed simp

text \<open>The slice \<^verbatim>\<open>&xs[a..b]\<close>: it panics unless \<^verbatim>\<open>a <= b <= xs.len()\<close>.\<close>

definition slice :: "'a list \<Rightarrow> nat \<Rightarrow> nat \<Rightarrow> 'a list exec" where
  "slice xs a b = (if a \<le> b \<and> b \<le> length xs then Done (take (b - a) (drop a xs)) else Panic)"

text \<open>Indexing \<^verbatim>\<open>xs[i]\<close>.\<close>

definition index :: "'a list \<Rightarrow> nat \<Rightarrow> 'a exec" where
  "index xs i = (if i < length xs then Done (xs ! i) else Panic)"

lemma slice_Done: "a \<le> b \<Longrightarrow> b \<le> length xs \<Longrightarrow> slice xs a b = Done (take (b - a) (drop a xs))"
  by (simp add: slice_def)

lemma slice_Panic: "b < a \<or> length xs < b \<Longrightarrow> slice xs a b = Panic"
  by (auto simp: slice_def)

lemma index_Done [simp]: "i < length xs \<Longrightarrow> index xs i = Done (xs ! i)"
  by (simp add: index_def)

lemma index_Panic [simp]: "length xs \<le> i \<Longrightarrow> index xs i = Panic"
  by (simp add: index_def)

section \<open>Locks\<close>

text \<open>
  \<^verbatim>\<open>Mutex<T>\<close> and \<^verbatim>\<open>RwLock<T>\<close>: taking the lock fails exactly when it is poisoned.  The methods
  of one object run one after the other on the same lock, so the model passes its contents along.
\<close>

record 'a lock =
  poisoned :: bool
  contents :: 'a

definition new_lock :: "'a \<Rightarrow> 'a lock" where
  "new_lock a = \<lparr>poisoned = False, contents = a\<rparr>"

lemma new_lock_sel [simp]: "poisoned (new_lock a) = False" "contents (new_lock a) = a"
  by (simp_all add: new_lock_def)

section \<open>Byte order\<close>

text \<open>\<^verbatim>\<open>to_be_bytes\<close> and \<^verbatim>\<open>from_be_bytes\<close> of the standard library, for \<open>n\<close> bytes.\<close>

fun be_digits :: "nat \<Rightarrow> nat \<Rightarrow> bytes" where
  "be_digits 0 x = []"
| "be_digits (Suc n) x = be_digits n (x div 256) @ [word_of_nat (x mod 256)]"

fun be_value :: "nat \<Rightarrow> bytes \<Rightarrow> nat" where
  "be_value acc [] = acc"
| "be_value acc (b # bs) = be_value (256 * acc + unat b) bs"

definition to_be_bytes :: "'a::len word \<Rightarrow> bytes" where
  "to_be_bytes w = be_digits (LENGTH('a) div 8) (unat w)"

definition from_be_bytes :: "bytes \<Rightarrow> 'a::len word" where
  "from_be_bytes bs = word_of_nat (be_value 0 bs)"

definition from_le_bytes :: "bytes \<Rightarrow> 'a::len word" where
  "from_le_bytes bs = from_be_bytes (rev bs)"

lemma length_be_digits [simp, codec_simps]: "length (be_digits n x) = n"
  by (induction n arbitrary: x) auto

lemma be_value_append: "be_value acc (bs @ cs) = be_value (be_value acc bs) cs"
  by (induction acc bs rule: be_value.induct) auto

lemma be_value_be_digits: "be_value 0 (be_digits n x) = x mod 256 ^ n"
proof (induction n arbitrary: x)
  case (Suc n)
  have "256 * (x div 256 mod 256 ^ n) + x mod 256 = x mod (256 * 256 ^ n)"
    by (simp add: mod_mult2_eq)
  then show ?case
    by (simp add: be_value_append Suc.IH take_bit_eq_mod unat_of_nat)
qed simp

lemma length_to_be_bytes [simp, codec_simps]:
  "length (to_be_bytes (w :: 'a::len word)) = LENGTH('a) div 8"
  by (simp add: to_be_bytes_def)

lemma from_to_be_bytes:
  "8 dvd LENGTH('a::len) \<Longrightarrow> from_be_bytes (to_be_bytes (w :: 'a word)) = w"
proof -
  assume "8 dvd LENGTH('a)"
  then obtain n where n: "LENGTH('a) = 8 * n" by blast
  have "unat w < 256 ^ n"
    using unat_bound [of w] by (simp add: n power_mult)
  then show ?thesis
    by (simp add: from_be_bytes_def to_be_bytes_def be_value_be_digits n)
qed

lemma from_to_be_bytes_widths [simp, codec_simps]:
  "from_be_bytes (to_be_bytes (a :: u16)) = a"
  "from_be_bytes (to_be_bytes (b :: u32)) = b"
  "from_be_bytes (to_be_bytes (c :: u64)) = c"
  by (simp_all add: from_to_be_bytes)

lemma be_value_lt: "be_value acc bs < (acc + 1) * 256 ^ length bs"
proof (induction acc bs rule: be_value.induct)
  case (2 acc b bs)
  have "256 * acc + unat b + 1 \<le> (acc + 1) * 256"
    using unat_bound [of b] by simp
  then have "(256 * acc + unat b + 1) * 256 ^ length bs \<le> (acc + 1) * 256 * 256 ^ length bs"
    by (rule mult_le_mono1)
  from less_le_trans [OF "2" this] show ?case by (simp add: algebra_simps)
qed simp

lemma unat_from_be_bytes:
  assumes "8 * length bs \<le> LENGTH('a::len)"
  shows "unat (from_be_bytes bs :: 'a word) = be_value 0 bs"
proof -
  have "be_value 0 bs < 2 ^ (8 * length bs)"
    using be_value_lt [of 0 bs] by (simp add: power_mult)
  also have "\<dots> \<le> 2 ^ LENGTH('a)"
    using assms by simp
  finally show ?thesis
    by (simp add: from_be_bytes_def unat_of_nat)
qed

section \<open>Lists\<close>

text \<open>Overwriting \<^verbatim>\<open>xs[i .. i + ys.len()]\<close> with \<open>ys\<close> (\<^verbatim>\<open>copy_from_slice\<close> on a range in bounds).\<close>

definition overwrite :: "'a list \<Rightarrow> nat \<Rightarrow> 'a list \<Rightarrow> 'a list" where
  "overwrite xs i ys = take i xs @ ys @ drop (i + length ys) xs"

lemma length_overwrite [simp]: "i + length ys \<le> length xs \<Longrightarrow> length (overwrite xs i ys) = length xs"
  by (simp add: overwrite_def)

lemma take_overwrite_prefix:
  "i + length ys \<le> length xs \<Longrightarrow> take (i + length ys) (overwrite xs i ys) = take i xs @ ys"
  by (simp add: overwrite_def)

lemma take_drop_overwrite_same:
  "i + length ys \<le> length xs \<Longrightarrow> take (length ys) (drop i (overwrite xs i ys)) = ys"
  by (simp add: overwrite_def)

lemma nth_overwrite_other:
  assumes "i + length ys \<le> length xs" and "k < i \<or> i + length ys \<le> k"
  shows "overwrite xs i ys ! k = xs ! k"
  using assms by (auto simp: overwrite_def nth_append)

lemma take_drop_overwrite_disjoint:
  assumes "i + length ys \<le> length xs" and "j + n \<le> i \<or> i + length ys \<le> j"
  shows "take n (drop j (overwrite xs i ys)) = take n (drop j xs)"
proof (rule nth_equalityI)
  fix k assume "k < length (take n (drop j (overwrite xs i ys)))"
  then have k: "k < n" "j + k < length xs" using assms(1) by auto
  have "overwrite xs i ys ! (j + k) = xs ! (j + k)"
    by (rule nth_overwrite_other [OF assms(1)]) (use assms(2) k in auto)
  with k assms(1) show "take n (drop j (overwrite xs i ys)) ! k = take n (drop j xs) ! k" by simp
qed (use assms in simp)

text \<open>A slice field of an encoded record: the bytes between two offsets.\<close>

lemma take_drop_append_field [codec_simps]:
  "length pre = i \<Longrightarrow> length fld = n \<Longrightarrow> take n (drop i (pre @ fld @ rest)) = fld"
  by simp

lemma sum_list_update_add:
  "i < length xs \<Longrightarrow> sum_list (map f (xs[i := x])) + f (xs ! i) = sum_list (map f xs) + (f x :: 'b::comm_monoid_add)"
proof (induction xs arbitrary: i)
  case (Cons y ys)
  then show ?case by (cases i) (auto simp: ac_simps)
qed simp

section \<open>Floating-point ratios\<close>

text \<open>What the statistics use of \<^verbatim>\<open>f64\<close>: literals, the cast of a counter, and division.\<close>

record 'f f64_ops =
  f64_literal :: "string \<Rightarrow> 'f"
  f64_of_u64 :: "u64 \<Rightarrow> 'f"
  f64_div :: "'f \<Rightarrow> 'f \<Rightarrow> 'f"

text \<open>\<^verbatim>\<open>if d == 0 { return 1.0; } n as f64 / d as f64\<close>, the body of every ratio.\<close>

definition ratio_or_one :: "'f f64_ops \<Rightarrow> u64 \<Rightarrow> u64 \<Rightarrow> 'f" where
  "ratio_or_one F n d = (if d = 0 then f64_literal F ''1.0'' else f64_div F (f64_of_u64 F n) (f64_of_u64 F d))"

section \<open>Time\<close>

text \<open>
  A \<^verbatim>\<open>Duration\<close> and an \<^verbatim>\<open>Instant\<close> are natural numbers of nanoseconds; \<^verbatim>\<open>elapsed\<close> saturates at zero.
\<close>

type_synonym duration = nat
type_synonym instant = nat

definition from_millis :: "u64 \<Rightarrow> duration" where
  "from_millis ms = unat ms * 1000000"

definition from_secs :: "u64 \<Rightarrow> duration" where
  "from_secs s = unat s * 1000000000"

text \<open>\<^verbatim>\<open>d.as_millis() as u64\<close>.\<close>

definition as_millis_u64 :: "duration \<Rightarrow> u64" where
  "as_millis_u64 d = word_of_nat (d div 1000000)"

definition elapsed :: "instant \<Rightarrow> instant \<Rightarrow> duration" where
  "elapsed now t = now - t"

definition DURATION_MAX :: duration where
  "DURATION_MAX = (2 ^ 64 - 1) * 1000000000 + 999999999"

text \<open>\<^verbatim>\<open>Duration * u32\<close> panics when the product exceeds the largest duration.\<close>

definition duration_mul :: "duration \<Rightarrow> nat \<Rightarrow> duration exec" where
  "duration_mul d n = (if d * n \<le> DURATION_MAX then Done (d * n) else Panic)"

section \<open>Step systems\<close>

text \<open>
  The contract of an invariant: it holds initially and every step keeps it; then it holds in
  every state reached by any number of steps.  The state machines of the development
  (circuit breaker, virtual machine, scheduler) are instances.
\<close>

locale step_system =
  fixes init :: "'s \<Rightarrow> bool"
    and step :: "'s \<Rightarrow> 's \<Rightarrow> bool"
    and inv :: "'s \<Rightarrow> bool"
  assumes inv_init: "init s \<Longrightarrow> inv s"
    and inv_step: "inv s \<Longrightarrow> step s t \<Longrightarrow> inv t"
begin

lemma inv_steps: "step\<^sup>*\<^sup>* s t \<Longrightarrow> inv s \<Longrightarrow> inv t"
  by (induction rule: rtranclp_induct) (auto intro: inv_step)

lemma inv_reachable: "init s \<Longrightarrow> step\<^sup>*\<^sup>* s t \<Longrightarrow> inv t"
  by (blast intro: inv_steps inv_init)

end

end
