(* ===== verification/Pepita_Error.thy ===== *)
theory Pepita_Error
  imports Pepita_Prelude
begin

text \<open>
  The error type of \<^verbatim>\<open>src/src/error.rs\<close>: every variant, the translation to and from Linux errno
  values, the two classifications, and the messages of its \<^verbatim>\<open>Display\<close> implementation.
\<close>

datatype KernelError =
    OutOfMemory | InvalidAddress | AlignmentError | OverlappingRegion
  | IoTimeout | DeviceNotReady | InvalidRequest | Cancelled
  | UblkQueueFull | UblkInvalidTag | UblkDeviceBusy | UblkDeviceNotFound
  | UblkInvalidDeviceId | UblkNotPermitted
  | IoUringSubmitFull | IoUringCqOverflow | IoUringInvalidOpcode
  | BlockError | NoTagsAvailable | InvalidQueueId
  | NotSupported | InvalidArgument | WouldBlock | Interrupted | ResourceBusy

text \<open>\<^verbatim>\<open>Result<T>\<close>: \<open>Inl\<close> is \<^verbatim>\<open>Err\<close>, \<open>Inr\<close> is \<^verbatim>\<open>Ok\<close>.\<close>

type_synonym 'a result = "KernelError + 'a"

fun KernelError_to_errno :: "KernelError \<Rightarrow> int" where
  "KernelError_to_errno OutOfMemory = - 12"
| "KernelError_to_errno InvalidAddress = - 14"
| "KernelError_to_errno AlignmentError = - 22"
| "KernelError_to_errno OverlappingRegion = - 22"
| "KernelError_to_errno IoTimeout = - 110"
| "KernelError_to_errno DeviceNotReady = - 19"
| "KernelError_to_errno InvalidRequest = - 22"
| "KernelError_to_errno Cancelled = - 125"
| "KernelError_to_errno UblkQueueFull = - 11"
| "KernelError_to_errno UblkInvalidTag = - 22"
| "KernelError_to_errno UblkDeviceBusy = - 16"
| "KernelError_to_errno UblkDeviceNotFound = - 19"
| "KernelError_to_errno UblkInvalidDeviceId = - 22"
| "KernelError_to_errno UblkNotPermitted = - 1"
| "KernelError_to_errno IoUringSubmitFull = - 11"
| "KernelError_to_errno IoUringCqOverflow = - 75"
| "KernelError_to_errno IoUringInvalidOpcode = - 22"
| "KernelError_to_errno BlockError = - 5"
| "KernelError_to_errno NoTagsAvailable = - 11"
| "KernelError_to_errno InvalidQueueId = - 22"
| "KernelError_to_errno NotSupported = - 95"
| "KernelError_to_errno InvalidArgument = - 22"
| "KernelError_to_errno WouldBlock = - 11"
| "KernelError_to_errno Interrupted = - 4"
| "KernelError_to_errno ResourceBusy = - 16"

definition KernelError_from_errno :: "int \<Rightarrow> KernelError" where
  "KernelError_from_errno e =
     (if e = - 12 then OutOfMemory
      else if e = - 14 then InvalidAddress
      else if e = - 110 then IoTimeout
      else if e = - 19 then DeviceNotReady
      else if e = - 125 then Cancelled
      else if e = - 16 then UblkDeviceBusy
      else if e = - 1 then UblkNotPermitted
      else if e = - 75 then IoUringCqOverflow
      else if e = - 5 then BlockError
      else if e = - 95 then NotSupported
      else if e = - 4 then Interrupted
      else if e = - 11 then WouldBlock
      else InvalidArgument)"

definition KernelError_is_retriable :: "KernelError \<Rightarrow> bool" where
  "KernelError_is_retriable e \<longleftrightarrow>
     (case e of WouldBlock \<Rightarrow> True | UblkQueueFull \<Rightarrow> True | IoUringSubmitFull \<Rightarrow> True
        | NoTagsAvailable \<Rightarrow> True | UblkDeviceBusy \<Rightarrow> True | _ \<Rightarrow> False)"

definition KernelError_is_resource_error :: "KernelError \<Rightarrow> bool" where
  "KernelError_is_resource_error e \<longleftrightarrow>
     (case e of OutOfMemory \<Rightarrow> True | UblkQueueFull \<Rightarrow> True | NoTagsAvailable \<Rightarrow> True | _ \<Rightarrow> False)"

fun KernelError_fmt :: "KernelError \<Rightarrow> string" where
  "KernelError_fmt OutOfMemory = ''out of memory''"
| "KernelError_fmt InvalidAddress = ''invalid address''"
| "KernelError_fmt AlignmentError = ''alignment error''"
| "KernelError_fmt OverlappingRegion = ''overlapping memory region''"
| "KernelError_fmt IoTimeout = ''I/O timeout''"
| "KernelError_fmt DeviceNotReady = ''device not ready''"
| "KernelError_fmt InvalidRequest = ''invalid request''"
| "KernelError_fmt Cancelled = ''operation cancelled''"
| "KernelError_fmt UblkQueueFull = ''ublk queue full''"
| "KernelError_fmt UblkInvalidTag = ''invalid ublk tag''"
| "KernelError_fmt UblkDeviceBusy = ''ublk device busy''"
| "KernelError_fmt UblkDeviceNotFound = ''ublk device not found''"
| "KernelError_fmt UblkInvalidDeviceId = ''invalid ublk device ID''"
| "KernelError_fmt UblkNotPermitted = ''ublk operation not permitted''"
| "KernelError_fmt IoUringSubmitFull = ''io_uring submission queue full''"
| "KernelError_fmt IoUringCqOverflow = ''io_uring completion queue overflow''"
| "KernelError_fmt IoUringInvalidOpcode = ''invalid io_uring opcode''"
| "KernelError_fmt BlockError = ''block device error''"
| "KernelError_fmt NoTagsAvailable = ''no tags available''"
| "KernelError_fmt InvalidQueueId = ''invalid queue ID''"
| "KernelError_fmt NotSupported = ''operation not supported''"
| "KernelError_fmt InvalidArgument = ''invalid argument''"
| "KernelError_fmt WouldBlock = ''operation would block''"
| "KernelError_fmt Interrupted = ''operation interrupted''"
| "KernelError_fmt ResourceBusy = ''resource is busy''"

section \<open>Errno values\<close>

lemma to_errno_range: "- 125 \<le> KernelError_to_errno e \<and> KernelError_to_errno e < 0"
  by (cases e) simp_all

lemma errno_stable:
  "KernelError_to_errno (KernelError_from_errno (KernelError_to_errno e)) = KernelError_to_errno e"
  by (cases e) (simp_all add: KernelError_from_errno_def)

lemma from_errno_total:
  "KernelError_to_errno (KernelError_from_errno n) = n \<or> KernelError_from_errno n = InvalidArgument"
  by (simp add: KernelError_from_errno_def)

lemma retriable_errno:
  "KernelError_is_retriable e \<Longrightarrow> KernelError_to_errno e \<in> {- 11, - 16}"
  by (cases e) (simp_all add: KernelError_is_retriable_def)

lemma retriable_survives_errno:
  "KernelError_is_retriable e \<Longrightarrow>
   KernelError_is_retriable (KernelError_from_errno (KernelError_to_errno e))"
  by (cases e) (simp_all add: KernelError_is_retriable_def KernelError_from_errno_def)

end
