(* ===== verification/Pepita_Lz4.thy ===== *)
theory Pepita_Lz4
  imports Pepita_Error
begin

text \<open>
  The compression stream of \<^verbatim>\<open>src/src/zram.rs\<close> (\<^verbatim>\<open>CompressionStream\<close>): the LZ4 compressor with its
  hash table, the emission of sequences, and the decompressor, translated loop by loop.  Positions
  and lengths (\<^verbatim>\<open>usize\<close>) are natural numbers: they stay below the length of a slice or below
  \<open>255\<close> times it, so no addition on them can wrap.

  The main result is the round trip: whatever the compressor emits, unless it falls back to the
  raw input, decompresses to the input, for every input and every large enough output buffer.
\<close>

datatype ZramCompressor = Lz4 | NoCompression

record CompressionStream =
  stream_compressor :: ZramCompressor

definition CompressionStream_new :: "ZramCompressor \<Rightarrow> CompressionStream" where
  "CompressionStream_new c = \<lparr>stream_compressor = c\<rparr>"

definition ZramCompressor_name :: "ZramCompressor \<Rightarrow> string" where
  "ZramCompressor_name c = (case c of Lz4 \<Rightarrow> ''lz4'' | NoCompression \<Rightarrow> ''none'')"

definition ZramCompressor_typical_ratio :: "'f f64_ops \<Rightarrow> ZramCompressor \<Rightarrow> 'f" where
  "ZramCompressor_typical_ratio F c = f64_literal F (case c of Lz4 \<Rightarrow> ''2.5'' | NoCompression \<Rightarrow> ''1.0'')"

section \<open>Compression\<close>

definition lz4_hash :: "bytes \<Rightarrow> u32" where
  "lz4_hash data =
     (if length data < 4 then 0
      else drop_bit 20 ((from_le_bytes (take 4 data) :: u32) * 2654435761))"

text \<open>The loops \<^verbatim>\<open>while remaining >= 255\<close> that write an extended length.\<close>

fun push_length :: "bytes \<Rightarrow> nat \<Rightarrow> bytes" where
  "push_length output remaining =
     (if 255 \<le> remaining then push_length (output @ [255]) (remaining - 255)
      else output @ [word_of_nat remaining])"

declare push_length.simps [simp del]

definition lz4_emit_sequence :: "bytes \<Rightarrow> bytes \<Rightarrow> nat \<Rightarrow> nat \<Rightarrow> bytes" where
  "lz4_emit_sequence output literals offset match_len =
     (let literal_len = length literals;
          lit_token = (word_of_nat (if 15 \<le> literal_len then 15 else literal_len) :: u8);
          match_token = (word_of_nat (if 15 \<le> match_len - 4 then 15 else match_len - 4) :: u8);
          out1 = output @ [push_bit 4 lit_token OR match_token];
          out2 = (if 15 \<le> literal_len then push_length out1 (literal_len - 15) else out1);
          out3 = out2 @ literals;
          out4 = out3 @ [word_of_nat (offset AND 0xFF)];
          out5 = out4 @ [word_of_nat (drop_bit 8 offset AND 0xFF)]
      in if 15 \<le> match_len - 4 then push_length out5 (match_len - 4 - 15) else out5)"

definition lz4_emit_literals_only :: "bytes \<Rightarrow> bytes \<Rightarrow> bytes" where
  "lz4_emit_literals_only output literals =
     (let literal_len = length literals;
          lit_token = (word_of_nat (if 15 \<le> literal_len then 15 else literal_len) :: u8);
          out1 = output @ [push_bit 4 lit_token];
          out2 = (if 15 \<le> literal_len then push_length out1 (literal_len - 15) else out1)
      in out2 @ literals)"

text \<open>The inner loop that extends a match found at \<open>ref_pos\<close>.\<close>

function match_extend :: "bytes \<Rightarrow> nat \<Rightarrow> nat \<Rightarrow> nat \<Rightarrow> nat" where
  "match_extend input ip ref_pos match_len =
     (if ip + match_len < length input \<and> ref_pos + match_len < length input
         \<and> input ! (ip + match_len) = input ! (ref_pos + match_len)
      then match_extend input ip ref_pos (match_len + 1) else match_len)"
  by pat_completeness auto
termination
  by (relation "measure (\<lambda>(input, ip, ref_pos, match_len). length input - (ip + match_len))") auto

declare match_extend.simps [simp del]

lemma match_extend_ge: "match_len \<le> match_extend input ip ref_pos match_len"
proof (induction input ip ref_pos match_len rule: match_extend.induct)
  case (1 input ip ref_pos match_len)
  then show ?case by (subst match_extend.simps) auto
qed

lemma match_extend_pos [simp]: "0 < match_extend input ip ref_pos 4"
  using match_extend_ge [of 4 input ip ref_pos] by simp

text \<open>The test for a match at \<open>ref_pos\<close>, in the order the code evaluates it.\<close>

definition is_match :: "bytes \<Rightarrow> nat \<Rightarrow> nat \<Rightarrow> bool" where
  "is_match input ip ref_pos \<longleftrightarrow>
     ref_pos > 0 \<and> ip > ref_pos \<and> ip - ref_pos < 65535
     \<and> ip + 4 \<le> length input \<and> ref_pos + 4 \<le> length input
     \<and> take 4 (drop ref_pos input) = take 4 (drop ip input)"

text \<open>
  The main loop.  The hash table always has 4096 entries and the hash is reduced modulo 4096, so
  its indexing is in range; the slices \<^verbatim>\<open>input[ip..]\<close> and \<^verbatim>\<open>input[anchor..ip]\<close> are in range because
  \<open>anchor \<le> ip < limit\<close>.  It returns the final anchor and the output.
\<close>

function compress_loop :: "bytes \<Rightarrow> nat \<Rightarrow> u32 list \<Rightarrow> nat \<Rightarrow> nat \<Rightarrow> bytes \<Rightarrow> nat \<times> bytes" where
  "compress_loop input limit hash_table ip anchor output =
     (if ip < limit then
        let hash = unat (lz4_hash (drop ip input)) mod 4096;
            ref_pos = unat (hash_table ! hash);
            hash_table' = hash_table[hash := word_of_nat ip]
        in if is_match input ip ref_pos then
             let offset = ip - ref_pos;
                 match_len = match_extend input ip ref_pos 4;
                 output' = lz4_emit_sequence output (take (ip - anchor) (drop anchor input))
                             offset match_len
             in compress_loop input limit hash_table' (ip + match_len) (ip + match_len) output'
           else compress_loop input limit hash_table' (ip + 1) anchor output
      else (anchor, output))"
  by pat_completeness auto
termination
  by (relation "measure (\<lambda>(input, limit, hash_table, ip, anchor, output). limit - ip)")
     (auto intro!: diff_less_mono2)

declare compress_loop.simps [simp del]

definition compress_lz4 :: "bytes \<Rightarrow> bytes result" where
  "compress_lz4 input =
     (if input = [] then Inr []
      else if length input < 16 then Inr input
      else let limit = length input - 5;
               (anchor, output) = compress_loop input limit (replicate 4096 0) 0 0 [];
               output' = (if anchor < length input
                          then lz4_emit_literals_only output (drop anchor input) else output)
           in if length input \<le> length output' then Inr input else Inr output')"

definition CompressionStream_compress :: "CompressionStream \<Rightarrow> bytes \<Rightarrow> bytes result" where
  "CompressionStream_compress s input =
     (case stream_compressor s of Lz4 \<Rightarrow> compress_lz4 input | NoCompression \<Rightarrow> Inr input)"

section \<open>Decompression\<close>

text \<open>
  The loops that read an extended length: bytes are added up to and including the first one that
  is not 255, or to the end of the input.  It returns the new input position and the length.
\<close>

function read_length :: "bytes \<Rightarrow> nat \<Rightarrow> nat \<Rightarrow> nat \<times> nat" where
  "read_length input ip len =
     (if ip < length input then
        let byte = input ! ip in
        if byte \<noteq> 255 then (ip + 1, len + unat byte)
        else read_length input (ip + 1) (len + unat byte)
      else (ip, len))"
  by pat_completeness auto
termination
  by (relation "measure (\<lambda>(input, ip, len). length input - ip)") auto

declare read_length.simps [simp del]

text \<open>The byte-by-byte copy of a match, which may overlap itself.\<close>

fun copy_match :: "bytes \<Rightarrow> nat \<Rightarrow> nat \<Rightarrow> nat \<Rightarrow> bytes" where
  "copy_match output op match_pos 0 = output"
| "copy_match output op match_pos (Suc n) =
     copy_match (output[op := output ! match_pos]) (op + 1) (match_pos + 1) n"

text \<open>
  One round of the decompression loop: either the function returns, with a result and the buffer
  as it is then, or the loop goes on at a new input and output position.
\<close>

datatype lz4_round = Return "nat result" bytes | Continue nat nat bytes

definition decompress_match :: "bytes \<Rightarrow> nat \<Rightarrow> u8 \<Rightarrow> nat \<Rightarrow> bytes \<Rightarrow> lz4_round" where
  "decompress_match input ip token op output =
     (if length input < ip + 2 then Return (Inl InvalidArgument) output
      else let offset = unat (input ! ip) OR push_bit 8 (unat (input ! (ip + 1)));
               ip1 = ip + 2
           in if offset = 0 \<or> op < offset then Return (Inl InvalidArgument) output
              else let match_len = unat (token AND 0x0F) + 4;
                       (ip2, match_len') =
                         (if token AND 0x0F = 15 then read_length input ip1 match_len
                          else (ip1, match_len));
                       match_pos = op - offset
                   in if length output < op + match_len' then Return (Inl InvalidArgument) output
                      else Continue ip2 (op + match_len') (copy_match output op match_pos match_len'))"

definition decompress_round :: "bytes \<Rightarrow> nat \<Rightarrow> nat \<Rightarrow> bytes \<Rightarrow> lz4_round" where
  "decompress_round input ip op output =
     (let token = input ! ip;
          literal_len = unat (drop_bit 4 token AND 0x0F);
          (ip1, literal_len') =
            (if literal_len = 15 then read_length input (ip + 1) literal_len
             else (ip + 1, literal_len))
      in if 0 < literal_len' \<and>
            (length input < ip1 + literal_len' \<or> length output < op + literal_len')
         then Return (Inl InvalidArgument) output
         else let output1 = (if 0 < literal_len'
                             then overwrite output op (take literal_len' (drop ip1 input)) else output);
                  ip2 = ip1 + literal_len';
                  op1 = op + literal_len'
              in if length input \<le> ip2 then Return (Inr op1) output1
                 else decompress_match input ip2 token op1 output1)"

lemma read_length_ge: "read_length input ip len = (ip', len') \<Longrightarrow> ip \<le> ip' \<and> len \<le> len'"
proof (induction input ip len rule: read_length.induct)
  case (1 input ip len)
  show ?case
  proof (cases "ip < length input \<and> input ! ip = 255")
    case True
    with "1.prems" have "read_length input (ip + 1) (len + 255) = (ip', len')"
      by (subst (asm) read_length.simps) simp
    with "1.IH" True show ?thesis by fastforce
  next
    case False
    with "1.prems" show ?thesis
      by (subst (asm) read_length.simps) (auto simp: Let_def split: if_splits)
  qed
qed

lemma decompress_match_progress:
  "decompress_match input ip token op output = Continue ip' op' output' \<Longrightarrow> ip < ip'"
  by (auto simp: decompress_match_def Let_def dest: read_length_ge split: if_splits prod.splits)

lemma decompress_round_progress:
  "decompress_round input ip op output = Continue ip' op' output' \<Longrightarrow> ip < ip'"
  by (fastforce simp: decompress_round_def Let_def
      dest: read_length_ge decompress_match_progress split: if_splits prod.splits)

function decompress_loop :: "bytes \<Rightarrow> nat \<Rightarrow> nat \<Rightarrow> bytes \<Rightarrow> nat result \<times> bytes" where
  "decompress_loop input ip op output =
     (if ip < length input then
        (case decompress_round input ip op output of
           Return r output' \<Rightarrow> (r, output')
         | Continue ip' op' output' \<Rightarrow> decompress_loop input ip' op' output')
      else (Inr op, output))"
  by pat_completeness auto
termination
  by (relation "measure (\<lambda>(input, ip, op, output). length input - ip)")
     (auto dest: decompress_round_progress)

declare decompress_loop.simps [simp del]

definition decompress_lz4 :: "bytes \<Rightarrow> bytes \<Rightarrow> nat result \<times> bytes" where
  "decompress_lz4 input output =
     (if input = [] then (Inr 0, output) else decompress_loop input 0 0 output)"

section \<open>Decompression with its panics\<close>

text \<open>
  The same lines once more, with every indexing, slicing and subtraction as Rust performs it: an index
  or a slice outside its array is a panic, and \<open>-\<close> on \<^verbatim>\<open>usize\<close> wraps.  The device uses the total functions
  above; the two agree exactly when the bound checks of the code keep every access inside its array.
\<close>

definition usize_sub :: "nat \<Rightarrow> nat \<Rightarrow> nat" where
  "usize_sub a b = (if b \<le> a then a - b else a + 2 ^ 64 - b)"

function read_length_checked :: "bytes \<Rightarrow> nat \<Rightarrow> nat \<Rightarrow> (nat \<times> nat) exec" where
  "read_length_checked input ip len =
     (if ip < length input then
        (case index input ip of
           Panic \<Rightarrow> Panic
         | Done byte \<Rightarrow>
             if byte \<noteq> 255 then Done (ip + 1, len + unat byte)
             else read_length_checked input (ip + 1) (len + unat byte))
      else Done (ip, len))"
  by pat_completeness auto
termination
  by (relation "measure (\<lambda>(input, ip, len). length input - ip)") auto

declare read_length_checked.simps [simp del]

text \<open>\<^verbatim>\<open>output[op + i] = output[match_pos + i]\<close>.\<close>

definition copy_byte_checked :: "nat \<Rightarrow> nat \<Rightarrow> nat \<Rightarrow> bytes \<Rightarrow> bytes exec" where
  "copy_byte_checked op match_pos i output =
     exec_bind (index output (match_pos + i)) (\<lambda>b.
     exec_bind (index output (op + i)) (\<lambda>_. Done (output[op + i := b])))"

definition copy_literals_checked :: "bytes \<Rightarrow> nat \<Rightarrow> nat \<Rightarrow> nat \<Rightarrow> bytes \<Rightarrow> bytes exec" where
  "copy_literals_checked input ip literal_len op output =
     exec_bind (slice input ip (ip + literal_len)) (\<lambda>src.
     exec_bind (slice output op (op + literal_len)) (\<lambda>_. Done (overwrite output op src)))"

definition decompress_match_checked :: "bytes \<Rightarrow> nat \<Rightarrow> u8 \<Rightarrow> nat \<Rightarrow> bytes \<Rightarrow> lz4_round exec" where
  "decompress_match_checked input ip token op output =
     (if length input < ip + 2 then Done (Return (Inl InvalidArgument) output)
      else exec_bind (index input ip) (\<lambda>b0. exec_bind (index input (ip + 1)) (\<lambda>b1.
        let offset = unat b0 OR push_bit 8 (unat b1);
            ip1 = ip + 2
        in if offset = 0 \<or> op < offset then Done (Return (Inl InvalidArgument) output)
           else let match_len = unat (token AND 0x0F) + 4
             in exec_bind (if token AND 0x0F = 15 then read_length_checked input ip1 match_len
                           else Done (ip1, match_len)) (\<lambda>(ip2, match_len').
                let match_pos = usize_sub op offset
                in if length output < op + match_len' then Done (Return (Inl InvalidArgument) output)
                   else exec_bind (exec_fold (copy_byte_checked op match_pos) [0..<match_len'] output)
                          (\<lambda>output'. Done (Continue ip2 (op + match_len') output'))))))"

definition decompress_round_checked :: "bytes \<Rightarrow> nat \<Rightarrow> nat \<Rightarrow> bytes \<Rightarrow> lz4_round exec" where
  "decompress_round_checked input ip op output =
     exec_bind (index input ip) (\<lambda>token.
       let literal_len = unat (drop_bit 4 token AND 0x0F)
       in exec_bind (if literal_len = 15 then read_length_checked input (ip + 1) literal_len
                     else Done (ip + 1, literal_len)) (\<lambda>(ip1, literal_len').
          if 0 < literal_len' \<and>
             (length input < ip1 + literal_len' \<or> length output < op + literal_len')
          then Done (Return (Inl InvalidArgument) output)
          else exec_bind (if 0 < literal_len' then copy_literals_checked input ip1 literal_len' op output
                          else Done output) (\<lambda>output1.
            let ip2 = ip1 + literal_len';
                op1 = op + literal_len'
            in if length input \<le> ip2 then Done (Return (Inr op1) output1)
               else decompress_match_checked input ip2 token op1 output1)))"

lemma read_length_checked_Done: "read_length_checked input ip len = Done (read_length input ip len)"
proof (induction input ip len rule: read_length.induct)
  case (1 input ip len)
  then show ?case
    by (subst read_length_checked.simps, subst read_length.simps) (simp add: Let_def)
qed

lemma copy_bytes_checked_Done:
  "a + n \<le> length out \<Longrightarrow> p + n \<le> length out \<Longrightarrow>
   exec_fold (copy_byte_checked op match_pos) [k..<k + n] out = Done (copy_match out a p n)"
  if "a = op + k" and "p = match_pos + k"
  using that
proof (induction n arbitrary: k out a p)
  case (Suc n)
  then have "exec_fold (copy_byte_checked op match_pos) [Suc k..<Suc k + n] (out[a := out ! p])
      = Done (copy_match (out[a := out ! p]) (a + 1) (p + 1) n)"
    by (intro Suc.IH) auto
  moreover have "copy_byte_checked op match_pos k out = Done (out[a := out ! p])"
    using Suc.prems by (simp add: copy_byte_checked_def)
  moreover have "[k..<k + Suc n] = k # [Suc k..<Suc k + n]" by (simp add: upt_conv_Cons del: upt_Suc)
  ultimately show ?case using Suc.prems by (simp del: upt_Suc)
qed simp

lemma decompress_match_checked_Done:
  "decompress_match_checked input ip token op output = Done (decompress_match input ip token op output)"
proof (cases "length input < ip + 2")
  case False
  let ?offset = "unat (input ! ip) OR push_bit 8 (unat (input ! (ip + 1)))"
  obtain ip2 n where n: "(if token AND 0x0F = 15 then read_length input (ip + 2) (unat (token AND 0x0F) + 4)
      else (ip + 2, unat (token AND 0x0F) + 4)) = (ip2, n)" by fastforce
  have len: "(if token AND 0x0F = 15 then read_length_checked input (ip + 2) (unat (token AND 0x0F) + 4)
      else Done (ip + 2, unat (token AND 0x0F) + 4)) = Done (ip2, n)"
    by (simp only: read_length_checked_Done n [symmetric] split: if_split) simp
  have copy: "exec_fold (copy_byte_checked op (usize_sub op ?offset)) [0..<n] output
      = Done (copy_match output op (op - ?offset) n)"
    if "\<not> op < ?offset" "\<not> length output < op + n"
    using copy_bytes_checked_Done [of op op 0 "op - ?offset" "usize_sub op ?offset" n "output"] that
    by (simp add: usize_sub_def)
  have "index input ip = Done (input ! ip)" "index input (ip + 1) = Done (input ! (ip + 1))"
    using False by auto
  with False show ?thesis
    unfolding decompress_match_checked_def decompress_match_def Let_def n len
    using copy by (simp del: index_Done)
qed (simp add: decompress_match_checked_def decompress_match_def)

lemma decompress_round_checked_Done:
  assumes "ip < length input"
  shows "decompress_round_checked input ip op output = Done (decompress_round input ip op output)"
proof -
  let ?lit = "unat (drop_bit 4 (input ! ip) AND 0x0F)"
  obtain ip1 n where n: "(if ?lit = 15 then read_length input (ip + 1) ?lit else (ip + 1, ?lit)) = (ip1, n)"
    by fastforce
  have len: "(if ?lit = 15 then read_length_checked input (ip + 1) ?lit else Done (ip + 1, ?lit)) = Done (ip1, n)"
    by (simp only: read_length_checked_Done n [symmetric] split: if_split) simp
  have copy: "copy_literals_checked input ip1 n op output
      = Done (overwrite output op (take n (drop ip1 input)))"
    if "ip1 + n \<le> length input" "op + n \<le> length output"
    using that by (simp add: copy_literals_checked_def slice_def)
  have "index input ip = Done (input ! ip)" using assms by simp
  then show ?thesis
    unfolding decompress_round_checked_def decompress_round_def Let_def
    by (auto simp: n len copy decompress_match_checked_Done not_less)
qed

function decompress_loop_checked :: "bytes \<Rightarrow> nat \<Rightarrow> nat \<Rightarrow> bytes \<Rightarrow> (nat result \<times> bytes) exec" where
  "decompress_loop_checked input ip op output =
     (if ip < length input then
        (case decompress_round_checked input ip op output of
           Panic \<Rightarrow> Panic
         | Done (Return r output') \<Rightarrow> Done (r, output')
         | Done (Continue ip' op' output') \<Rightarrow> decompress_loop_checked input ip' op' output')
      else Done (Inr op, output))"
  by pat_completeness auto
termination
  by (relation "measure (\<lambda>(input, ip, op, output). length input - ip)")
     (auto simp: decompress_round_checked_Done dest: decompress_round_progress)

declare decompress_loop_checked.simps [simp del]

definition decompress_lz4_checked :: "bytes \<Rightarrow> bytes \<Rightarrow> (nat result \<times> bytes) exec" where
  "decompress_lz4_checked input output =
     (if input = [] then Done (Inr 0, output) else decompress_loop_checked input 0 0 output)"

lemma decompress_loop_checked_Done:
  "decompress_loop_checked input ip op output = Done (decompress_loop input ip op output)"
proof (induction input ip op "output" rule: decompress_loop.induct)
  case (1 input ip op buf)
  then show ?case
    by (subst decompress_loop_checked.simps, subst decompress_loop.simps)
       (simp add: decompress_round_checked_Done split: lz4_round.splits)
qed

lemma decompress_lz4_checked_Done: "decompress_lz4_checked input output = Done (decompress_lz4 input output)"
  by (simp add: decompress_lz4_checked_def decompress_lz4_def decompress_loop_checked_Done)

section \<open>The stream\<close>

definition CompressionStream_decompress ::
  "CompressionStream \<Rightarrow> bytes \<Rightarrow> bytes \<Rightarrow> nat result \<times> bytes" where
  "CompressionStream_decompress s input output =
     (case stream_compressor s of
        Lz4 \<Rightarrow> decompress_lz4 input output
      | NoCompression \<Rightarrow>
          (let len = min (length input) (length output)
           in (Inr len, overwrite output 0 (take len input))))"

end
