(* ===== verification/Pepita_Lz4_Roundtrip.thy ===== *)
theory Pepita_Lz4_Roundtrip
  imports Pepita_Lz4
begin

text \<open>
  Correctness of the LZ4 stream: the decompressor reads back exactly the fields the compressor
  writes, a match copies the bytes the compressor compared, and the loop invariant that what has
  been emitted so far decodes to the input up to the anchor gives the round trip.
\<close>

section \<open>Encoded fields\<close>

fun length_bytes :: "nat \<Rightarrow> bytes" where
  "length_bytes r = (if 255 \<le> r then 255 # length_bytes (r - 255) else [word_of_nat r])"

declare length_bytes.simps [simp del]

lemma push_length_eq: "push_length out r = out @ length_bytes r"
proof (induction out r rule: push_length.induct)
  case (1 out r)
  then show ?case
    by (simp add: push_length.simps [of out r] length_bytes.simps [of r])
qed

lemma unat_of_nat_byte: "r < 256 \<Longrightarrow> unat (word_of_nat r :: u8) = r"
  by (simp add: unat_of_nat)

lemma read_length_bytes:
  "read_length (pre @ length_bytes r @ rest) (length pre) acc =
     (length pre + length (length_bytes r), acc + r)"
proof (induction r arbitrary: pre acc rule: length_bytes.induct)
  case (1 r)
  show ?case
  proof (cases "255 \<le> r")
    case True
    from "1.IH" [OF True, of "pre @ [255]" "acc + 255"] True show ?thesis
      by (simp add: length_bytes.simps [of r] read_length.simps [of _ "length pre"] nth_append)
  next
    case False
    then have "(word_of_nat r :: u8) \<noteq> 255"
      using arg_cong [of "word_of_nat r" "255 :: u8" unat] unat_of_nat_byte [of r] by auto
    with False show ?thesis
      by (simp add: length_bytes.simps [of r] read_length.simps [of _ "length pre"]
          nth_append unat_of_nat_byte)
  qed
qed

lemma mask_15: "(0x0F :: u8) = mask 4"
  by (simp add: mask_eq_exp_minus_1)

lemma nibble: "n < 16 \<Longrightarrow> take_bit 4 (word_of_nat n :: u8) = word_of_nat n"
  by (simp add: word_unat_eq_iff take_bit_eq_mod unat_mod unat_of_nat)

lemma nibble_bit: "take_bit 4 (a :: u8) = a \<Longrightarrow> bit a n \<Longrightarrow> n < 4"
  by (metis bit_take_bit_iff)

lemma token_high:
  assumes "take_bit 4 a = a" and "take_bit 4 b = b"
  shows "drop_bit 4 (push_bit 4 a OR b :: u8) AND 0x0F = a"
  unfolding mask_15
proof (rule bit_word_eqI)
  fix n assume "n < LENGTH(8)"
  show "bit (drop_bit 4 (push_bit 4 a OR b) AND mask 4) n = bit a n"
    using nibble_bit [OF assms(1), of n] nibble_bit [OF assms(2), of "4 + n"]
    by (auto simp: bit_simps)
qed

lemma token_low:
  assumes "take_bit 4 b = b"
  shows "(push_bit 4 a OR b :: u8) AND 0x0F = b"
  unfolding mask_15
proof (rule bit_word_eqI)
  fix n assume "n < LENGTH(8)"
  show "bit ((push_bit 4 a OR b) AND mask 4) n = bit b n"
    using nibble_bit [OF assms, of n] by (auto simp: bit_simps)
qed

lemma offset_bytes:
  assumes "off < 65536"
  shows "unat (word_of_nat (off AND 0xFF) :: u8) OR
         push_bit 8 (unat (word_of_nat (drop_bit 8 off AND 0xFF) :: u8)) = off"
proof -
  have m: "(0xFF :: nat) = mask 8" by (simp add: mask_eq_exp_minus_1)
  have lo: "unat (word_of_nat (off AND 0xFF) :: u8) = take_bit 8 off"
    by (simp add: m unat_of_nat take_bit_eq_mod flip: take_bit_eq_mask)
  have "drop_bit 8 off < 256"
    using assms by (simp add: drop_bit_eq_div)
  then have hi: "unat (word_of_nat (drop_bit 8 off AND 0xFF) :: u8) = drop_bit 8 off"
    by (simp add: m take_bit_nat_eq_self unat_of_nat_byte flip: take_bit_eq_mask)
  show ?thesis unfolding lo hi
  proof (rule bit_eqI)
    fix n
    show "bit (take_bit 8 off OR push_bit 8 (drop_bit 8 off)) n = bit off n"
      by (cases "n < 8") (simp_all add: bit_simps)
  qed
qed

text \<open>The nibble and the extension bytes that together encode a length.\<close>

definition nib :: "nat \<Rightarrow> nat" where
  "nib n = (if 15 \<le> n then 15 else n)"

definition ext :: "nat \<Rightarrow> bytes" where
  "ext n = (if 15 \<le> n then length_bytes (n - 15) else [])"

definition tok :: "nat \<Rightarrow> nat \<Rightarrow> u8" where
  "tok l m = push_bit 4 (word_of_nat (nib l)) OR word_of_nat (nib m)"

lemma nib_lt [simp]: "nib n < 16"
  by (simp add: nib_def)

lemma nib_zero [simp]: "nib 0 = 0"
  by (simp add: nib_def)

lemma unat_nib [simp]: "unat (word_of_nat (nib n) :: u8) = nib n"
  by (rule unat_of_nat_byte) (use nib_lt [of n] in linarith)

lemma nib_eq_15_word: "(word_of_nat (nib n) :: u8) = 15 \<longleftrightarrow> nib n = 15"
  by (simp add: word_unat_eq_iff)

lemma tok_high [simp]: "drop_bit 4 (tok l m) AND 0x0F = word_of_nat (nib l)"
  unfolding tok_def by (intro token_high nibble nib_lt)

lemma tok_low [simp]: "tok l m AND 0x0F = word_of_nat (nib m)"
  unfolding tok_def by (intro token_low nibble nib_lt)

lemma read_ext:
  assumes "stream = pre @ ext n @ rest" and "ip = length pre"
  shows "(if nib n = 15 then read_length stream ip (nib n + c) else (ip, nib n + c)) =
         (ip + length (ext n), n + c)"
  using assms by (auto simp: nib_def ext_def read_length_bytes)

lemma emit_sequence_eq:
  "lz4_emit_sequence out lits off m =
     out @ tok (length lits) (m - 4) # ext (length lits) @ lits
       @ word_of_nat (off AND 0xFF) # word_of_nat (drop_bit 8 off AND 0xFF) # ext (m - 4)"
  by (simp add: lz4_emit_sequence_def Let_def tok_def nib_def ext_def push_length_eq)

lemma emit_literals_only_eq:
  "lz4_emit_literals_only out lits = out @ tok (length lits) 0 # ext (length lits) @ lits"
  by (simp add: lz4_emit_literals_only_def Let_def tok_def nib_def ext_def push_length_eq)

section \<open>Matches\<close>

text \<open>The bytes at two positions agree over a length.\<close>

definition agree :: "bytes \<Rightarrow> nat \<Rightarrow> nat \<Rightarrow> nat \<Rightarrow> bool" where
  "agree inp rp ip n \<longleftrightarrow> (\<forall>k<n. inp ! (rp + k) = inp ! (ip + k))"

lemma agreeD: "agree inp rp ip n \<Longrightarrow> k < n \<Longrightarrow> inp ! (rp + k) = inp ! (ip + k)"
  by (simp add: agree_def)

lemma agree_Suc: "agree inp rp ip (Suc n) \<longleftrightarrow> agree inp rp ip n \<and> inp ! (rp + n) = inp ! (ip + n)"
  by (auto simp: agree_def less_Suc_eq)

lemma agree_tail: "agree inp rp ip (Suc n) \<Longrightarrow> agree inp (rp + 1) (ip + 1) n"
  unfolding agree_def by (metis Suc_less_eq add_Suc_shift plus_1_eq_Suc semiring_norm(174))

lemma copy_match_correct:
  assumes "take op buf = take op inp" and "mp < op" and "op + n \<le> length inp"
    and "length inp \<le> length buf" and "agree inp mp op n"
  shows "take (op + n) (copy_match buf op mp n) = take (op + n) inp
         \<and> length (copy_match buf op mp n) = length buf"
  using assms
proof (induction n arbitrary: buf op mp)
  case (Suc n)
  have "buf ! mp = inp ! mp"
    using Suc.prems(1,2) by (metis nth_take)
  also have "\<dots> = inp ! op"
    using agreeD [OF Suc.prems(5), of 0] by simp
  finally have "take (op + 1) (buf[op := buf ! mp]) = take (op + 1) inp"
    using Suc.prems(1,3,4) by (simp add: take_Suc_conv_app_nth)
  then show ?case
    using Suc.IH [of "op + 1" "buf[op := buf ! mp]" "mp + 1"] Suc.prems(2-4)
      agree_tail [OF Suc.prems(5)] by simp
qed simp

lemma match_extend_correct:
  assumes "ip + m \<le> length inp" and "agree inp rp ip m"
  shows "ip + match_extend inp ip rp m \<le> length inp \<and> agree inp rp ip (match_extend inp ip rp m)"
  using assms
proof (induction inp ip rp m rule: match_extend.induct)
  case (1 inp ip rp m)
  show ?case
  proof (cases "ip + m < length inp \<and> rp + m < length inp \<and> inp ! (ip + m) = inp ! (rp + m)")
    case True
    with "1.prems" have "agree inp rp ip (m + 1)" by (simp add: agree_Suc)
    with "1.IH" True show ?thesis
      by (simp add: match_extend.simps [of inp ip rp m])
  next
    case False
    then show ?thesis
      using "1.prems" by (simp only: match_extend.simps [of inp ip rp m] if_False simp_thms)
  qed
qed

lemma is_match_agree:
  assumes "is_match inp ip rp"
  shows "agree inp rp ip 4"
  unfolding agree_def
proof (intro allI impI)
  fix k :: nat assume "k < 4"
  moreover have "take 4 (drop rp inp) ! k = take 4 (drop ip inp) ! k"
    using assms by (simp add: is_match_def)
  ultimately show "inp ! (rp + k) = inp ! (ip + k)"
    using assms by (simp add: is_match_def)
qed

lemma found_match:
  assumes "is_match inp ip rp"
  shows "ip + match_extend inp ip rp 4 \<le> length inp"
    and "agree inp rp ip (match_extend inp ip rp 4)"
  using match_extend_correct [of ip 4 inp rp] is_match_agree [OF assms] assms
  by (simp_all add: is_match_def)

section \<open>One decoded sequence\<close>

lemma decompress_round_literals:
  assumes "stream = pre @ tok (length lits) m # ext (length lits) @ lits @ rest"
    and "op + length lits \<le> length buf"
  shows "decompress_round stream (length pre) op buf =
     (if rest = [] then Return (Inr (op + length lits)) (overwrite buf op lits)
      else decompress_match stream (length pre + 1 + length (ext (length lits)) + length lits)
             (tok (length lits) m) (op + length lits) (overwrite buf op lits))"
proof -
  let ?n = "length lits" and ?pre = "pre @ [tok (length lits) m]"
  have len: "(if nib ?n = 15 then read_length stream (length pre + 1) (nib ?n)
         else (length pre + 1, nib ?n)) = (length pre + 1 + length (ext ?n), ?n)"
    by (rule read_ext [of stream ?pre ?n "lits @ rest" _ 0, unfolded add_0_right])
       (simp_all add: assms(1))
  have token: "stream ! length pre = tok ?n m"
    using assms(1) by simp
  have "overwrite buf op lits = buf" if "?n = 0"
    using that by (simp add: overwrite_def)
  then show ?thesis
    unfolding decompress_round_def Let_def token tok_high unat_nib len prod.case
    using assms by simp
qed

lemma decompress_match_sequence:
  assumes "stream = pre @ word_of_nat (off AND 0xFF) # word_of_nat (drop_bit 8 off AND 0xFF)
             # ext m @ rest"
    and "0 < off" and "off < 65536" and "off \<le> op" and "op + (m + 4) \<le> length buf"
  shows "decompress_match stream (length pre) (tok l m) op buf =
     Continue (length pre + 2 + length (ext m)) (op + (m + 4))
       (copy_match buf op (op - off) (m + 4))"
proof -
  let ?pre = "pre @ [word_of_nat (off AND 0xFF), word_of_nat (drop_bit 8 off AND 0xFF)]"
  have len: "(if nib m = 15 then read_length stream (length pre + 2) (nib m + 4)
         else (length pre + 2, nib m + 4)) = (length pre + 2 + length (ext m), m + 4)"
    by (rule read_ext [of stream ?pre m rest]) (simp_all add: assms(1))
  have offset: "unat (stream ! length pre) OR push_bit 8 (unat (stream ! (length pre + 1))) = off"
    using assms(1) offset_bytes [OF assms(3)] by (simp add: nth_append)
  show ?thesis
    unfolding decompress_match_def Let_def offset tok_low unat_nib nib_eq_15_word len prod.case
    using assms by simp
qed

lemma decompress_loop_sequence:
  assumes stream: "stream = lz4_emit_sequence pre lits off m @ rest"
    and off: "0 < off" "off < 65536" "off \<le> op + length lits"
    and m: "4 \<le> m" "op + length lits + m \<le> length buf"
  shows "decompress_loop stream (length pre) op buf =
     decompress_loop stream (length (lz4_emit_sequence pre lits off m)) (op + length lits + m)
       (copy_match (overwrite buf op lits) (op + length lits) (op + length lits - off) m)"
proof -
  let ?obs = "word_of_nat (off AND 0xFF) # word_of_nat (drop_bit 8 off AND 0xFF) # ext (m - 4) @ rest"
  let ?pre = "pre @ tok (length lits) (m - 4) # ext (length lits) @ lits"
  have s: "stream = pre @ tok (length lits) (m - 4) # ext (length lits) @ lits @ ?obs"
    using stream by (simp add: emit_sequence_eq)
  have "decompress_round stream (length pre) op buf = decompress_match stream (length ?pre)
      (tok (length lits) (m - 4)) (op + length lits) (overwrite buf op lits)"
    using decompress_round_literals [OF s, of op buf] m by (simp add: add.assoc)
  also have "\<dots> = Continue (length ?pre + 2 + length (ext (m - 4))) (op + length lits + (m - 4 + 4))
      (copy_match (overwrite buf op lits) (op + length lits) (op + length lits - off) (m - 4 + 4))"
    by (rule decompress_match_sequence [where rest = rest]) (use s off m in simp_all)
  finally show ?thesis
    using m(1) by (simp add: decompress_loop.simps [of _ "length pre"] s emit_sequence_eq add.assoc)
qed

lemma decompress_loop_literals:
  assumes "stream = lz4_emit_literals_only pre lits" and "op + length lits \<le> length buf"
  shows "decompress_loop stream (length pre) op buf =
     (Inr (op + length lits), overwrite buf op lits)"
  using decompress_round_literals [of stream pre lits 0 "[]" op buf] assms
  by (simp add: decompress_loop.simps [of _ "length pre"] emit_literals_only_eq)

section \<open>The loop invariant\<close>

text \<open>
  What has been emitted decodes to the input up to the anchor: whatever follows it in the stream,
  the decompressor reaches its end with the output position at the anchor and the input's bytes
  below it in the buffer.
\<close>

definition decodes :: "bytes \<Rightarrow> bytes \<Rightarrow> nat \<Rightarrow> bool" where
  "decodes inp out anchor \<longleftrightarrow>
     (\<forall>rest buf. length inp \<le> length buf \<longrightarrow>
        (\<exists>buf'. decompress_loop (out @ rest) 0 0 buf
                  = decompress_loop (out @ rest) (length out) anchor buf'
              \<and> length buf' = length buf \<and> take anchor buf' = take anchor inp))"

lemma decodes_Nil [simp]: "decodes inp [] 0"
  by (auto simp: decodes_def)

lemma decodesE:
  assumes "decodes inp out anchor" and "length inp \<le> length buf"
  obtains buf' where "decompress_loop (out @ rest) 0 0 buf
      = decompress_loop (out @ rest) (length out) anchor buf'"
    and "length buf' = length buf" and "take anchor buf' = take anchor inp"
  using assms unfolding decodes_def by blast

lemma take_overwrite_literals:
  assumes "take a buf = take a inp" and "a \<le> b" and "b \<le> length inp" and "length inp \<le> length buf"
  shows "take b (overwrite buf a (take (b - a) (drop a inp))) = take b inp"
  using assms take_add [of a "b - a" inp] by (simp add: overwrite_def)

lemma emit_sequence_decodes:
  assumes dec: "decodes inp out anchor" and "anchor \<le> ip" and match: "is_match inp ip rp"
    and m: "m = match_extend inp ip rp 4"
  shows "decodes inp (lz4_emit_sequence out (take (ip - anchor) (drop anchor inp)) (ip - rp) m)
           (ip + m)"
  unfolding decodes_def
proof (intro allI impI)
  fix rest buf :: bytes assume buf: "length inp \<le> length buf"
  let ?lits = "take (ip - anchor) (drop anchor inp)"
  let ?out = "lz4_emit_sequence out ?lits (ip - rp) m"
  have ip: "ip + m \<le> length inp" and ag: "agree inp rp ip m" and m4: "4 \<le> m"
    using found_match [OF match] match_extend_ge [of 4 inp ip rp] by (simp_all add: m)
  have rp: "0 < ip - rp" "ip - rp < 65536" "rp < ip"
    using match by (auto simp: is_match_def)
  have lits: "anchor + length ?lits = ip"
    using \<open>anchor \<le> ip\<close> ip by simp
  obtain tail where tail: "?out @ rest = out @ tail"
    by (simp add: emit_sequence_eq)
  obtain buf1 where loop: "decompress_loop (out @ tail) 0 0 buf
      = decompress_loop (out @ tail) (length out) anchor buf1"
    and l1: "length buf1 = length buf" and t1: "take anchor buf1 = take anchor inp"
    using dec buf by (rule decodesE)
  define buf2 where "buf2 = copy_match (overwrite buf1 anchor ?lits) ip rp m"
  have "take ip (overwrite buf1 anchor ?lits) = take ip inp"
    using t1 \<open>anchor \<le> ip\<close> ip buf l1 by (intro take_overwrite_literals) auto
  then have copy: "take (ip + m) buf2 = take (ip + m) inp
      \<and> length buf2 = length (overwrite buf1 anchor ?lits)"
    unfolding buf2_def using rp(3) ip _ ag
    by (rule copy_match_correct) (use buf l1 lits ip in simp)
  have "decompress_loop (?out @ rest) (length out) anchor buf1
      = decompress_loop (?out @ rest) (length ?out) (ip + m) buf2"
    using decompress_loop_sequence [OF refl rp(1,2), of anchor ?lits m buf1 out rest]
      lits m4 ip buf l1 rp(3) by (simp add: buf2_def)
  with loop copy l1 lits ip buf show "\<exists>buf'. decompress_loop (?out @ rest) 0 0 buf
     = decompress_loop (?out @ rest) (length ?out) (ip + m) buf'
     \<and> length buf' = length buf \<and> take (ip + m) buf' = take (ip + m) inp"
    by (intro exI [of _ buf2]) (simp add: tail)
qed

lemma compress_loop_decodes:
  assumes "compress_loop inp limit ht ip anchor out = (anchor', out')"
    and "decodes inp out anchor" and "anchor \<le> ip" and "anchor \<le> length inp"
  shows "decodes inp out' anchor' \<and> anchor' \<le> length inp"
  using assms
proof (induction inp limit ht ip anchor out rule: compress_loop.induct)
  case (1 inp limit ht ip anchor out)
  define h where "h = unat (lz4_hash (drop ip inp)) mod 4096"
  define rp where "rp = unat (ht ! h)"
  consider "\<not> ip < limit" | "ip < limit" "is_match inp ip rp" | "ip < limit" "\<not> is_match inp ip rp"
    by blast
  then show ?case
  proof cases
    case 1
    with "1.prems" show ?thesis by (simp add: compress_loop.simps)
  next
    case 2
    let ?m = "match_extend inp ip rp 4"
    from 2 "1.prems"(1) have "compress_loop inp limit (ht[h := word_of_nat ip]) (ip + ?m) (ip + ?m)
        (lz4_emit_sequence out (take (ip - anchor) (drop anchor inp)) (ip - rp) ?m) = (anchor', out')"
      by (simp add: compress_loop.simps [of _ _ _ ip] Let_def h_def rp_def)
    then show ?thesis
      using "1.IH"(1) [OF 2(1) h_def rp_def refl 2(2) refl refl refl]
        emit_sequence_decodes [OF "1.prems"(2,3) 2(2) refl] found_match(1) [OF 2(2)] by simp
  next
    case 3
    from 3 "1.prems"(1) have "compress_loop inp limit (ht[h := word_of_nat ip]) (ip + 1) anchor out
        = (anchor', out')"
      by (simp add: compress_loop.simps [of _ _ _ ip] Let_def h_def rp_def)
    then show ?thesis
      using "1.IH"(2) [OF 3(1) h_def rp_def refl 3(2)] "1.prems"(2-4) by simp
  qed
qed

section \<open>Round trip\<close>

text \<open>The stream the compressor builds before it decides whether to fall back to the raw input.\<close>

lemma finished_stream_decodes:
  assumes dec: "decodes inp out anchor" and "anchor \<le> length inp" and buf: "length inp \<le> length buf"
    and out': "out' = (if anchor < length inp then lz4_emit_literals_only out (drop anchor inp) else out)"
  shows "\<exists>buf'. decompress_loop out' 0 0 buf = (Inr (length inp), buf')
               \<and> length buf' = length buf \<and> take (length inp) buf' = inp"
proof (cases "anchor < length inp")
  case True
  let ?lits = "drop anchor inp"
  obtain tail where tail: "out' = out @ tail"
    using True by (simp add: out' emit_literals_only_eq)
  obtain buf1 where loop: "decompress_loop (out @ tail) 0 0 buf
      = decompress_loop (out @ tail) (length out) anchor buf1"
    and l1: "length buf1 = length buf" and t1: "take anchor buf1 = take anchor inp"
    using dec buf by (rule decodesE)
  have "decompress_loop out' (length out) anchor buf1 = (Inr (length inp), overwrite buf1 anchor ?lits)"
    using decompress_loop_literals [of out' out ?lits anchor buf1] True buf l1 by (simp add: out')
  moreover have "take (length inp) (overwrite buf1 anchor ?lits) = inp"
    using take_overwrite_literals [OF t1, of "length inp"] True buf l1 by simp
  ultimately show ?thesis
    using loop tail l1 True buf by (intro exI [of _ "overwrite buf1 anchor ?lits"]) simp
next
  case False
  then have "anchor = length inp" and "out' = out"
    using assms(2) out' by auto
  moreover obtain buf1 where "decompress_loop (out @ []) 0 0 buf
      = decompress_loop (out @ []) (length out) anchor buf1"
    and "length buf1 = length buf" and "take anchor buf1 = take anchor inp"
    using dec buf by (rule decodesE)
  ultimately show ?thesis
    by (simp add: decompress_loop.simps [of _ "length out"])
qed

lemma lz4_roundtrip:
  assumes comp: "compress_lz4 inp = Inr out" and short: "length out < length inp"
    and buf: "length inp \<le> length buf"
  shows "\<exists>buf'. decompress_lz4 out buf = (Inr (length inp), buf')
               \<and> length buf' = length buf \<and> take (length inp) buf' = inp"
proof -
  obtain anchor o1 where loop:
    "compress_loop inp (length inp - 5) (replicate 4096 0) 0 0 [] = (anchor, o1)"
    by (cases "compress_loop inp (length inp - 5) (replicate 4096 0) 0 0 []")
  have out: "out = (if anchor < length inp then lz4_emit_literals_only o1 (drop anchor inp) else o1)"
    using comp short by (auto simp: compress_lz4_def loop Let_def split: if_splits)
  have dec: "decodes inp o1 anchor \<and> anchor \<le> length inp"
    by (rule compress_loop_decodes [OF loop]) simp_all
  then obtain buf' where res: "decompress_loop out 0 0 buf = (Inr (length inp), buf')"
    "length buf' = length buf" "take (length inp) buf' = inp"
    using finished_stream_decodes [OF _ _ buf out] by blast
  moreover have "out \<noteq> []"
  proof
    assume "out = []"
    with res(1) short show False by (simp add: decompress_loop.simps)
  qed
  ultimately show ?thesis by (simp add: decompress_lz4_def)
qed

text \<open>The compressor never fails and never makes the data longer.\<close>

lemma compress_lz4_total: "\<exists>out. compress_lz4 inp = Inr out \<and> length out \<le> length inp"
  by (auto simp: compress_lz4_def Let_def split: prod.splits)

lemma compress_lz4_fallback:
  "compress_lz4 inp = Inr out \<Longrightarrow> length inp \<le> length out \<Longrightarrow> out = inp"
  by (auto simp: compress_lz4_def Let_def split: prod.splits if_splits)

section \<open>Safety of the decompressor\<close>

text \<open>
  On any input, well formed or not, the decompressor returns, keeps the buffer's length, and
  reports no more bytes than the buffer has.
\<close>

lemma copy_match_length [simp]: "length (copy_match buf op mp n) = length buf"
  by (induction n arbitrary: buf op mp) auto

lemma decompress_match_bounds:
  "op \<le> length buf \<Longrightarrow>
   case decompress_match input ip token op buf of
     Return r buf' \<Rightarrow> length buf' = length buf \<and> r = Inl InvalidArgument
   | Continue ip' op' buf' \<Rightarrow> length buf' = length buf \<and> op' \<le> length buf"
  by (auto simp: decompress_match_def Let_def split: prod.splits)

lemma decompress_round_bounds:
  "op \<le> length buf \<Longrightarrow>
   case decompress_round input ip op buf of
     Return r buf' \<Rightarrow> length buf' = length buf \<and> (case r of Inl e \<Rightarrow> e = InvalidArgument | Inr n \<Rightarrow> n \<le> length buf)
   | Continue ip' op' buf' \<Rightarrow> length buf' = length buf \<and> op' \<le> length buf"
proof -
  assume op: "op \<le> length buf"
  define lit where "lit = unat (drop_bit 4 (input ! ip) AND 0x0F)"
  obtain ip1 n where rl: "(if lit = 15 then read_length input (ip + 1) lit else (ip + 1, lit)) = (ip1, n)"
    by fastforce
  define buf1 where "buf1 = (if 0 < n then overwrite buf op (take n (drop ip1 input)) else buf)"
  have round: "decompress_round input ip op buf =
    (if 0 < n \<and> (length input < ip1 + n \<or> length buf < op + n) then Return (Inl InvalidArgument) buf
     else if length input \<le> ip1 + n then Return (Inr (op + n)) buf1
     else decompress_match input (ip1 + n) (input ! ip) (op + n) buf1)"
    unfolding decompress_round_def Let_def lit_def [symmetric] rl prod.case buf1_def ..
  show ?thesis
  proof (cases "0 < n \<and> (length input < ip1 + n \<or> length buf < op + n)")
    case False
    then have "length buf1 = length buf" and "op + n \<le> length buf"
      using op by (auto simp: buf1_def)
    with False show ?thesis
      using decompress_match_bounds [of "op + n" buf1 input "ip1 + n" "input ! ip"]
      by (auto simp: round split: lz4_round.splits)
  qed (simp add: round)
qed

lemma decompress_loop_bounds:
  assumes "op \<le> length buf" and "decompress_loop input ip op buf = (r, buf')"
  shows "length buf' = length buf \<and> (case r of Inl e \<Rightarrow> e = InvalidArgument | Inr n \<Rightarrow> n \<le> length buf)"
  using assms
proof (induction input ip op buf rule: decompress_loop.induct)
  case (1 input ip op buf)
  show ?case
  proof (cases "ip < length input")
    case True
    with 1 show ?thesis
      using decompress_round_bounds [OF "1.prems"(1), of input ip]
      by (auto simp: decompress_loop.simps [of input ip] split: lz4_round.splits sum.splits)
  next
    case False
    with "1.prems" show ?thesis by (auto simp: decompress_loop.simps [of input ip])
  qed
qed

section \<open>A compressible sample\<close>

text \<open>Forty equal bytes, on which the compressor finds one long overlapping match.\<close>

lemma match_extend_replicate:
  "rp \<le> ip \<Longrightarrow> ip + m \<le> n \<Longrightarrow> match_extend (replicate n v) ip rp m = n - ip"
proof (induction "replicate n v" ip rp m rule: match_extend.induct)
  case (1 ip rp m)
  then show ?case
    by (cases "ip + m < n") (auto simp: match_extend.simps [of _ ip rp m])
qed

definition sample :: bytes where
  "sample = replicate 40 7"

lemma sample_hash: "k \<le> 36 \<Longrightarrow> lz4_hash (drop k sample) = lz4_hash (replicate 4 7)"
  by (simp add: sample_def lz4_hash_def)

lemma sample_loop:
  "compress_loop sample 35 (replicate 4096 0) 0 0 [] = (40, [47, 7, 7, 1, 0, 19])"
proof -
  define H where "H = unat (lz4_hash (replicate 4 7)) mod 4096"
  have H: "H < 4096" by (simp add: H_def)
  have match: "is_match sample 2 (Suc 0)" and ext: "match_extend sample 2 (Suc 0) 4 = 38"
    and lits: "take 2 sample = [7, 7]"
    by (simp_all add: sample_def is_match_def match_extend_replicate numeral_2_eq_2)
  have "compress_loop sample 35 (replicate 4096 0) 0 0 []
      = compress_loop sample 35 ((replicate 4096 0)[H := 0]) 1 0 []"
    using H by (simp add: compress_loop.simps [of _ _ _ 0] sample_hash [of 0, simplified]
        Let_def is_match_def flip: H_def)
  also have "\<dots> = compress_loop sample 35 ((replicate 4096 0)[H := 1]) 2 0 []"
    using H by (simp add: compress_loop.simps [of _ _ _ "Suc 0"] sample_hash [of 1, simplified]
        Let_def is_match_def numeral_2_eq_2 flip: H_def)
  also have "\<dots> = compress_loop sample 35 ((replicate 4096 0)[H := 2]) 40 40 [47, 7, 7, 1, 0, 19]"
    using H by (simp add: compress_loop.simps [of _ _ _ 2] sample_hash Let_def match ext lits
        emit_sequence_eq tok_def nib_def ext_def length_bytes.simps [of 19] flip: H_def)
  also have "\<dots> = (40, [47, 7, 7, 1, 0, 19])"
    by (simp add: compress_loop.simps)
  finally show ?thesis .
qed
lemma sample_stream: "compress_lz4 sample = Inr [47, 7, 7, 1, 0, 19]"
  using sample_loop by (simp add: compress_lz4_def sample_def)

section \<open>Properties\<close>

text \<open>C1: LZ4 round trip. Whenever the compressor produces something shorter than its input (that is,
  it does not fall back to the raw bytes), decompressing that into any buffer at least as long as the
  input succeeds, reports exactly the input's length, leaves the buffer's length unchanged and puts
  the input's bytes at its front, for inputs of any length and content.\<close>

theorem lz4_stream_roundtrip:
  assumes "compress_lz4 inp = Inr out" and "length out < length inp" and "length inp \<le> length buf"
  shows "\<exists>buf'. decompress_lz4 out buf = (Inr (length inp), buf')
               \<and> length buf' = length buf \<and> take (length inp) buf' = inp"
  using assms by (rule lz4_roundtrip)

theorem lz4_stream_roundtrip_witness:
  "\<exists>buf'. decompress_lz4 [47, 7, 7, 1, 0, 19] (replicate 64 0) = (Inr 40, buf')
          \<and> length buf' = 64 \<and> take 40 buf' = replicate 40 7"
  using lz4_stream_roundtrip [OF sample_stream, of "replicate 64 0"] by (simp add: sample_def)

text \<open>C11: The decompressor is safe on every input, well formed or not, and on every buffer: with every index
  and every slice checked as Rust checks it, it returns and does not panic. The buffer keeps its length,
  a returned length is within it, and the only error is \<open>InvalidArgument\<close>. What it returns is what the
  total decompressor of the round trip and of the device returns.\<close>

theorem lz4_decompress_safe:
  "\<exists>r buf'. decompress_lz4_checked input buf = Done (r, buf') \<and> decompress_lz4 input buf = (r, buf')
     \<and> length buf' = length buf
     \<and> (case r of Inl e \<Rightarrow> e = InvalidArgument | Inr n \<Rightarrow> n \<le> length buf)"
  using decompress_loop_bounds [of 0 buf input 0 "fst (decompress_loop input 0 0 buf)"
      "snd (decompress_loop input 0 0 buf)"]
  by (cases "decompress_lz4 input buf") (auto simp: decompress_lz4_checked_Done decompress_lz4_def split: if_splits)

end
