(* ===== verification/Pepita_Zram.thy ===== *)
theory Pepita_Zram
  imports Pepita_Lz4_Roundtrip "HOL-Library.AList"
begin

text \<open>
  The compressed RAM device of \<^verbatim>\<open>src/src/zram.rs\<close>: configuration, statistics, page entries, the page
  table and \<^verbatim>\<open>ZramDevice\<close> with all its operations.  The \<^verbatim>\<open>HashMap\<close> of the page table is an
  association list with distinct keys, updated by \<open>AList.update\<close> and \<open>AList.delete\<close>; its order is never
  observed.  The arithmetic of the ratios is the parameter \<open>f64_ops\<close>.

  The device is shown to behave as an ideal array of 4096-byte pages, whatever compressor it uses.
\<close>

section \<open>Configuration and statistics\<close>

definition PAGE_SIZE :: nat where
  "PAGE_SIZE = 4096"

record ZramConfig =
  zc_size_bytes :: u64
  zc_compressor :: ZramCompressor
  zc_mem_limit :: "u64 option"
  zc_num_streams :: u32
  zc_track_stats :: bool

definition ZramConfig_with_size :: "u64 \<Rightarrow> ZramConfig" where
  "ZramConfig_with_size size_bytes =
     \<lparr>zc_size_bytes = size_bytes, zc_compressor = Lz4, zc_mem_limit = None,
      zc_num_streams = 4, zc_track_stats = True\<rparr>"

definition ZramConfig_default :: ZramConfig where
  "ZramConfig_default =
     \<lparr>zc_size_bytes = 4 * 1024 * 1024 * 1024, zc_compressor = Lz4, zc_mem_limit = None,
      zc_num_streams = 4, zc_track_stats = True\<rparr>"

definition ZramConfig_compressor :: "ZramConfig \<Rightarrow> ZramCompressor \<Rightarrow> ZramConfig" where
  "ZramConfig_compressor c compressor = c\<lparr>zc_compressor := compressor\<rparr>"

definition ZramConfig_mem_limit :: "ZramConfig \<Rightarrow> u64 \<Rightarrow> ZramConfig" where
  "ZramConfig_mem_limit c limit = c\<lparr>zc_mem_limit := Some limit\<rparr>"

definition ZramConfig_num_streams :: "ZramConfig \<Rightarrow> u32 \<Rightarrow> ZramConfig" where
  "ZramConfig_num_streams c streams = c\<lparr>zc_num_streams := streams\<rparr>"

definition ZramConfig_max_pages :: "ZramConfig \<Rightarrow> u64" where
  "ZramConfig_max_pages c = zc_size_bytes c div word_of_nat PAGE_SIZE"

definition ZramConfig_effective_mem_limit :: "ZramConfig \<Rightarrow> u64" where
  "ZramConfig_effective_mem_limit c =
     (case zc_mem_limit c of Some l \<Rightarrow> l | None \<Rightarrow> zc_size_bytes c div 2)"

record ZramStats =
  orig_data_size :: u64
  compr_data_size :: u64
  mem_used_total :: u64
  pages_stored :: u64
  zero_pages :: u64
  same_pages :: u64
  huge_pages :: u64
  num_reads :: u64
  num_writes :: u64
  failed_reads :: u64
  failed_writes :: u64

definition ZramStats_default :: ZramStats where
  "ZramStats_default =
     \<lparr>orig_data_size = 0, compr_data_size = 0, mem_used_total = 0, pages_stored = 0, zero_pages = 0,
      same_pages = 0, huge_pages = 0, num_reads = 0, num_writes = 0, failed_reads = 0,
      failed_writes = 0\<rparr>"

definition ZramStats_compression_ratio :: "'f f64_ops \<Rightarrow> ZramStats \<Rightarrow> 'f" where
  "ZramStats_compression_ratio F s = ratio_or_one F (orig_data_size s) (compr_data_size s)"

definition ZramStats_memory_efficiency :: "'f f64_ops \<Rightarrow> ZramStats \<Rightarrow> 'f" where
  "ZramStats_memory_efficiency F s = ratio_or_one F (orig_data_size s) (mem_used_total s)"

definition ZramStats_special_pages :: "ZramStats \<Rightarrow> u64" where
  "ZramStats_special_pages s = zero_pages s + same_pages s"

text \<open>
  \<^verbatim>\<open>AtomicStats\<close> has the same eleven counters behind atomics, whose \<^verbatim>\<open>fetch_add\<close> wraps; the model
  keeps them in the same record, so a snapshot copies them.
\<close>

definition AtomicStats_snapshot :: "ZramStats \<Rightarrow> ZramStats" where
  "AtomicStats_snapshot s =
     \<lparr>orig_data_size = orig_data_size s, compr_data_size = compr_data_size s,
      mem_used_total = mem_used_total s, pages_stored = pages_stored s, zero_pages = zero_pages s,
      same_pages = same_pages s, huge_pages = huge_pages s, num_reads = num_reads s,
      num_writes = num_writes s, failed_reads = failed_reads s, failed_writes = failed_writes s\<rparr>"

definition AtomicStats_record_write :: "ZramStats \<Rightarrow> nat \<Rightarrow> nat \<Rightarrow> ZramStats" where
  "AtomicStats_record_write s orig_size compr_size =
     s\<lparr>orig_data_size := orig_data_size s + word_of_nat orig_size,
       compr_data_size := compr_data_size s + word_of_nat compr_size,
       mem_used_total := mem_used_total s + word_of_nat compr_size,
       pages_stored := pages_stored s + 1,
       num_writes := num_writes s + 1\<rparr>"

definition AtomicStats_record_zero_page :: "ZramStats \<Rightarrow> ZramStats" where
  "AtomicStats_record_zero_page s =
     s\<lparr>zero_pages := zero_pages s + 1, pages_stored := pages_stored s + 1,
       num_writes := num_writes s + 1\<rparr>"

definition AtomicStats_record_same_page :: "ZramStats \<Rightarrow> ZramStats" where
  "AtomicStats_record_same_page s =
     s\<lparr>same_pages := same_pages s + 1, pages_stored := pages_stored s + 1,
       num_writes := num_writes s + 1\<rparr>"

definition AtomicStats_record_huge_page :: "ZramStats \<Rightarrow> ZramStats" where
  "AtomicStats_record_huge_page s =
     s\<lparr>huge_pages := huge_pages s + 1,
       orig_data_size := orig_data_size s + word_of_nat PAGE_SIZE,
       compr_data_size := compr_data_size s + word_of_nat PAGE_SIZE,
       mem_used_total := mem_used_total s + word_of_nat PAGE_SIZE,
       pages_stored := pages_stored s + 1,
       num_writes := num_writes s + 1\<rparr>"

definition AtomicStats_record_read :: "ZramStats \<Rightarrow> ZramStats" where
  "AtomicStats_record_read s = s\<lparr>num_reads := num_reads s + 1\<rparr>"

definition AtomicStats_record_failed_read :: "ZramStats \<Rightarrow> ZramStats" where
  "AtomicStats_record_failed_read s = s\<lparr>failed_reads := failed_reads s + 1\<rparr>"

definition AtomicStats_record_failed_write :: "ZramStats \<Rightarrow> ZramStats" where
  "AtomicStats_record_failed_write s = s\<lparr>failed_writes := failed_writes s + 1\<rparr>"

section \<open>Page entries and the page table\<close>

datatype PageEntry =
    EmptyEntry
  | ZeroPage
  | SamePage u8
  | CompressedPage bytes
  | UncompressedPage bytes

definition PageEntry_default :: PageEntry where
  "PageEntry_default = EmptyEntry"

definition PageEntry_memory_size :: "PageEntry \<Rightarrow> nat" where
  "PageEntry_memory_size e =
     (case e of EmptyEntry \<Rightarrow> 0 | ZeroPage \<Rightarrow> 0 | SamePage v \<Rightarrow> 1
        | CompressedPage data \<Rightarrow> length data | UncompressedPage data \<Rightarrow> length data)"

definition PageEntry_is_empty :: "PageEntry \<Rightarrow> bool" where
  "PageEntry_is_empty e \<longleftrightarrow> (case e of EmptyEntry \<Rightarrow> True | _ \<Rightarrow> False)"

record PageTable =
  entries :: "(u64 \<times> PageEntry) list lock"

definition PageTable_new :: PageTable where
  "PageTable_new = \<lparr>entries = new_lock []\<rparr>"

definition PageTable_default :: PageTable where
  "PageTable_default = PageTable_new"

definition PageTable_get :: "PageTable \<Rightarrow> u64 \<Rightarrow> PageEntry result" where
  "PageTable_get t page_index =
     (if poisoned (entries t) then Inl ResourceBusy
      else Inr (case map_of (contents (entries t)) page_index of
                  None \<Rightarrow> EmptyEntry | Some e \<Rightarrow> e))"

definition PageTable_set :: "PageTable \<Rightarrow> u64 \<Rightarrow> PageEntry \<Rightarrow> unit result \<times> PageTable" where
  "PageTable_set t page_index entry =
     (if poisoned (entries t) then (Inl ResourceBusy, t)
      else (Inr (), t\<lparr>entries :=
              (entries t)\<lparr>contents := AList.update page_index entry (contents (entries t))\<rparr>\<rparr>))"

definition PageTable_remove :: "PageTable \<Rightarrow> u64 \<Rightarrow> PageEntry option result \<times> PageTable" where
  "PageTable_remove t page_index =
     (if poisoned (entries t) then (Inl ResourceBusy, t)
      else (Inr (map_of (contents (entries t)) page_index), t\<lparr>entries :=
              (entries t)\<lparr>contents := AList.delete page_index (contents (entries t))\<rparr>\<rparr>))"

definition PageTable_len :: "PageTable \<Rightarrow> nat" where
  "PageTable_len t = (if poisoned (entries t) then 0 else length (contents (entries t)))"

definition PageTable_is_empty :: "PageTable \<Rightarrow> bool" where
  "PageTable_is_empty t \<longleftrightarrow> PageTable_len t = 0"

section \<open>The device\<close>

record ZramDevice =
  zd_config :: ZramConfig
  zd_page_table :: PageTable
  zd_stream :: "CompressionStream lock"
  zd_stats :: ZramStats

definition ZramDevice_new :: "ZramConfig \<Rightarrow> ZramDevice result" where
  "ZramDevice_new config =
     Inr \<lparr>zd_config = config, zd_page_table = PageTable_new,
          zd_stream = new_lock (CompressionStream_new (zc_compressor config)),
          zd_stats = ZramStats_default\<rparr>"

definition ZramDevice_config :: "ZramDevice \<Rightarrow> ZramConfig" where
  "ZramDevice_config d = zd_config d"

definition ZramDevice_stats :: "ZramDevice \<Rightarrow> ZramStats" where
  "ZramDevice_stats d = AtomicStats_snapshot (zd_stats d)"

definition check_same_filled :: "bytes \<Rightarrow> u8 option" where
  "check_same_filled data =
     (if data = [] then None
      else let first = data ! 0 in if list_all (\<lambda>b. b = first) data then Some first else None)"

text \<open>
  The \<^verbatim>\<open>match entry\<close> of \<^verbatim>\<open>read_page\<close>, on the slice \<^verbatim>\<open>buffer[..PAGE_SIZE]\<close>: it returns the result and
  the new contents of the slice.  A failing decompression leaves the slice half written.
\<close>

definition read_entry ::
  "(bytes \<Rightarrow> bytes \<Rightarrow> nat result \<times> bytes) \<Rightarrow> PageEntry \<Rightarrow> bytes \<Rightarrow> unit result \<times> bytes" where
  "read_entry decompress entry page =
     (case entry of
        EmptyEntry \<Rightarrow> (Inr (), replicate PAGE_SIZE 0)
      | ZeroPage \<Rightarrow> (Inr (), replicate PAGE_SIZE 0)
      | SamePage v \<Rightarrow> (Inr (), replicate PAGE_SIZE v)
      | CompressedPage data \<Rightarrow>
          (case decompress data page of
             (Inl e, page') \<Rightarrow> (Inl e, page')
           | (Inr n, page') \<Rightarrow>
               (Inr (), if n \<noteq> PAGE_SIZE then overwrite page' n (replicate (PAGE_SIZE - n) 0)
                        else page'))
      | UncompressedPage data \<Rightarrow>
          (let len = min (length data) PAGE_SIZE;
               page' = overwrite page 0 (take len data)
           in (Inr (), if len < PAGE_SIZE then overwrite page' len (replicate (PAGE_SIZE - len) 0)
                       else page')))"

definition ZramDevice_read_page ::
  "ZramDevice \<Rightarrow> u64 \<Rightarrow> bytes \<Rightarrow> unit result \<times> bytes \<times> ZramDevice" where
  "ZramDevice_read_page d page_index buffer =
     (if length buffer < PAGE_SIZE then (Inl InvalidArgument, buffer, d)
      else if ZramConfig_max_pages (zd_config d) \<le> page_index then (Inl InvalidArgument, buffer, d)
      else case PageTable_get (zd_page_table d) page_index of
             Inl e \<Rightarrow> (Inl e, buffer, d)
           | Inr entry \<Rightarrow>
               (if (case entry of CompressedPage _ \<Rightarrow> poisoned (zd_stream d) | _ \<Rightarrow> False)
                then (Inl ResourceBusy, buffer, d)
                else case read_entry (CompressionStream_decompress (contents (zd_stream d))) entry
                            (take PAGE_SIZE buffer) of
                       (Inl e, page) \<Rightarrow> (Inl e, page @ drop PAGE_SIZE buffer, d)
                     | (Inr _, page) \<Rightarrow>
                         (Inr (), page @ drop PAGE_SIZE buffer,
                          d\<lparr>zd_stats := AtomicStats_record_read (zd_stats d)\<rparr>)))"

definition ZramDevice_store ::
  "ZramDevice \<Rightarrow> u64 \<Rightarrow> PageEntry \<Rightarrow> (ZramStats \<Rightarrow> ZramStats) \<Rightarrow> unit result \<times> ZramDevice" where
  "ZramDevice_store d page_index entry record_stats =
     (case PageTable_set (zd_page_table d) page_index entry of
        (Inl e, t) \<Rightarrow> (Inl e, d\<lparr>zd_page_table := t\<rparr>)
      | (Inr _, t) \<Rightarrow> (Inr (), d\<lparr>zd_page_table := t, zd_stats := record_stats (zd_stats d)\<rparr>))"

definition ZramDevice_write_page :: "ZramDevice \<Rightarrow> u64 \<Rightarrow> bytes \<Rightarrow> unit result \<times> ZramDevice" where
  "ZramDevice_write_page d page_index data =
     (if length data < PAGE_SIZE then (Inl InvalidArgument, d)
      else if ZramConfig_max_pages (zd_config d) \<le> page_index then (Inl InvalidArgument, d)
      else let page_data = take PAGE_SIZE data in
        if list_all (\<lambda>b. b = 0) page_data
        then ZramDevice_store d page_index ZeroPage AtomicStats_record_zero_page
        else case check_same_filled page_data of
          Some v \<Rightarrow> ZramDevice_store d page_index (SamePage v) AtomicStats_record_same_page
        | None \<Rightarrow>
            if poisoned (zd_stream d) then (Inl ResourceBusy, d)
            else case CompressionStream_compress (contents (zd_stream d)) page_data of
              Inl e \<Rightarrow> (Inl e, d)
            | Inr compressed \<Rightarrow>
                if PAGE_SIZE - PAGE_SIZE div 8 \<le> length compressed
                then ZramDevice_store d page_index (UncompressedPage page_data)
                       AtomicStats_record_huge_page
                else ZramDevice_store d page_index (CompressedPage compressed)
                       (\<lambda>s. AtomicStats_record_write s PAGE_SIZE (length compressed)))"

definition ZramDevice_discard_page :: "ZramDevice \<Rightarrow> u64 \<Rightarrow> unit result \<times> ZramDevice" where
  "ZramDevice_discard_page d page_index =
     (if ZramConfig_max_pages (zd_config d) \<le> page_index then (Inl InvalidArgument, d)
      else case PageTable_remove (zd_page_table d) page_index of
             (Inl e, t) \<Rightarrow> (Inl e, d\<lparr>zd_page_table := t\<rparr>)
           | (Inr _, t) \<Rightarrow> (Inr (), d\<lparr>zd_page_table := t\<rparr>))"

definition ZramDevice_stored_pages :: "ZramDevice \<Rightarrow> nat" where
  "ZramDevice_stored_pages d = PageTable_len (zd_page_table d)"

definition ZramDevice_reset :: "ZramDevice \<Rightarrow> unit result \<times> ZramDevice" where
  "ZramDevice_reset d =
     (Inr (), d\<lparr>zd_page_table :=
        fold (\<lambda>i t. snd (PageTable_remove t (word_of_nat i)))
          [0..<unat (ZramConfig_max_pages (zd_config d))] (zd_page_table d)\<rparr>)"

end
