(* ===== verification/Pepita_Zram_Store.thy ===== *)
theory Pepita_Zram_Store
  imports Pepita_Zram
begin

text \<open>
  Correctness of the zram device.  Two interfaces carry the proofs: \<open>page_codec\<close>, what the device
  needs of a compression stream, and \<open>page_store\<close>, what it needs of a page table.  Both are
  interpreted on the definitions of the program, and the device then refines an array of pages.
\<close>

section \<open>What the device needs of a compression stream\<close>

locale page_codec =
  fixes compress :: "bytes \<Rightarrow> bytes result"
    and decompress :: "bytes \<Rightarrow> bytes \<Rightarrow> nat result \<times> bytes"
  assumes compress_total: "\<exists>c. compress page = Inr c"
    and roundtrip: "length page = PAGE_SIZE \<Longrightarrow> compress page = Inr c \<Longrightarrow> length c < PAGE_SIZE \<Longrightarrow>
      length buf = PAGE_SIZE \<Longrightarrow> decompress c buf = (Inr PAGE_SIZE, page)"
begin

lemma read_compressed:
  "length page = PAGE_SIZE \<Longrightarrow> compress page = Inr c \<Longrightarrow> length c < PAGE_SIZE \<Longrightarrow>
   length buf = PAGE_SIZE \<Longrightarrow> read_entry decompress (CompressedPage c) buf = (Inr (), page)"
  by (simp add: read_entry_def roundtrip)

lemma read_uncompressed:
  "length page = PAGE_SIZE \<Longrightarrow> length buf = PAGE_SIZE \<Longrightarrow>
   read_entry decompress (UncompressedPage page) buf = (Inr (), page)"
  by (simp add: read_entry_def overwrite_def)

end

interpretation stream_codec: page_codec "CompressionStream_compress s" "CompressionStream_decompress s" for s
proof
  fix page
  show "\<exists>c. CompressionStream_compress s page = Inr c"
    using compress_lz4_total [of page]
    by (auto simp: CompressionStream_compress_def split: ZramCompressor.splits)
next
  fix page c buf :: bytes
  assume page: "length page = PAGE_SIZE" and c: "CompressionStream_compress s page = Inr c"
    and short: "length c < PAGE_SIZE" and buf: "length buf = PAGE_SIZE"
  show "CompressionStream_decompress s c buf = (Inr PAGE_SIZE, page)"
  proof (cases "stream_compressor s")
    case Lz4
    then have "compress_lz4 page = Inr c"
      using c by (simp add: CompressionStream_compress_def)
    from lz4_roundtrip [OF this, of buf] page short buf Lz4 show ?thesis
      by (auto simp: CompressionStream_decompress_def)
  next
    case NoCompression
    with page c short show ?thesis by (simp add: CompressionStream_compress_def)
  qed
qed

section \<open>What the device needs of a page table\<close>

locale page_store =
  fixes get :: "'t \<Rightarrow> u64 \<Rightarrow> PageEntry result"
    and set_entry :: "'t \<Rightarrow> u64 \<Rightarrow> PageEntry \<Rightarrow> unit result \<times> 't"
    and remove :: "'t \<Rightarrow> u64 \<Rightarrow> PageEntry option result \<times> 't"
    and ok :: "'t \<Rightarrow> bool"
  assumes get_ok: "ok t \<Longrightarrow> \<exists>e. get t i = Inr e"
    and set_ok: "ok t \<Longrightarrow> \<exists>t'. set_entry t i e = (Inr (), t') \<and> ok t'"
    and get_set: "ok t \<Longrightarrow> get (snd (set_entry t i e)) j = (if j = i then Inr e else get t j)"
    and remove_ok: "ok t \<Longrightarrow> \<exists>r t'. remove t i = (Inr r, t') \<and> ok t'"
    and get_remove: "ok t \<Longrightarrow> get (snd (remove t i)) j = (if j = i then Inr EmptyEntry else get t j)"
begin

lemma ok_snd_remove: "ok t \<Longrightarrow> ok (snd (remove t i))"
  using remove_ok [of t i] by auto

lemma ok_remove_all: "ok t \<Longrightarrow> ok (fold (\<lambda>i t. snd (remove t i)) is t)"
  by (induction "is" arbitrary: t) (auto simp: ok_snd_remove)

lemma get_remove_all:
  "ok t \<Longrightarrow> get (fold (\<lambda>i t. snd (remove t i)) is t) j =
     (if j \<in> set is then Inr EmptyEntry else get t j)"
  by (induction "is" arbitrary: t) (auto simp: ok_snd_remove get_remove)

end

definition table_ok :: "PageTable \<Rightarrow> bool" where
  "table_ok t \<longleftrightarrow> \<not> poisoned (entries t) \<and> distinct (map fst (contents (entries t)))"

interpretation table: page_store PageTable_get PageTable_set PageTable_remove table_ok
  by unfold_locales
     (auto simp: PageTable_get_def PageTable_set_def PageTable_remove_def table_ok_def
       update_conv' delete_conv' distinct_update distinct_delete)

lemma table_new_ok: "table_ok PageTable_new"
  by (simp add: table_ok_def PageTable_new_def)

section \<open>The device as an array of pages\<close>

text \<open>An entry is readable: it yields one page, whatever the buffer held before.\<close>

definition entry_page :: "CompressionStream \<Rightarrow> PageEntry \<Rightarrow> bytes \<Rightarrow> bool" where
  "entry_page s e page \<longleftrightarrow> length page = PAGE_SIZE \<and>
     (\<forall>buf. length buf = PAGE_SIZE \<longrightarrow>
        read_entry (CompressionStream_decompress s) e buf = (Inr (), page))"

definition zram_stream :: "ZramDevice \<Rightarrow> CompressionStream" where
  "zram_stream d = contents (zd_stream d)"

text \<open>The device is well formed and its pages are those of the array \<open>f\<close>.\<close>

definition zram_abs :: "ZramDevice \<Rightarrow> (u64 \<Rightarrow> bytes) \<Rightarrow> bool" where
  "zram_abs d f \<longleftrightarrow> table_ok (zd_page_table d) \<and> \<not> poisoned (zd_stream d) \<and>
     (\<forall>i. \<exists>e. PageTable_get (zd_page_table d) i = Inr e \<and> entry_page (zram_stream d) e (f i))"

definition zero_page :: bytes where
  "zero_page = replicate PAGE_SIZE 0"

lemma length_zero_page [simp]: "length zero_page = PAGE_SIZE"
  by (simp add: zero_page_def)

lemma entry_page_fill:
  "entry_page s EmptyEntry zero_page"
  "entry_page s ZeroPage zero_page"
  "entry_page s (SamePage v) (replicate PAGE_SIZE v)"
  by (simp_all add: entry_page_def read_entry_def zero_page_def)

lemma entry_page_uncompressed: "length page = PAGE_SIZE \<Longrightarrow> entry_page s (UncompressedPage page) page"
  by (simp add: entry_page_def stream_codec.read_uncompressed)

lemma entry_page_compressed:
  "length page = PAGE_SIZE \<Longrightarrow> CompressionStream_compress s page = Inr c \<Longrightarrow> length c < PAGE_SIZE \<Longrightarrow>
   entry_page s (CompressedPage c) page"
  by (simp add: entry_page_def stream_codec.read_compressed)

lemma same_filled: "check_same_filled page = Some v \<Longrightarrow> page = replicate (length page) v"
  by (auto simp: check_same_filled_def Let_def list_all_iff replicate_eqI split: if_splits)

lemma zero_filled: "list_all (\<lambda>b. b = 0) page \<Longrightarrow> length page = PAGE_SIZE \<Longrightarrow> page = zero_page"
  by (simp add: zero_page_def list_all_iff replicate_eqI)

lemma zram_abs_new: "ZramDevice_new c = Inr d \<Longrightarrow> zram_abs d (\<lambda>_. zero_page)"
  by (auto simp: ZramDevice_new_def zram_abs_def table_ok_def PageTable_get_def PageTable_new_def
      entry_page_fill)

lemma store_abs:
  assumes "zram_abs d f" and "entry_page (zram_stream d) e page"
  shows "\<exists>d'. ZramDevice_store d i e upd = (Inr (), d') \<and> zram_abs d' (f(i := page))
              \<and> zd_config d' = zd_config d"
proof -
  let ?t = "zd_page_table d"
  have t: "table_ok ?t" and g: "\<And>j. \<exists>e. PageTable_get ?t j = Inr e \<and> entry_page (zram_stream d) e (f j)"
    using assms(1) by (auto simp: zram_abs_def)
  obtain t' where t': "PageTable_set ?t i e = (Inr (), t')" "table_ok t'"
    using table.set_ok [OF t] by blast
  have "\<exists>e'. PageTable_get t' j = Inr e' \<and> entry_page (zram_stream d) e' ((f(i := page)) j)" for j
    using table.get_set [OF t, of i e j] t'(1) g [of j] assms(2) by simp
  with t' assms(1) show ?thesis
    by (simp add: ZramDevice_store_def zram_abs_def zram_stream_def)
qed

lemma write_abs:
  assumes abs: "zram_abs d f" and len: "PAGE_SIZE \<le> length data"
    and i: "i < ZramConfig_max_pages (zd_config d)"
  shows "\<exists>d'. ZramDevice_write_page d i data = (Inr (), d')
              \<and> zram_abs d' (f(i := take PAGE_SIZE data)) \<and> zd_config d' = zd_config d"
proof -
  let ?p = "take PAGE_SIZE data"
  have p: "length ?p = PAGE_SIZE" using len by simp
  obtain c where c: "CompressionStream_compress (zram_stream d) ?p = Inr c"
    using stream_codec.compress_total by blast
  have "\<not> poisoned (zd_stream d)" using abs by (simp add: zram_abs_def)
  moreover have "entry_page (zram_stream d) ZeroPage ?p" if "list_all (\<lambda>b. b = 0) ?p"
    using zero_filled [OF that p] entry_page_fill(2) by simp
  moreover have "entry_page (zram_stream d) (SamePage v) ?p" if "check_same_filled ?p = Some v" for v
    using same_filled [OF that] entry_page_fill(3) p by metis
  ultimately show ?thesis
    using len i p c entry_page_uncompressed [OF p] entry_page_compressed [OF p c]
    by (auto simp: ZramDevice_write_page_def Let_def PAGE_SIZE_def zram_stream_def not_le
        intro!: store_abs [OF abs, unfolded zram_stream_def] split: option.splits)
qed

lemma read_abs:
  assumes abs: "zram_abs d f" and len: "PAGE_SIZE \<le> length buf"
    and i: "i < ZramConfig_max_pages (zd_config d)"
  shows "\<exists>d'. ZramDevice_read_page d i buf = (Inr (), f i @ drop PAGE_SIZE buf, d')
              \<and> zram_abs d' f \<and> zd_config d' = zd_config d"
proof -
  obtain e where e: "PageTable_get (zd_page_table d) i = Inr e" "entry_page (zram_stream d) e (f i)"
    and np: "\<not> poisoned (zd_stream d)"
    using abs by (auto simp: zram_abs_def)
  have "read_entry (CompressionStream_decompress (contents (zd_stream d))) e (take PAGE_SIZE buf)
      = (Inr (), f i)"
    using e(2) len by (simp add: entry_page_def zram_stream_def)
  with e(1) np len i abs show ?thesis
    by (simp add: ZramDevice_read_page_def zram_abs_def zram_stream_def not_le split: PageEntry.splits)
qed

lemma discard_abs:
  assumes abs: "zram_abs d f" and i: "i < ZramConfig_max_pages (zd_config d)"
  shows "\<exists>d'. ZramDevice_discard_page d i = (Inr (), d') \<and> zram_abs d' (f(i := zero_page))
              \<and> zd_config d' = zd_config d"
proof -
  let ?t = "zd_page_table d"
  have t: "table_ok ?t" and g: "\<And>j. \<exists>e. PageTable_get ?t j = Inr e \<and> entry_page (zram_stream d) e (f j)"
    using abs by (auto simp: zram_abs_def)
  obtain r t' where t': "PageTable_remove ?t i = (Inr r, t')" "table_ok t'"
    using table.remove_ok [OF t] by blast
  have "\<exists>e'. PageTable_get t' j = Inr e' \<and> entry_page (zram_stream d) e' ((f(i := zero_page)) j)" for j
    using table.get_remove [OF t, of i j] t'(1) g [of j] entry_page_fill(1) by simp
  with t' i abs show ?thesis
    by (simp add: ZramDevice_discard_page_def zram_abs_def zram_stream_def)
qed

text \<open>Pages beyond the device's size are never written, so after a reset every page is zero.\<close>

definition in_range :: "ZramDevice \<Rightarrow> (u64 \<Rightarrow> bytes) \<Rightarrow> bool" where
  "in_range d f \<longleftrightarrow> (\<forall>i. ZramConfig_max_pages (zd_config d) \<le> i \<longrightarrow> f i = zero_page)"

lemma fold_remove_map:
  "fold (\<lambda>i t. snd (PageTable_remove t (word_of_nat i))) ns t =
   fold (\<lambda>i t. snd (PageTable_remove t i)) (map word_of_nat ns) t"
  by (simp add: fold_map comp_def)

lemma word_upt: "set (map word_of_nat [0..<unat n]) = {i. i < (n :: u64)}"
proof (intro set_eqI iffI)
  fix i :: u64 assume "i \<in> set (map word_of_nat [0..<unat n])"
  then obtain k where "k < unat n" "i = word_of_nat k" by auto
  then show "i \<in> {i. i < n}"
    using unat_bound [of n] by (simp add: word_less_nat_alt unat_of_nat)
next
  fix i :: u64 assume "i \<in> {i. i < n}"
  then show "i \<in> set (map word_of_nat [0..<unat n])"
    by (auto simp: word_less_nat_alt image_iff intro!: bexI [of _ "unat i"])
qed

lemma reset_abs:
  assumes abs: "zram_abs d f" and rng: "in_range d f"
  shows "\<exists>d'. ZramDevice_reset d = (Inr (), d') \<and> zram_abs d' (\<lambda>_. zero_page)
              \<and> zd_config d' = zd_config d"
proof -
  let ?is = "map word_of_nat [0..<unat (ZramConfig_max_pages (zd_config d))]"
  have t: "table_ok (zd_page_table d)"
    using abs by (simp add: zram_abs_def)
  have "\<exists>e. PageTable_get (fold (\<lambda>i t. snd (PageTable_remove t i)) ?is (zd_page_table d)) j = Inr e
      \<and> entry_page (zram_stream d) e zero_page" for j
  proof (cases "j < ZramConfig_max_pages (zd_config d)")
    case True
    then have "j \<in> set ?is" by (simp only: word_upt mem_Collect_eq)
    then show ?thesis
      using table.get_remove_all [OF t, of ?is j] entry_page_fill(1) by simp
  next
    case False
    then have "j \<notin> set ?is" and "f j = zero_page"
      using rng by (simp_all only: word_upt mem_Collect_eq in_range_def not_less simp_thms)
    moreover obtain e where "PageTable_get (zd_page_table d) j = Inr e" "entry_page (zram_stream d) e (f j)"
      using abs by (auto simp: zram_abs_def)
    ultimately show ?thesis
      using table.get_remove_all [OF t, of ?is j] by simp
  qed
  with abs table.ok_remove_all [OF t, of ?is] show ?thesis
    by (simp add: ZramDevice_reset_def zram_abs_def zram_stream_def fold_remove_map)
qed

section \<open>Sequences of operations\<close>

datatype zram_op = WritePage u64 bytes | ReadPage u64 bytes | DiscardPage u64 | ResetDevice

text \<open>The device after one call, whether the call succeeds or fails.\<close>

fun zram_call :: "zram_op \<Rightarrow> ZramDevice \<Rightarrow> ZramDevice" where
  "zram_call (WritePage i data) d = snd (ZramDevice_write_page d i data)"
| "zram_call (ReadPage i buf) d = snd (snd (ZramDevice_read_page d i buf))"
| "zram_call (DiscardPage i) d = snd (ZramDevice_discard_page d i)"
| "zram_call ResetDevice d = snd (ZramDevice_reset d)"

text \<open>The ideal device with \<open>n\<close> pages: an array of pages; bad requests change nothing.\<close>

fun ideal_call :: "u64 \<Rightarrow> zram_op \<Rightarrow> (u64 \<Rightarrow> bytes) \<Rightarrow> (u64 \<Rightarrow> bytes)" where
  "ideal_call n (WritePage i data) f =
     (if PAGE_SIZE \<le> length data \<and> i < n then f(i := take PAGE_SIZE data) else f)"
| "ideal_call n (ReadPage i buf) f = f"
| "ideal_call n (DiscardPage i) f = (if i < n then f(i := zero_page) else f)"
| "ideal_call n ResetDevice f = (\<lambda>_. zero_page)"

lemma bad_calls:
  "length data < PAGE_SIZE \<or> ZramConfig_max_pages (zd_config d) \<le> i \<Longrightarrow>
   ZramDevice_write_page d i data = (Inl InvalidArgument, d)"
  "length buf < PAGE_SIZE \<or> ZramConfig_max_pages (zd_config d) \<le> i \<Longrightarrow>
   ZramDevice_read_page d i buf = (Inl InvalidArgument, buf, d)"
  "ZramConfig_max_pages (zd_config d) \<le> i \<Longrightarrow> ZramDevice_discard_page d i = (Inl InvalidArgument, d)"
  by (auto simp: ZramDevice_write_page_def ZramDevice_read_page_def ZramDevice_discard_page_def)

lemma zram_call_refines:
  assumes abs: "zram_abs d f" and rng: "in_range d f" and n: "n = ZramConfig_max_pages (zd_config d)"
  shows "zram_abs (zram_call c d) (ideal_call n c f) \<and> in_range (zram_call c d) (ideal_call n c f)
     \<and> zd_config (zram_call c d) = zd_config d"
proof (cases c)
  case (WritePage i data)
  then show ?thesis
    using abs rng n write_abs [OF abs, of data i] bad_calls(1) [of data d i]
    by (cases "PAGE_SIZE \<le> length data \<and> i < ZramConfig_max_pages (zd_config d)")
       (auto simp: in_range_def not_le not_less)
next
  case (ReadPage i buf)
  then show ?thesis
    using abs rng n read_abs [OF abs, of buf i] bad_calls(2) [of buf d i]
    by (cases "PAGE_SIZE \<le> length buf \<and> i < ZramConfig_max_pages (zd_config d)")
       (auto simp: in_range_def not_le not_less)
next
  case (DiscardPage i)
  then show ?thesis
    using abs rng n discard_abs [OF abs, of i] bad_calls(3) [of d i]
    by (cases "i < ZramConfig_max_pages (zd_config d)") (auto simp: in_range_def not_le not_less)
next
  case ResetDevice
  then show ?thesis
    using reset_abs [OF abs rng] by (auto simp: in_range_def)
qed

lemma zram_calls_refine:
  assumes "zram_abs d f" and "in_range d f" and "n = ZramConfig_max_pages (zd_config d)"
  shows "zram_abs (fold zram_call cs d) (fold (ideal_call n) cs f)
     \<and> zd_config (fold zram_call cs d) = zd_config d"
  using assms
proof (induction cs arbitrary: d f)
  case (Cons c cs)
  then show ?case
    using zram_call_refines [OF Cons.prems, of c]
      Cons.IH [of "zram_call c d" "ideal_call n c f"] by simp
qed simp

section \<open>Memory bound\<close>

definition zram_entries :: "ZramDevice \<Rightarrow> (u64 \<times> PageEntry) list" where
  "zram_entries d = contents (entries (zd_page_table d))"

definition zram_memory :: "ZramDevice \<Rightarrow> nat" where
  "zram_memory d = (\<Sum>(i, e) \<leftarrow> zram_entries d. PageEntry_memory_size e)"

text \<open>Every key is a page of the device, no key occurs twice, and no entry exceeds a page.\<close>

definition zram_bounded :: "ZramDevice \<Rightarrow> bool" where
  "zram_bounded d \<longleftrightarrow> distinct (map fst (zram_entries d)) \<and>
     (\<forall>(i, e) \<in> set (zram_entries d). i < ZramConfig_max_pages (zd_config d)
        \<and> PageEntry_memory_size e \<le> PAGE_SIZE)"

lemma set_update_subset: "set (AList.update k v al) \<subseteq> insert (k, v) (set al)"
  by (induction al) auto

lemma set_delete_subset: "set (AList.delete k al) \<subseteq> set al"
  by (induction al) auto

lemma sum_list_bound: "(\<And>x. x \<in> set xs \<Longrightarrow> g x \<le> (b::nat)) \<Longrightarrow> sum_list (map g xs) \<le> length xs * b"
  by (induction xs) (auto intro: add_mono)

lemma distinct_keys_bound:
  assumes "distinct xs" and "\<And>x. x \<in> set xs \<Longrightarrow> x < (n :: u64)"
  shows "length xs \<le> unat n"
proof -
  have "set (map unat xs) \<subseteq> {..<unat n}"
    using assms(2) by (auto simp: word_less_nat_alt)
  then have "card (set (map unat xs)) \<le> unat n"
    using card_mono [of "{..<unat n}"] by simp
  moreover have "distinct (map unat xs)"
    using assms(1) by (simp add: distinct_map inj_on_def word_unat_eq_iff)
  ultimately show ?thesis
    using distinct_card [of "map unat xs"] by simp
qed

lemma zram_bounded_memory:
  assumes "zram_bounded d"
  shows "ZramDevice_stored_pages d \<le> unat (ZramConfig_max_pages (zd_config d))
    \<and> zram_memory d \<le> unat (ZramConfig_max_pages (zd_config d)) * PAGE_SIZE"
proof -
  let ?n = "unat (ZramConfig_max_pages (zd_config d))"
  have n: "length (zram_entries d) \<le> ?n"
    using assms
      distinct_keys_bound [of "map fst (zram_entries d)" "ZramConfig_max_pages (zd_config d)"]
    by (force simp: zram_bounded_def)
  have "zram_memory d \<le> length (zram_entries d) * PAGE_SIZE"
    unfolding zram_memory_def using assms
    by (intro sum_list_bound) (auto simp: zram_bounded_def)
  also have "\<dots> \<le> ?n * PAGE_SIZE" using n by simp
  finally show ?thesis
    using n by (simp add: ZramDevice_stored_pages_def PageTable_len_def zram_entries_def)
qed

lemma bounded_store:
  assumes "zram_bounded d" and "i < ZramConfig_max_pages (zd_config d)"
    and "PageEntry_memory_size e \<le> PAGE_SIZE"
  shows "zram_bounded (snd (ZramDevice_store d i e upd))"
  using assms set_update_subset [of i e "zram_entries d"]
  by (auto simp: zram_bounded_def zram_entries_def ZramDevice_store_def PageTable_set_def
      distinct_update)

lemma bounded_write:
  assumes "zram_bounded d"
  shows "zram_bounded (snd (ZramDevice_write_page d i data))"
  using assms
  by (auto simp: ZramDevice_write_page_def Let_def PageEntry_memory_size_def PAGE_SIZE_def not_le
      intro!: bounded_store split: option.splits sum.splits)

lemma bounded_remove:
  assumes "zram_bounded d"
  shows "zram_bounded (d\<lparr>zd_page_table := snd (PageTable_remove (zd_page_table d) i)\<rparr>)"
  using assms
  by (auto simp: zram_bounded_def zram_entries_def PageTable_remove_def distinct_delete
      dest: subsetD [OF set_delete_subset])

lemma bounded_remove_all:
  "zram_bounded d \<Longrightarrow>
   zram_bounded (d\<lparr>zd_page_table := fold (\<lambda>i t. snd (PageTable_remove t (g i))) is (zd_page_table d)\<rparr>)"
proof (induction "is" arbitrary: d)
  case (Cons i "is")
  then show ?case
    using Cons.IH [OF bounded_remove [OF Cons.prems, of "g i"]] by simp
qed simp

lemma bounded_call: "zram_bounded d \<Longrightarrow> zram_bounded (zram_call c d)"
proof (cases c)
  case (ReadPage i buf)
  assume "zram_bounded d"
  with ReadPage show ?thesis
    by (auto simp: ZramDevice_read_page_def zram_bounded_def zram_entries_def
        split: sum.splits prod.splits)
next
  case (DiscardPage i)
  assume b: "zram_bounded d"
  show ?thesis
    using bounded_remove [OF b, of i] b DiscardPage
    by (auto simp: ZramDevice_discard_page_def split: sum.splits prod.splits)
next
  case ResetDevice
  assume "zram_bounded d"
  with ResetDevice show ?thesis
    by (simp add: ZramDevice_reset_def bounded_remove_all)
qed (simp add: bounded_write)

lemma bounded_calls: "zram_bounded d \<Longrightarrow> zram_bounded (fold zram_call cs d)"
  by (induction cs arbitrary: d) (auto simp: bounded_call)

lemma bounded_new: "ZramDevice_new c = Inr d \<Longrightarrow> zram_bounded d"
  by (auto simp: ZramDevice_new_def PageTable_new_def zram_bounded_def zram_entries_def)

section \<open>Statistics\<close>

text \<open>The write requests a device with \<open>n\<close> pages accepts.\<close>

fun accepted_write :: "u64 \<Rightarrow> zram_op \<Rightarrow> bool" where
  "accepted_write n (WritePage i data) \<longleftrightarrow> PAGE_SIZE \<le> length data \<and> i < n"
| "accepted_write n _ \<longleftrightarrow> False"

definition counts :: "ZramDevice \<Rightarrow> u64 \<Rightarrow> bool" where
  "counts d k \<longleftrightarrow> pages_stored (ZramDevice_stats d) = k \<and> num_writes (ZramDevice_stats d) = k"

lemmas stats_defs = counts_def ZramDevice_stats_def AtomicStats_snapshot_def
  AtomicStats_record_write_def AtomicStats_record_zero_page_def AtomicStats_record_same_page_def
  AtomicStats_record_huge_page_def AtomicStats_record_read_def

lemma counts_store:
  assumes "table_ok (zd_page_table d)" and "counts d k"
    and "\<And>s. pages_stored (upd s) = pages_stored s + 1 \<and> num_writes (upd s) = num_writes s + 1"
  shows "counts (snd (ZramDevice_store d i e upd)) (k + 1)"
  using assms by (simp add: stats_defs ZramDevice_store_def PageTable_set_def table_ok_def)

lemma counts_write:
  assumes abs: "zram_abs d f" and k: "counts d k"
    and ok: "PAGE_SIZE \<le> length data" "i < ZramConfig_max_pages (zd_config d)"
  shows "counts (snd (ZramDevice_write_page d i data)) (k + 1)"
proof -
  have t: "table_ok (zd_page_table d)" and np: "\<not> poisoned (zd_stream d)"
    using abs by (simp_all add: zram_abs_def)
  obtain c where c: "CompressionStream_compress (contents (zd_stream d)) (take PAGE_SIZE data) = Inr c"
    using stream_codec.compress_total by blast
  show ?thesis
    using np ok c
    by (auto simp: ZramDevice_write_page_def Let_def not_le AtomicStats_record_write_def
        AtomicStats_record_zero_page_def AtomicStats_record_same_page_def
        AtomicStats_record_huge_page_def intro!: counts_store [OF t k] split: option.splits)
qed

lemma counts_call:
  assumes "zram_abs d f" and "counts d k" and "n = ZramConfig_max_pages (zd_config d)"
  shows "counts (zram_call c d) (if accepted_write n c then k + 1 else k)"
proof (cases c)
  case (WritePage i data)
  then show ?thesis
    using assms counts_write [OF assms(1,2), of data i] bad_calls(1) [of data d i]
    by (cases "accepted_write n c") (auto simp: not_le not_less)
qed (use assms in \<open>auto simp: stats_defs ZramDevice_read_page_def ZramDevice_discard_page_def
        ZramDevice_reset_def split: sum.splits prod.splits\<close>)

lemma counts_calls:
  assumes "zram_abs d f" and "in_range d f" and "n = ZramConfig_max_pages (zd_config d)" and "counts d k"
  shows "counts (fold zram_call cs d) (k + word_of_nat (length (filter (accepted_write n) cs)))"
  using assms
proof (induction cs arbitrary: d f k)
  case (Cons c cs)
  have "counts (zram_call c d) (if accepted_write n c then k + 1 else k)"
    by (rule counts_call [OF Cons.prems(1,4,3)])
  then show ?case
    using zram_call_refines [OF Cons.prems(1-3), of c] Cons.prems(3)
      Cons.IH [of "zram_call c d" "ideal_call n c f" "if accepted_write n c then k + 1 else k"]
    by (simp add: ac_simps split: if_splits)
qed simp

section \<open>Properties\<close>

lemma in_range_zero: "in_range d (\<lambda>_. zero_page)"
  by (simp add: in_range_def)

text \<open>C2: The zram device implements an array of pages. From a freshly created device (every page
  zero), after any sequence of writes, reads, discards and resets, accepted or rejected, reading a page
  of the device into a large enough buffer succeeds and puts there exactly what the array of pages
  holds after the same sequence, through zero, same-filled, LZ4-compressed and raw storage alike; the
  bytes of the buffer beyond the page are untouched.\<close>

theorem zram_device_refines_pages:
  assumes "ZramDevice_new c = Inr d" and "i < ZramConfig_max_pages c" and "PAGE_SIZE \<le> length buf"
  shows "\<exists>d'. ZramDevice_read_page (fold zram_call cs d) i buf =
     (Inr (), fold (ideal_call (ZramConfig_max_pages c)) cs (\<lambda>_. zero_page) i @ drop PAGE_SIZE buf, d')"
proof -
  have cfg: "zd_config d = c"
    using assms(1) by (auto simp: ZramDevice_new_def)
  from zram_calls_refine [OF zram_abs_new [OF assms(1)] in_range_zero, of "ZramConfig_max_pages c" cs] cfg
  show ?thesis
    using read_abs assms(2,3) by fastforce
qed

definition sample_device_config :: ZramConfig where
  "sample_device_config = ZramConfig_with_size 8192"

lemma sample_device_pages: "ZramConfig_max_pages sample_device_config = 2"
  by (simp add: sample_device_config_def ZramConfig_with_size_def ZramConfig_max_pages_def
      ZramConfig_default_def PAGE_SIZE_def)

theorem zram_device_refines_pages_witness:
  "\<exists>d d'. ZramDevice_new sample_device_config = Inr d \<and>
     ZramDevice_read_page
       (fold zram_call [WritePage 0 (replicate 4096 9), WritePage 1 (replicate 4096 7), DiscardPage 0] d)
       1 (replicate 4097 1) = (Inr (), replicate 4096 7 @ [1], d')"
proof -
  obtain d where d: "ZramDevice_new sample_device_config = Inr d"
    by (simp add: ZramDevice_new_def)
  have tail: "drop 4096 (replicate 4097 1) = [1 :: u8]" by (simp add: numeral_eq_Suc)
  show ?thesis
    using zram_device_refines_pages [OF d, of 1 "replicate 4097 1"
        "[WritePage 0 (replicate 4096 9), WritePage 1 (replicate 4096 7), DiscardPage 0]"] d tail
    by (simp add: sample_device_pages PAGE_SIZE_def)
qed

text \<open>C25: Which requests the device accepts. Whatever was called before, a write succeeds exactly when
  the page lies in the device and the data fill a page, a read exactly when the page lies in the device
  and the buffer holds a page, a discard exactly when the page lies in the device; every rejected
  request reports \<open>InvalidArgument\<close>.\<close>

theorem zram_accepts_exactly:
  assumes "ZramDevice_new c = Inr d0" and "d = fold zram_call cs d0" and "n = ZramConfig_max_pages c"
  shows "fst (ZramDevice_write_page d i data) =
           (if PAGE_SIZE \<le> length data \<and> i < n then Inr () else Inl InvalidArgument)
     \<and> fst (ZramDevice_read_page d i buf) =
           (if PAGE_SIZE \<le> length buf \<and> i < n then Inr () else Inl InvalidArgument)
     \<and> fst (ZramDevice_discard_page d i) = (if i < n then Inr () else Inl InvalidArgument)"
proof -
  have "zd_config d0 = c" using assms(1) by (auto simp: ZramDevice_new_def)
  then obtain f where abs: "zram_abs d f" and n: "n = ZramConfig_max_pages (zd_config d)"
    using zram_calls_refine [OF zram_abs_new [OF assms(1)] in_range_zero, of n cs] assms(2,3) by auto
  then show ?thesis
    using write_abs [OF abs, of data i] read_abs [OF abs, of buf i] discard_abs [OF abs, of i]
      bad_calls(1) [of data d i] bad_calls(2) [of buf d i] bad_calls(3) [of d i]
    by (auto simp: not_le not_less)
qed

theorem zram_accepts_exactly_witness:
  "\<exists>d. ZramDevice_new sample_device_config = Inr d
     \<and> fst (ZramDevice_write_page d 1 (replicate 4096 5)) = Inr ()
     \<and> fst (ZramDevice_read_page d 2 (replicate 4096 0)) = Inl InvalidArgument
     \<and> fst (ZramDevice_discard_page d 1) = Inr ()"
proof -
  obtain d where d: "ZramDevice_new sample_device_config = Inr d"
    by (simp add: ZramDevice_new_def)
  have "d = fold zram_call [] d" by simp
  with d zram_accepts_exactly [OF d this refl, of 1 "replicate 4096 5" "[]"]
    zram_accepts_exactly [OF d this refl, of 2 "[]" "replicate 4096 0"]
  show ?thesis by (simp add: sample_device_pages PAGE_SIZE_def)
qed

text \<open>Memory bound. After any sequence of calls on a new device the page table holds at most
  \<open>max_pages\<close> entries and the bytes it stores are at most \<open>max_pages\<close> times the page size:
  compression never makes the device store more than the pages themselves.\<close>

lemma zram_memory_bounded:
  "case ZramDevice_new c of
     Inl e \<Rightarrow> False
   | Inr d \<Rightarrow>
       ZramDevice_stored_pages (fold zram_call cs d) \<le> unat (ZramConfig_max_pages c)
       \<and> zram_memory (fold zram_call cs d) \<le> unat (ZramConfig_max_pages c) * PAGE_SIZE"
proof -
  obtain d where d: "ZramDevice_new c = Inr d" and cfg: "zd_config d = c"
    by (simp add: ZramDevice_new_def)
  have "zd_config (fold zram_call cs d) = c"
    using zram_calls_refine [OF zram_abs_new [OF d] in_range_zero refl, of cs] cfg by simp
  then show ?thesis
    using zram_bounded_memory [OF bounded_calls [OF bounded_new [OF d], of cs]] d by simp
qed

text \<open>What the statistics count. After any sequence of calls on a new device, \<open>pages_stored\<close> equals
  \<open>num_writes\<close>, and both are the number of accepted writes (modulo the counter width): overwriting
  a page counts it again, and a discard or a reset never lowers the counter.\<close>

lemma zram_pages_stored_counts_writes:
  "case ZramDevice_new c of
     Inl e \<Rightarrow> False
   | Inr d \<Rightarrow>
       pages_stored (ZramDevice_stats (fold zram_call cs d)) =
         word_of_nat (length (filter (accepted_write (ZramConfig_max_pages c)) cs))
       \<and> num_writes (ZramDevice_stats (fold zram_call cs d)) =
         pages_stored (ZramDevice_stats (fold zram_call cs d))"
proof -
  obtain d where d: "ZramDevice_new c = Inr d" and cfg: "zd_config d = c" and "counts d 0"
    by (simp add: ZramDevice_new_def stats_defs ZramStats_default_def)
  then show ?thesis
    using counts_calls [OF zram_abs_new [OF d] in_range_zero refl, of 0 cs] by (simp add: counts_def)
qed

text \<open>C31: memory and statistics. After any sequence of calls on a new device the page table holds at most
  \<open>max_pages\<close> entries, and the bytes it stores are at most \<open>max_pages\<close> times the page size: compression
  never makes the device store more than the pages themselves. The statistic \<open>pages_stored\<close> equals
  \<open>num_writes\<close>, and both are the number of accepted writes (modulo the counter width): overwriting a
  page counts it again, and a discard or a reset never lowers the counter.\<close>

theorem zram_accounting:
  "case ZramDevice_new c of
     Inl e \<Rightarrow> False
   | Inr d \<Rightarrow>
       ZramDevice_stored_pages (fold zram_call cs d) \<le> unat (ZramConfig_max_pages c)
       \<and> zram_memory (fold zram_call cs d) \<le> unat (ZramConfig_max_pages c) * PAGE_SIZE
       \<and> pages_stored (ZramDevice_stats (fold zram_call cs d)) =
         word_of_nat (length (filter (accepted_write (ZramConfig_max_pages c)) cs))
       \<and> num_writes (ZramDevice_stats (fold zram_call cs d)) =
         pages_stored (ZramDevice_stats (fold zram_call cs d))"
  using zram_memory_bounded [where c = c and cs = cs] zram_pages_stored_counts_writes [where c = c and cs = cs]
  by (cases "ZramDevice_new c") simp_all

end
