(* ===== verification/Pepita_Threads.thy ===== *)
theory Pepita_Threads
  imports Pepita_Prelude
begin

text \<open>
  Interleavings of threads on shared state, for the components whose methods are not atomic.  A thread is at a
  program point; \<open>access\<close> is its next access to the shared state, or \<open>None\<close> while it has to wait for a lock.
  Between accesses an idle thread may start a call, and the environment may change the shared state (the clock
  advances, another part of the program stops the component).  The two locales give what the components prove
  once: an invariant of all interleavings, and that calls neither deadlock nor run forever.
\<close>

section \<open>Steps and schedules\<close>

inductive interleave ::
  "('s \<Rightarrow> 'p \<Rightarrow> ('s \<times> 'p) option) \<Rightarrow> ('p \<Rightarrow> bool) \<Rightarrow> ('p \<Rightarrow> bool) \<Rightarrow> ('e \<Rightarrow> 's \<Rightarrow> 's)
     \<Rightarrow> 's \<times> 'p list \<Rightarrow> 's \<times> 'p list \<Rightarrow> bool"
  for access idle starts env where
  start: "t < length ps \<Longrightarrow> idle (ps ! t) \<Longrightarrow> starts p \<Longrightarrow> interleave access idle starts env (s, ps) (s, ps[t := p])"
| turn: "t < length ps \<Longrightarrow> access s (ps ! t) = Some (s', p') \<Longrightarrow>
     interleave access idle starts env (s, ps) (s', ps[t := p'])"
| outside: "interleave access idle starts env (s, ps) (env e s, ps)"

text \<open>One turn of some thread, without new calls.\<close>

inductive turn :: "('s \<Rightarrow> 'p \<Rightarrow> ('s \<times> 'p) option) \<Rightarrow> 's \<times> 'p list \<Rightarrow> 's \<times> 'p list \<Rightarrow> bool"
  for access where
  turnI: "t < length ps \<Longrightarrow> access s (ps ! t) = Some (s', p') \<Longrightarrow> turn access (s, ps) (s', ps[t := p'])"

text \<open>An executable schedule: a move that is not possible does nothing.\<close>

datatype ('p, 'e) thread_move = Begin nat 'p | Turn nat | Outside 'e

fun play ::
  "('s \<Rightarrow> 'p \<Rightarrow> ('s \<times> 'p) option) \<Rightarrow> ('p \<Rightarrow> bool) \<Rightarrow> ('p \<Rightarrow> bool) \<Rightarrow> ('e \<Rightarrow> 's \<Rightarrow> 's)
     \<Rightarrow> ('p, 'e) thread_move \<Rightarrow> 's \<times> 'p list \<Rightarrow> 's \<times> 'p list" where
  "play access idle starts env (Begin t p) (s, ps) =
     (if t < length ps \<and> idle (ps ! t) \<and> starts p then (s, ps[t := p]) else (s, ps))"
| "play access idle starts env (Turn t) (s, ps) =
     (if t < length ps
      then (case access s (ps ! t) of None \<Rightarrow> (s, ps) | Some (s', p') \<Rightarrow> (s', ps[t := p'])) else (s, ps))"
| "play access idle starts env (Outside e) (s, ps) = (env e s, ps)"

lemma play_reachable: "(interleave access idle starts env)\<^sup>*\<^sup>* c (play access idle starts env m c)"
proof (cases c)
  case (Pair s ps)
  then show ?thesis
    by (cases m) (auto intro: interleave.intros split: option.split)
qed

lemma plays_reachable: "(interleave access idle starts env)\<^sup>*\<^sup>* c (fold (play access idle starts env) ms c)"
proof (induction ms arbitrary: c)
  case (Cons m ms)
  then show ?case using play_reachable rtranclp_trans by (metis fold_simps(2))
qed simp

text \<open>At most \<open>n\<close> accesses of one thread with no other in between.\<close>

fun alone :: "('s \<Rightarrow> 'p \<Rightarrow> ('s \<times> 'p) option) \<Rightarrow> nat \<Rightarrow> 's \<Rightarrow> 'p \<Rightarrow> 's \<times> 'p" where
  "alone access 0 s p = (s, p)"
| "alone access (Suc n) s p = (case access s p of None \<Rightarrow> (s, p) | Some (s', p') \<Rightarrow> alone access n s' p')"

lemma alone_numeral:
  "alone access (numeral k) s p =
     (case access s p of None \<Rightarrow> (s, p) | Some (s', p') \<Rightarrow> alone access (pred_numeral k) s' p')"
  by (simp add: numeral_eq_Suc)

lemma alone_add:
  "alone access (m + n) s p = (case alone access m s p of (s', p') \<Rightarrow> alone access n s' p')"
proof (induction m arbitrary: s p)
  case (Suc m)
  show ?case
  proof (cases "access s p")
    case None
    then show ?thesis by (cases n) simp_all
  next
    case (Some r)
    then show ?thesis using Suc by (cases r) simp
  qed
qed simp

text \<open>Replacing one thread: how many threads are at a point of a given kind.\<close>

definition at :: "('p \<Rightarrow> bool) \<Rightarrow> 'p list \<Rightarrow> nat" where
  "at P ps = length (filter P ps)"

lemma at_update:
  "t < length ps \<Longrightarrow> at P (ps[t := p]) + of_bool (P (ps ! t)) = at P ps + of_bool (P p)"
proof (induction ps arbitrary: t)
  case (Cons q ps)
  then show ?case by (cases t) (auto simp: at_def)
qed simp

lemma at_pos: "t < length ps \<Longrightarrow> P (ps ! t) \<Longrightarrow> 0 < at P ps"
  by (auto simp: at_def filter_empty_conv intro: nth_mem)

lemma at_some: "0 < at P ps \<Longrightarrow> \<exists>t < length ps. P (ps ! t)"
  by (auto simp: at_def filter_empty_conv in_set_conv_nth)

lemma at_replicate [simp]: "at P (replicate k p) = (if P p then k else 0)"
  by (simp add: at_def filter_replicate)

lemma at_le: "(\<And>p. P p \<Longrightarrow> Q p) \<Longrightarrow> at P ps \<le> at Q ps"
  by (induction ps) (auto simp: at_def intro: le_SucI)

section \<open>Invariants\<close>

locale thread_invariant =
  fixes access :: "'s \<Rightarrow> 'p \<Rightarrow> ('s \<times> 'p) option"
    and idle starts :: "'p \<Rightarrow> bool"
    and env :: "'e \<Rightarrow> 's \<Rightarrow> 's"
    and init inv :: "'s \<times> 'p list \<Rightarrow> bool"
  assumes init_inv: "init c \<Longrightarrow> inv c"
    and start_inv: "inv (s, ps) \<Longrightarrow> t < length ps \<Longrightarrow> idle (ps ! t) \<Longrightarrow> starts p \<Longrightarrow> inv (s, ps[t := p])"
    and turn_inv: "inv (s, ps) \<Longrightarrow> t < length ps \<Longrightarrow> access s (ps ! t) = Some (s', p') \<Longrightarrow> inv (s', ps[t := p'])"
    and outside_inv: "inv (s, ps) \<Longrightarrow> inv (env e s, ps)"

sublocale thread_invariant \<subseteq> step_system init "interleave access idle starts env" inv
proof
  fix c c' assume inv: "inv c" and "interleave access idle starts env c c'"
  from this(2) inv show "inv c'"
    by cases (auto intro: start_inv turn_inv outside_inv)
qed (rule init_inv)

section \<open>Progress\<close>

text \<open>\<open>remaining s p\<close> bounds the accesses a thread at \<open>p\<close> still makes before its call returns.\<close>

locale thread_progress = thread_invariant +
  fixes remaining :: "'a \<Rightarrow> 'b \<Rightarrow> nat"
  assumes access_decreases: "inv (s, ps) \<Longrightarrow> t < length ps \<Longrightarrow> access s (ps ! t) = Some (s', p') \<Longrightarrow>
      remaining s' p' < remaining s (ps ! t)"
    and access_keeps: "inv (s, ps) \<Longrightarrow> t < length ps \<Longrightarrow> access s (ps ! t) = Some (s', p') \<Longrightarrow> remaining s' = remaining s"
    and waiting_not_stuck: "inv (s, ps) \<Longrightarrow> \<exists>p \<in> set ps. \<not> idle p \<Longrightarrow> \<exists>t < length ps. access s (ps ! t) \<noteq> None"
begin

definition all_remaining :: "'a \<times> 'b list \<Rightarrow> nat" where
  "all_remaining c = sum_list (map (remaining (fst c)) (snd c))"

lemma all_remaining_le:
  assumes "\<And>p. p \<in> set ps \<Longrightarrow> remaining s p \<le> b"
  shows "all_remaining (s, ps) \<le> b * length ps"
  using assms by (induction ps) (auto simp: all_remaining_def intro: add_mono)

lemma turn_step: "turn access c c' \<Longrightarrow> interleave access idle starts env c c'"
  by (induction rule: turn.induct) (rule interleave.turn)

lemma turns_inv: "(turn access)\<^sup>*\<^sup>* c c' \<Longrightarrow> inv c \<Longrightarrow> inv c'"
  using inv_steps by (metis mono_rtranclp turn_step)

lemma turn_decreases:
  assumes "turn access c c'" and "inv c"
  shows "all_remaining c' < all_remaining c"
  using assms(1)
proof cases
  case (turnI t ps s s' p')
  have inv: "inv (s, ps)" using assms(2) by (simp add: turnI)
  have "sum_list (map (remaining s) (ps[t := p'])) + remaining s (ps ! t) = sum_list (map (remaining s) ps) + remaining s p'"
    using turnI(3) by (rule sum_list_update_add)
  with access_decreases [OF inv turnI(3,4)] access_keeps [OF inv turnI(3,4)] show ?thesis
    by (simp add: turnI all_remaining_def)
qed

text \<open>Whatever the order of the turns, they end.\<close>

lemma turns_bounded: "(turn access ^^ n) c c' \<Longrightarrow> inv c \<Longrightarrow> n \<le> all_remaining c"
proof (induction n arbitrary: c)
  case (Suc n)
  then obtain c1 where c1: "turn access c c1" "(turn access ^^ n) c1 c'" by (meson relpowp_Suc_D2)
  then have "inv c1" using turns_inv Suc.prems(2) by blast
  with Suc.IH [OF c1(2)] turn_decreases [OF c1(1) Suc.prems(2)] show ?case by simp
qed simp

text \<open>When they have ended, every call has returned.\<close>

lemma no_turn_idle:
  assumes "inv c" and "\<nexists>c'. turn access c c'"
  shows "\<forall>p \<in> set (snd c). idle p"
proof (rule ccontr)
  assume "\<not> ?thesis"
  with waiting_not_stuck [of "fst c" "snd c"] assms(1) obtain t where
    "t < length (snd c)" "access (fst c) (snd c ! t) \<noteq> None" by auto
  then show False using assms(2) turn.turnI [of t "snd c" access "fst c"] by auto
qed

lemma all_return:
  assumes "inv c"
  shows "\<exists>c'. (turn access)\<^sup>*\<^sup>* c c' \<and> (\<forall>p \<in> set (snd c'). idle p)"
  using assms
proof (induction "all_remaining c" arbitrary: c rule: less_induct)
  case less
  show ?case
  proof (cases "\<exists>c1. turn access c c1")
    case True
    then obtain c1 where c1: "turn access c c1" by blast
    then have "inv c1" using turns_inv less.prems by blast
    from less.hyps [OF turn_decreases [OF c1 less.prems] this] c1 show ?thesis
      by (meson converse_rtranclp_into_rtranclp)
  next
    case False
    with no_turn_idle [OF less.prems] show ?thesis by blast
  qed
qed

end

end
