(* ===== verification/Pepita_Concurrent_Zram.thy ===== *)
theory Pepita_Concurrent_Zram
  imports Pepita_Zram_Store Pepita_Threads
begin

text \<open>
  The zram device of \<^verbatim>\<open>src/src/zram.rs\<close> under concurrent calls.  Its methods take \<^verbatim>\<open>&self\<close>: a call takes the lock on
  the page table for one access, takes the lock on the compression stream around compression or
  decompression (a write keeps it until it returns), and then updates the statistics, one atomic counter at a time.

  The model makes each of these an access.  The lock on the page table is taken and released within one access, so
  only the lock on the stream is a flag.  A history of calls, each with the answer of the method as one
  step, grows at the access that reads or writes the page table.  The concurrent device is linearizable: whatever a
  call answers is what the history says, and the table is what the calls of the history, one after the other, leave
  behind.  Only \<^verbatim>\<open>reset\<close> is not one call: it is a discard of every page.
\<close>

section \<open>Statistics, one counter at a time\<close>

datatype stat =
    Orig_data | Compr_data | Mem_used | Pages_stored | Zero_pages | Same_pages | Huge_pages
  | Num_reads | Num_writes | Failed_reads | Failed_writes

fun stat_of :: "stat \<Rightarrow> ZramStats \<Rightarrow> u64" where
  "stat_of Orig_data s = orig_data_size s"
| "stat_of Compr_data s = compr_data_size s"
| "stat_of Mem_used s = mem_used_total s"
| "stat_of Pages_stored s = pages_stored s"
| "stat_of Zero_pages s = zero_pages s"
| "stat_of Same_pages s = same_pages s"
| "stat_of Huge_pages s = huge_pages s"
| "stat_of Num_reads s = num_reads s"
| "stat_of Num_writes s = num_writes s"
| "stat_of Failed_reads s = failed_reads s"
| "stat_of Failed_writes s = failed_writes s"

text \<open>\<^verbatim>\<open>fetch_add\<close> on one counter.\<close>

fun fetch_add :: "stat \<times> u64 \<Rightarrow> ZramStats \<Rightarrow> ZramStats" where
  "fetch_add (Orig_data, n) s = s\<lparr>orig_data_size := orig_data_size s + n\<rparr>"
| "fetch_add (Compr_data, n) s = s\<lparr>compr_data_size := compr_data_size s + n\<rparr>"
| "fetch_add (Mem_used, n) s = s\<lparr>mem_used_total := mem_used_total s + n\<rparr>"
| "fetch_add (Pages_stored, n) s = s\<lparr>pages_stored := pages_stored s + n\<rparr>"
| "fetch_add (Zero_pages, n) s = s\<lparr>zero_pages := zero_pages s + n\<rparr>"
| "fetch_add (Same_pages, n) s = s\<lparr>same_pages := same_pages s + n\<rparr>"
| "fetch_add (Huge_pages, n) s = s\<lparr>huge_pages := huge_pages s + n\<rparr>"
| "fetch_add (Num_reads, n) s = s\<lparr>num_reads := num_reads s + n\<rparr>"
| "fetch_add (Num_writes, n) s = s\<lparr>num_writes := num_writes s + n\<rparr>"
| "fetch_add (Failed_reads, n) s = s\<lparr>failed_reads := failed_reads s + n\<rparr>"
| "fetch_add (Failed_writes, n) s = s\<lparr>failed_writes := failed_writes s + n\<rparr>"

text \<open>The bodies of the \<^verbatim>\<open>record\<close> methods.\<close>

definition write_adds :: "nat \<Rightarrow> nat \<Rightarrow> (stat \<times> u64) list" where
  "write_adds orig_size compr_size =
     [(Orig_data, word_of_nat orig_size), (Compr_data, word_of_nat compr_size), (Mem_used, word_of_nat compr_size),
      (Pages_stored, 1), (Num_writes, 1)]"

definition zero_page_adds :: "(stat \<times> u64) list" where
  "zero_page_adds = [(Zero_pages, 1), (Pages_stored, 1), (Num_writes, 1)]"

definition same_page_adds :: "(stat \<times> u64) list" where
  "same_page_adds = [(Same_pages, 1), (Pages_stored, 1), (Num_writes, 1)]"

definition huge_page_adds :: "(stat \<times> u64) list" where
  "huge_page_adds =
     [(Huge_pages, 1), (Orig_data, word_of_nat PAGE_SIZE), (Compr_data, word_of_nat PAGE_SIZE),
      (Mem_used, word_of_nat PAGE_SIZE), (Pages_stored, 1), (Num_writes, 1)]"

definition read_adds :: "(stat \<times> u64) list" where
  "read_adds = [(Num_reads, 1)]"

lemma length_adds [simp]:
  "length (write_adds m n) = 5" "length zero_page_adds = 3" "length same_page_adds = 3" "length huge_page_adds = 6"
  "length read_adds = 1"
  by (simp_all add: write_adds_def zero_page_adds_def same_page_adds_def huge_page_adds_def read_adds_def)

lemma fold_adds:
  "fold fetch_add (write_adds m n) = (\<lambda>s. AtomicStats_record_write s m n)"
  "fold fetch_add zero_page_adds = AtomicStats_record_zero_page"
  "fold fetch_add same_page_adds = AtomicStats_record_same_page"
  "fold fetch_add huge_page_adds = AtomicStats_record_huge_page"
  "fold fetch_add read_adds = AtomicStats_record_read"
  by (rule ext, simp add: write_adds_def zero_page_adds_def same_page_adds_def huge_page_adds_def read_adds_def
      AtomicStats_record_write_def AtomicStats_record_zero_page_def AtomicStats_record_same_page_def
      AtomicStats_record_huge_page_def AtomicStats_record_read_def)+

text \<open>What a list of additions amounts to on one counter.\<close>

fun amount :: "stat \<Rightarrow> (stat \<times> u64) list \<Rightarrow> u64" where
  "amount c [] = 0"
| "amount c ((c', n) # adds) = (if c' = c then n else 0) + amount c adds"

lemma stat_of_fetch_add: "stat_of c (fetch_add (c', n) s) = stat_of c s + (if c' = c then n else 0)"
  by (cases c; cases c') simp_all

lemma stat_of_fold: "stat_of c (fold fetch_add adds s) = stat_of c s + amount c adds"
  by (induction adds arbitrary: s) (auto simp: stat_of_fetch_add add.assoc)

lemma stats_eqI:
  assumes "\<And>c. stat_of c s = stat_of c s'"
  shows "s = (s' :: ZramStats)"
proof (cases s; cases s')
  fix a b c d e f g h i j k a' b' c' d' e' f' g' h' i' j' k'
  assume "s = \<lparr>orig_data_size = a, compr_data_size = b, mem_used_total = c, pages_stored = d, zero_pages = e,
      same_pages = f, huge_pages = g, num_reads = h, num_writes = i, failed_reads = j, failed_writes = k\<rparr>"
    "s' = \<lparr>orig_data_size = a', compr_data_size = b', mem_used_total = c', pages_stored = d', zero_pages = e',
      same_pages = f', huge_pages = g', num_reads = h', num_writes = i', failed_reads = j', failed_writes = k'\<rparr>"
  then show ?thesis
    using assms [of Orig_data] assms [of Compr_data] assms [of Mem_used] assms [of Pages_stored] assms [of Zero_pages]
      assms [of Same_pages] assms [of Huge_pages] assms [of Num_reads] assms [of Num_writes] assms [of Failed_reads]
      assms [of Failed_writes] by simp
qed

section \<open>Program points and accesses\<close>

type_synonym reply = "unit result \<times> bytes"

text \<open>The answer of a method as one step; the bytes are the buffer of a read.\<close>

fun zram_reply :: "zram_op \<Rightarrow> ZramDevice \<Rightarrow> reply" where
  "zram_reply (WritePage i data) d = (fst (ZramDevice_write_page d i data), [])"
| "zram_reply (ReadPage i buf) d =
     (case ZramDevice_read_page d i buf of (r, buf', _) \<Rightarrow> (r, buf'))"
| "zram_reply (DiscardPage i) d = (fst (ZramDevice_discard_page d i), [])"
| "zram_reply ResetDevice d = (fst (ZramDevice_reset d), [])"

record zram_shared =
  zs_device :: ZramDevice
  zs_held :: bool
  zs_first :: ZramDevice
  zs_history :: "(zram_op \<times> reply) list"

text \<open>
  The numbers in a program point are positions in the history: how long it was when the call began, and the
  place of the call in it.
\<close>

datatype zram_pc =
    Ready
  | Answered zram_op nat nat reply
  | Reset_done nat
  | Calling zram_op
  | Read_table u64 bytes nat
  | Read_stream u64 bytes bytes nat nat
  | Read_decode u64 bytes bytes nat nat
  | Write_stream u64 bytes nat
  | Write_compress u64 bytes nat
  | Write_table u64 bytes PageEntry "(stat \<times> u64) list" bool nat
  | Discard_table u64 nat
  | Reset_loop nat nat
  | Leave zram_op nat nat reply "(stat \<times> u64) list" bool

definition linearize :: "zram_op \<Rightarrow> zram_shared \<Rightarrow> zram_shared" where
  "linearize c s = s\<lparr>zs_history := zs_history s @ [(c, zram_reply c (zs_device s))]\<rparr>"

definition moment :: "zram_shared \<Rightarrow> nat" where
  "moment s = length (zs_history s)"

text \<open>The guards, and for a write the look for zero and same-filled pages.\<close>

definition max_pages_of :: "zram_shared \<Rightarrow> u64" where
  "max_pages_of s = ZramConfig_max_pages (zd_config (zs_device s))"

fun begin_call :: "zram_shared \<Rightarrow> zram_op \<Rightarrow> zram_shared \<times> zram_pc" where
  "begin_call s (ReadPage i buf) =
     (if length buf < PAGE_SIZE \<or> max_pages_of s \<le> i
      then (linearize (ReadPage i buf) s, Answered (ReadPage i buf) (moment s) (moment s) (Inl InvalidArgument, buf))
      else (s, Read_table i buf (moment s)))"
| "begin_call s (WritePage i data) =
     (if length data < PAGE_SIZE \<or> max_pages_of s \<le> i
      then (linearize (WritePage i data) s, Answered (WritePage i data) (moment s) (moment s) (Inl InvalidArgument, []))
      else (s, let page_data = take PAGE_SIZE data
               in if list_all (\<lambda>b. b = 0) page_data
                  then Write_table i data ZeroPage zero_page_adds False (moment s)
                  else case check_same_filled page_data of
                         Some v \<Rightarrow> Write_table i data (SamePage v) same_page_adds False (moment s)
                       | None \<Rightarrow> Write_stream i data (moment s)))"
| "begin_call s (DiscardPage i) =
     (if max_pages_of s \<le> i
      then (linearize (DiscardPage i) s, Answered (DiscardPage i) (moment s) (moment s) (Inl InvalidArgument, []))
      else (s, Discard_table i (moment s)))"
| "begin_call s ResetDevice = (s, Reset_loop 0 (moment s))"

text \<open>The \<^verbatim>\<open>match entry\<close> of \<^verbatim>\<open>read_page\<close>, up to the counter.\<close>

definition read_outcome :: "CompressionStream lock \<Rightarrow> PageEntry \<Rightarrow> bytes \<Rightarrow> reply \<times> (stat \<times> u64) list" where
  "read_outcome stream entry buf =
     (if (case entry of CompressedPage _ \<Rightarrow> poisoned stream | _ \<Rightarrow> False) then ((Inl ResourceBusy, buf), [])
      else case read_entry (CompressionStream_decompress (contents stream)) entry (take PAGE_SIZE buf) of
             (Inl e, page) \<Rightarrow> ((Inl e, page @ drop PAGE_SIZE buf), [])
           | (Inr _, page) \<Rightarrow> ((Inr (), page @ drop PAGE_SIZE buf), read_adds))"

definition leave_read :: "zram_shared \<Rightarrow> u64 \<Rightarrow> bytes \<Rightarrow> PageEntry \<Rightarrow> nat \<Rightarrow> nat \<Rightarrow> zram_pc" where
  "leave_read s i buf entry since k =
     (case read_outcome (zd_stream (zs_device s)) entry buf of
        (r, adds) \<Rightarrow> Leave (ReadPage i buf) since k r adds False)"

definition set_table :: "PageTable \<Rightarrow> zram_shared \<Rightarrow> zram_shared" where
  "set_table t s = s\<lparr>zs_device := (zs_device s)\<lparr>zd_page_table := t\<rparr>\<rparr>"

fun zram_access :: "zram_shared \<Rightarrow> zram_pc \<Rightarrow> (zram_shared \<times> zram_pc) option" where
  "zram_access s Ready = None"
| "zram_access s (Answered c since k r) = None"
| "zram_access s (Reset_done since) = None"
| "zram_access s (Calling c) = Some (begin_call s c)"
| "zram_access s (Read_table i buf since) =
     Some (linearize (ReadPage i buf) s,
       case PageTable_get (zd_page_table (zs_device s)) i of
         Inl e \<Rightarrow> Leave (ReadPage i buf) since (moment s) (Inl e, buf) [] False
       | Inr entry \<Rightarrow>
           (case entry of
              CompressedPage data \<Rightarrow> Read_stream i buf data since (moment s)
            | _ \<Rightarrow> leave_read s i buf entry since (moment s)))"
| "zram_access s (Read_stream i buf data since k) =
     (if zs_held s then None
      else if poisoned (zd_stream (zs_device s))
      then Some (s, Leave (ReadPage i buf) since k (Inl ResourceBusy, buf) [] False)
      else Some (s\<lparr>zs_held := True\<rparr>, Read_decode i buf data since k))"
| "zram_access s (Read_decode i buf data since k) =
     Some (s\<lparr>zs_held := False\<rparr>, leave_read s i buf (CompressedPage data) since k)"
| "zram_access s (Write_stream i data since) =
     (if zs_held s then None
      else if poisoned (zd_stream (zs_device s))
      then Some (linearize (WritePage i data) s, Leave (WritePage i data) since (moment s) (Inl ResourceBusy, []) [] False)
      else Some (s\<lparr>zs_held := True\<rparr>, Write_compress i data since))"
| "zram_access s (Write_compress i data since) =
     (case CompressionStream_compress (contents (zd_stream (zs_device s))) (take PAGE_SIZE data) of
        Inl e \<Rightarrow> Some (linearize (WritePage i data) s, Leave (WritePage i data) since (moment s) (Inl e, []) [] True)
      | Inr compressed \<Rightarrow>
          Some (s, if PAGE_SIZE - PAGE_SIZE div 8 \<le> length compressed
                   then Write_table i data (UncompressedPage (take PAGE_SIZE data)) huge_page_adds True since
                   else Write_table i data (CompressedPage compressed)
                          (write_adds PAGE_SIZE (length compressed)) True since))"
| "zram_access s (Write_table i data entry adds held since) =
     (case PageTable_set (zd_page_table (zs_device s)) i entry of
        (Inl e, t) \<Rightarrow>
          Some (set_table t (linearize (WritePage i data) s), Leave (WritePage i data) since (moment s) (Inl e, []) [] held)
      | (Inr _, t) \<Rightarrow>
          Some (set_table t (linearize (WritePage i data) s), Leave (WritePage i data) since (moment s) (Inr (), []) adds held))"
| "zram_access s (Discard_table i since) =
     (case PageTable_remove (zd_page_table (zs_device s)) i of
        (r, t) \<Rightarrow>
          Some (set_table t (linearize (DiscardPage i) s),
                Answered (DiscardPage i) since (moment s) (case r of Inl e \<Rightarrow> Inl e | Inr _ \<Rightarrow> Inr (), [])))"
| "zram_access s (Reset_loop i since) =
     (if i < unat (max_pages_of s)
      then Some (set_table (snd (PageTable_remove (zd_page_table (zs_device s)) (word_of_nat i)))
                   (linearize (DiscardPage (word_of_nat i)) s), Reset_loop (Suc i) since)
      else Some (s, Reset_done since))"
| "zram_access s (Leave c since k r adds held) =
     (case adds of
        [] \<Rightarrow> Some (if held then s\<lparr>zs_held := False\<rparr> else s, Answered c since k r)
      | a # adds' \<Rightarrow>
          Some (s\<lparr>zs_device := (zs_device s)\<lparr>zd_stats := fetch_add a (zd_stats (zs_device s))\<rparr>\<rparr>,
                Leave c since k r adds' held))"

fun zram_idle :: "zram_pc \<Rightarrow> bool" where
  "zram_idle Ready = True"
| "zram_idle (Answered _ _ _ _) = True"
| "zram_idle (Reset_done _) = True"
| "zram_idle _ = False"

fun zram_starts :: "zram_pc \<Rightarrow> bool" where
  "zram_starts (Calling _) = True"
| "zram_starts _ = False"

text \<open>Nothing outside the device touches it.\<close>

definition zram_outside :: "unit \<Rightarrow> zram_shared \<Rightarrow> zram_shared" where
  "zram_outside e s = s"

abbreviation "zram_step \<equiv> interleave zram_access zram_idle zram_starts zram_outside"
abbreviation "zram_play \<equiv> play zram_access zram_idle zram_starts zram_outside"

definition zram_start :: "ZramDevice \<Rightarrow> nat \<Rightarrow> zram_shared \<times> zram_pc list" where
  "zram_start d k = (\<lparr>zs_device = d, zs_held = False, zs_first = d, zs_history = []\<rparr>, replicate k Ready)"

section \<open>The sequential device\<close>

text \<open>The device after the calls of a history, one after the other, and the answers they give then.\<close>

definition replay :: "(zram_op \<times> reply) list \<Rightarrow> ZramDevice \<Rightarrow> ZramDevice" where
  "replay h d = fold zram_call (map fst h) d"

fun replies :: "zram_op list \<Rightarrow> ZramDevice \<Rightarrow> reply list" where
  "replies [] d = []"
| "replies (c # cs) d = zram_reply c d # replies cs (zram_call c d)"

lemma replay_append: "replay (h @ [(c, r)]) d = zram_call c (replay h d)"
  by (simp add: replay_def)

lemma replies_append: "replies (cs @ [c]) d = replies cs d @ [zram_reply c (fold zram_call cs d)]"
  by (induction cs arbitrary: d) simp_all

text \<open>The answers do not depend on the statistics, and each call changes table and statistics in a fixed way.\<close>

lemma reply_stats: "zram_reply c (d\<lparr>zd_stats := st\<rparr>) = zram_reply c d"
proof (cases c)
  case (WritePage i data)
  then show ?thesis
    by (auto simp: ZramDevice_write_page_def ZramDevice_store_def Let_def split: option.split sum.split prod.split)
next
  case (ReadPage i buf)
  then show ?thesis
    by (auto simp: ZramDevice_read_page_def split: sum.split prod.split PageEntry.split)
next
  case (DiscardPage i)
  then show ?thesis by (auto simp: ZramDevice_discard_page_def split: sum.split prod.split)
qed (simp add: ZramDevice_reset_def)

lemma read_call:
  assumes "PAGE_SIZE \<le> length buf" and "i < ZramConfig_max_pages (zd_config d)"
    and "PageTable_get (zd_page_table d) i = Inr entry" and "read_outcome (zd_stream d) entry buf = (r, adds)"
  shows "zram_reply (ReadPage i buf) d = r"
    and "zram_call (ReadPage i buf) d = d\<lparr>zd_stats := fold fetch_add adds (zd_stats d)\<rparr>"
  using assms
  by (auto simp: ZramDevice_read_page_def read_outcome_def fold_adds not_le not_less split: sum.splits prod.splits if_splits)

text \<open>An entry and the additions that a write stores.\<close>

definition write_plan :: "ZramDevice \<Rightarrow> u64 \<Rightarrow> bytes \<Rightarrow> PageEntry \<Rightarrow> (stat \<times> u64) list \<Rightarrow> bool" where
  "write_plan d i data entry adds \<longleftrightarrow>
     (\<forall>t st. ZramDevice_write_page (d\<lparr>zd_page_table := t, zd_stats := st\<rparr>) i data =
        ZramDevice_store (d\<lparr>zd_page_table := t, zd_stats := st\<rparr>) i entry (fold fetch_add adds))"

lemma write_plan_same:
  "zd_config d' = zd_config d \<Longrightarrow> zd_stream d' = zd_stream d \<Longrightarrow> write_plan d' i data = write_plan d i data"
proof -
  assume "zd_config d' = zd_config d" "zd_stream d' = zd_stream d"
  then have "d'\<lparr>zd_page_table := t, zd_stats := st\<rparr> = d\<lparr>zd_page_table := t, zd_stats := st\<rparr>" for t st
    by (cases d; cases d') simp
  then show ?thesis by (intro ext) (simp add: write_plan_def)
qed

lemma write_call:
  assumes "write_plan d i data entry adds" and "PageTable_set (zd_page_table d) i entry = (r, t)"
  shows "zram_reply (WritePage i data) d = (r, [])"
    and "zram_call (WritePage i data) (d\<lparr>zd_stats := st\<rparr>) =
      d\<lparr>zd_page_table := t, zd_stats := (case r of Inl e \<Rightarrow> st | Inr _ \<Rightarrow> fold fetch_add adds st)\<rparr>"
proof -
  have w: "ZramDevice_write_page (d\<lparr>zd_stats := st\<rparr>) i data = ZramDevice_store (d\<lparr>zd_stats := st\<rparr>) i entry (fold fetch_add adds)" for st
  proof -
    have "d\<lparr>zd_stats := st\<rparr> = d\<lparr>zd_page_table := zd_page_table d, zd_stats := st\<rparr>" by simp
    with assms(1) show ?thesis unfolding write_plan_def by metis
  qed
  show "zram_reply (WritePage i data) d = (r, [])"
    using w [of "zd_stats d"] assms(2) by (auto simp: ZramDevice_store_def split: sum.splits)
  show "zram_call (WritePage i data) (d\<lparr>zd_stats := st\<rparr>) =
      d\<lparr>zd_page_table := t, zd_stats := (case r of Inl e \<Rightarrow> st | Inr _ \<Rightarrow> fold fetch_add adds st)\<rparr>"
    using w [of st] assms(2) by (auto simp: ZramDevice_store_def split: sum.splits)
qed

lemma discard_call:
  assumes "i < ZramConfig_max_pages (zd_config d)" and "PageTable_remove (zd_page_table d) i = (r, t)"
  shows "zram_reply (DiscardPage i) d = (case r of Inl e \<Rightarrow> Inl e | Inr _ \<Rightarrow> Inr (), [])"
    and "zram_call (DiscardPage i) (d\<lparr>zd_stats := st\<rparr>) = d\<lparr>zd_page_table := t, zd_stats := st\<rparr>"
  using assms by (auto simp: ZramDevice_discard_page_def not_le split: sum.splits)

section \<open>The invariant\<close>

fun holds_stream :: "zram_pc \<Rightarrow> bool" where
  "holds_stream (Read_decode _ _ _ _ _) = True"
| "holds_stream (Write_compress _ _ _) = True"
| "holds_stream (Write_table _ _ _ _ held _) = held"
| "holds_stream (Leave _ _ _ _ _ held) = held"
| "holds_stream _ = False"

text \<open>What a thread still has to add to the counters for a call that is already in the history.\<close>

fun owed :: "CompressionStream lock \<Rightarrow> zram_pc \<Rightarrow> (stat \<times> u64) list" where
  "owed stream (Leave _ _ _ _ adds _) = adds"
| "owed stream (Read_stream _ buf data _ _) = snd (read_outcome stream (CompressedPage data) buf)"
| "owed stream (Read_decode _ buf data _ _) = snd (read_outcome stream (CompressedPage data) buf)"
| "owed stream _ = []"

text \<open>A call with its place in the history.\<close>

definition placed :: "(zram_op \<times> reply) list \<Rightarrow> zram_op \<Rightarrow> nat \<Rightarrow> nat \<Rightarrow> reply \<Rightarrow> bool" where
  "placed h c since k r \<longleftrightarrow> since \<le> k \<and> k < length h \<and> h ! k = (c, r)"

text \<open>The pages below \<open>n\<close> have been discarded since a given time.\<close>

definition discarded_since :: "(zram_op \<times> reply) list \<Rightarrow> nat \<Rightarrow> nat \<Rightarrow> bool" where
  "discarded_since h since n \<longleftrightarrow> since \<le> length h
     \<and> (\<forall>i < n. \<exists>k r. placed h (DiscardPage (word_of_nat i)) since k r)"

fun zram_point :: "ZramDevice \<Rightarrow> (zram_op \<times> reply) list \<Rightarrow> zram_pc \<Rightarrow> bool" where
  "zram_point d h (Answered c since k r) \<longleftrightarrow> placed h c since k r"
| "zram_point d h (Leave c since k r adds held) \<longleftrightarrow> placed h c since k r \<and> length adds \<le> 6"
| "zram_point d h (Reset_done since) \<longleftrightarrow> discarded_since h since (unat (ZramConfig_max_pages (zd_config d)))"
| "zram_point d h (Reset_loop i since) \<longleftrightarrow>
     discarded_since h since i \<and> i \<le> unat (ZramConfig_max_pages (zd_config d))"
| "zram_point d h (Read_table i buf since) \<longleftrightarrow>
     since \<le> length h \<and> PAGE_SIZE \<le> length buf \<and> i < ZramConfig_max_pages (zd_config d)"
| "zram_point d h (Read_stream i buf data since k) \<longleftrightarrow>
     placed h (ReadPage i buf) since k (fst (read_outcome (zd_stream d) (CompressedPage data) buf))"
| "zram_point d h (Read_decode i buf data since k) \<longleftrightarrow>
     placed h (ReadPage i buf) since k (fst (read_outcome (zd_stream d) (CompressedPage data) buf))"
| "zram_point d h (Write_stream i data since) \<longleftrightarrow>
     since \<le> length h \<and> PAGE_SIZE \<le> length data \<and> i < ZramConfig_max_pages (zd_config d)
     \<and> \<not> list_all (\<lambda>b. b = 0) (take PAGE_SIZE data) \<and> check_same_filled (take PAGE_SIZE data) = None"
| "zram_point d h (Write_compress i data since) \<longleftrightarrow>
     since \<le> length h \<and> PAGE_SIZE \<le> length data \<and> i < ZramConfig_max_pages (zd_config d)
     \<and> \<not> list_all (\<lambda>b. b = 0) (take PAGE_SIZE data) \<and> check_same_filled (take PAGE_SIZE data) = None
     \<and> \<not> poisoned (zd_stream d)"
| "zram_point d h (Write_table i data entry adds held since) \<longleftrightarrow> 
     since \<le> length h \<and> write_plan d i data entry adds \<and> length adds \<le> 6"
| "zram_point d h (Discard_table i since) \<longleftrightarrow> since \<le> length h \<and> i < ZramConfig_max_pages (zd_config d)"
| "zram_point d h _ \<longleftrightarrow> True"

lemma read_outcome_adds: "read_outcome stream entry buf = (r, adds) \<Longrightarrow> length adds \<le> 1"
  by (auto simp: read_outcome_def split: sum.splits prod.splits if_splits)

lemma placed_append: "placed h c since k r \<Longrightarrow> placed (h @ h') c since k r"
  by (simp add: placed_def nth_append)

lemma placed_last: "since \<le> length h \<Longrightarrow> placed (h @ [(c, r)]) c since (length h) r"
  by (simp add: placed_def)

lemma discarded_append: "discarded_since h since n \<Longrightarrow> discarded_since (h @ h') since n"
  unfolding discarded_since_def using placed_append by fastforce

lemma zram_point_append:
  assumes "zram_point d h p" and "zd_config d' = zd_config d" and "zd_stream d' = zd_stream d"
  shows "zram_point d' (h @ h') p"
  using assms(1) by (cases p) (auto simp: assms(2,3) write_plan_same [OF assms(2,3)] placed_append discarded_append)

text \<open>Device and history agree: the table is that of the sequential device, and the answers are its answers.\<close>

definition in_step :: "zram_shared \<Rightarrow> bool" where
  "in_step s \<longleftrightarrow>
     (zs_device s)\<lparr>zd_stats := zd_stats (replay (zs_history s) (zs_first s))\<rparr> = replay (zs_history s) (zs_first s)
     \<and> map snd (zs_history s) = replies (map fst (zs_history s)) (zs_first s)"

definition owed_by :: "zram_shared \<Rightarrow> stat \<Rightarrow> zram_pc \<Rightarrow> u64" where
  "owed_by s c p = amount c (owed (zd_stream (zs_device s)) p)"

definition sequential_stat :: "zram_shared \<Rightarrow> stat \<Rightarrow> u64" where
  "sequential_stat s c = stat_of c (zd_stats (replay (zs_history s) (zs_first s)))"

fun zram_inv :: "ZramDevice \<Rightarrow> zram_shared \<times> zram_pc list \<Rightarrow> bool" where
  "zram_inv d0 (s, ps) \<longleftrightarrow> zs_first s = d0 \<and> in_step s
     \<and> at holds_stream ps = of_bool (zs_held s)
     \<and> (\<forall>p \<in> set ps. zram_point (zs_device s) (zs_history s) p)
     \<and> (\<forall>c. stat_of c (zd_stats (zs_device s)) + sum_list (map (owed_by s c) ps) = sequential_stat s c)"

section \<open>Every access keeps the invariant\<close>

text \<open>An access that touches neither the table nor the history.\<close>

definition quiet :: "zram_shared \<Rightarrow> zram_shared \<Rightarrow> bool" where
  "quiet s s' \<longleftrightarrow> (\<exists>st. zs_device s' = (zs_device s)\<lparr>zd_stats := st\<rparr>)
     \<and> zs_history s' = zs_history s \<and> zs_first s' = zs_first s"

lemma quiet_in_step: "quiet s s' \<Longrightarrow> in_step s \<Longrightarrow> in_step s'"
  by (auto simp: quiet_def in_step_def)

text \<open>An access that is one call of the sequential device.\<close>

definition one_call :: "zram_op \<Rightarrow> zram_shared \<Rightarrow> zram_shared \<Rightarrow> (stat \<times> u64) list \<Rightarrow> bool" where
  "one_call c s s' adds \<longleftrightarrow>
     (\<forall>st. zram_call c ((zs_device s)\<lparr>zd_stats := st\<rparr>) = (zs_device s')\<lparr>zd_stats := fold fetch_add adds st\<rparr>)
     \<and> zs_history s' = zs_history s @ [(c, zram_reply c (zs_device s))] \<and> zs_first s' = zs_first s
     \<and> zd_config (zs_device s') = zd_config (zs_device s) \<and> zd_stream (zs_device s') = zd_stream (zs_device s)
     \<and> zd_stats (zs_device s') = zd_stats (zs_device s)"

lemma one_call_in_step:
  assumes "one_call c s s' adds" and "in_step s"
  shows "in_step s'" and "sequential_stat s' x = sequential_stat s x + amount x adds"
proof -
  let ?R = "replay (zs_history s) (zs_first s)"
  from assms(2) have R: "(zs_device s)\<lparr>zd_stats := zd_stats ?R\<rparr> = ?R" by (simp add: in_step_def)
  have "replay (zs_history s') (zs_first s') = zram_call c ((zs_device s)\<lparr>zd_stats := zd_stats ?R\<rparr>)"
    using assms(1) by (simp add: one_call_def replay_append R)
  then have R': "replay (zs_history s') (zs_first s') = (zs_device s')\<lparr>zd_stats := fold fetch_add adds (zd_stats ?R)\<rparr>"
    using assms(1) by (simp add: one_call_def)
  have "zram_reply c (zs_device s) = zram_reply c ?R"
    using reply_stats [of c "zd_stats ?R" "zs_device s"] by (simp add: R)
  then show "in_step s'"
    using assms R' by (auto simp: in_step_def one_call_def replies_append replay_def)
  show "sequential_stat s' x = sequential_stat s x + amount x adds"
    by (simp add: sequential_stat_def R' stat_of_fold)
qed

text \<open>What an access at a point that fits the shared state does.\<close>

definition good_access :: "zram_shared \<Rightarrow> zram_pc \<Rightarrow> zram_shared \<Rightarrow> zram_pc \<Rightarrow> bool" where
  "good_access s p s' p' \<longleftrightarrow>
     zram_point (zs_device s') (zs_history s') p'
     \<and> (\<exists>h. zs_history s' = zs_history s @ h) \<and> zd_config (zs_device s') = zd_config (zs_device s)
     \<and> zd_stream (zs_device s') = zd_stream (zs_device s)
     \<and> zs_first s' = zs_first s \<and> in_step s'
     \<and> (\<forall>c. stat_of c (zd_stats (zs_device s')) + owed_by s' c p' + sequential_stat s c
            = stat_of c (zd_stats (zs_device s)) + owed_by s c p + sequential_stat s' c)"

lemma quiet_good:
  assumes "in_step s" and "quiet s s'" and "zram_point (zs_device s') (zs_history s') p'"
    and "\<And>c. stat_of c (zd_stats (zs_device s')) + owed_by s' c p' = stat_of c (zd_stats (zs_device s)) + owed_by s c p"
  shows "good_access s p s' p'"
  using assms quiet_in_step [OF assms(2,1)] by (auto simp: good_access_def quiet_def sequential_stat_def)

lemma one_call_good:
  assumes "in_step s" and "one_call c s s' adds" and "zram_point (zs_device s') (zs_history s') p'"
    and "owed (zd_stream (zs_device s)) p = []" and "owed (zd_stream (zs_device s)) p' = adds"
  shows "good_access s p s' p'"
  using assms one_call_in_step [OF assms(2,1)]
  by (auto simp: good_access_def one_call_def owed_by_def)

lemma linearize_device [simp]: "zs_device (linearize c s) = zs_device s"
  by (simp add: linearize_def)

lemma rejected_good:
  assumes "in_step s" and "zram_reply c (zs_device s) = r"
    and "\<And>st. zram_call c ((zs_device s)\<lparr>zd_stats := st\<rparr>) = (zs_device s)\<lparr>zd_stats := st\<rparr>"
    and "owed (zd_stream (zs_device s)) p = []" and "since \<le> moment s"
    and "p' = Answered c since (moment s) r \<or> p' = Leave c since (moment s) r [] held"
  shows "good_access s p (linearize c s) p'"
proof -
  have "one_call c s (linearize c s) []" using assms(3) by (simp add: one_call_def linearize_def)
  then show ?thesis
    using assms by (elim one_call_good [OF assms(1)]) (auto simp: linearize_def moment_def placed_last)
qed

lemma plan_zero:
  assumes "PAGE_SIZE \<le> length data" and "i < ZramConfig_max_pages (zd_config d)"
    and "list_all (\<lambda>b. b = 0) (take PAGE_SIZE data)"
  shows "write_plan d i data ZeroPage zero_page_adds"
  using assms by (auto simp: write_plan_def ZramDevice_write_page_def Let_def fold_adds dest: leD)

lemma plan_same:
  assumes "PAGE_SIZE \<le> length data" and "i < ZramConfig_max_pages (zd_config d)"
    and "\<not> list_all (\<lambda>b. b = 0) (take PAGE_SIZE data)" and "check_same_filled (take PAGE_SIZE data) = Some v"
  shows "write_plan d i data (SamePage v) same_page_adds"
  using assms by (auto simp: write_plan_def ZramDevice_write_page_def Let_def fold_adds dest: leD)

lemma plan_compressed:
  assumes "PAGE_SIZE \<le> length data" and "i < ZramConfig_max_pages (zd_config d)"
    and "\<not> list_all (\<lambda>b. b = 0) (take PAGE_SIZE data)" and "check_same_filled (take PAGE_SIZE data) = None"
    and "\<not> poisoned (zd_stream d)"
    and "CompressionStream_compress (contents (zd_stream d)) (take PAGE_SIZE data) = Inr c"
  shows "PAGE_SIZE - PAGE_SIZE div 8 \<le> length c \<Longrightarrow> write_plan d i data (UncompressedPage (take PAGE_SIZE data)) huge_page_adds"
    and "\<not> PAGE_SIZE - PAGE_SIZE div 8 \<le> length c \<Longrightarrow>
      write_plan d i data (CompressedPage c) (write_adds PAGE_SIZE (length c))"
  using assms by (auto simp: write_plan_def ZramDevice_write_page_def Let_def fold_adds dest: leD)

lemma quiet_same [simp]: "quiet s s"
  by (auto simp: quiet_def intro: exI [of _ "zd_stats (zs_device s)"])

lemma quiet_held [simp]: "quiet s (s\<lparr>zs_held := b\<rparr>)"
  by (auto simp: quiet_def intro: exI [of _ "zd_stats (zs_device s)"])

lemma begin_good:
  assumes "in_step s" and "begin_call s c = (s', p')"
  shows "good_access s (Calling c) s' p'"
proof (cases "s' = s")
  case True
  have "zram_point (zs_device s) (zs_history s) p'"
    using assms(2) True
    by (cases c) (auto simp: Let_def moment_def max_pages_of_def not_le not_less discarded_since_def linearize_def
        intro: plan_zero plan_same split: if_splits option.splits dest: arg_cong [of _ _ zs_history])
  moreover have "owed stream p' = []" for stream
    using assms(2) True
    by (cases c) (auto simp: Let_def split: if_splits option.splits)
  ultimately show ?thesis
    using True by (intro quiet_good [OF assms(1)]) (simp_all add: owed_by_def)
next
  case False
  then have "s' = linearize c s \<and> p' = Answered c (moment s) (moment s) (zram_reply c (zs_device s))
      \<and> (\<forall>st. zram_call c ((zs_device s)\<lparr>zd_stats := st\<rparr>) = (zs_device s)\<lparr>zd_stats := st\<rparr>)"
    using assms(2) by (cases c) (auto simp: max_pages_of_def bad_calls split: if_splits)
  then show ?thesis
    by (auto intro: rejected_good [OF assms(1) refl])
qed

lemma leave_read_good:
  assumes "in_step s" and "placed (zs_history s) (ReadPage i buf) since k
      (fst (read_outcome (zd_stream (zs_device s)) (CompressedPage data) buf))"
    and "p = Read_stream i buf data since k \<or> p = Read_decode i buf data since k"
  shows "good_access s p (s\<lparr>zs_held := b\<rparr>) (leave_read s i buf (CompressedPage data) since k)"
proof -
  obtain r adds where out: "read_outcome (zd_stream (zs_device s)) (CompressedPage data) buf = (r, adds)" by fastforce
  show ?thesis
    using assms(2,3) out read_outcome_adds [OF out]
    by (intro quiet_good [OF assms(1)]) (auto simp: leave_read_def owed_by_def)
qed

lemma read_table_good:
  assumes "in_step s" and "zram_point (zs_device s) (zs_history s) (Read_table i buf since)"
    and "zram_access s (Read_table i buf since) = Some (s', p')"
  shows "good_access s (Read_table i buf since) s' p'"
proof (cases "PageTable_get (zd_page_table (zs_device s)) i")
  case (Inl e)
  then have "zram_reply (ReadPage i buf) (zs_device s) = (Inl e, buf)"
    "\<And>st. zram_call (ReadPage i buf) ((zs_device s)\<lparr>zd_stats := st\<rparr>) = (zs_device s)\<lparr>zd_stats := st\<rparr>"
    using assms(2) by (auto simp: ZramDevice_read_page_def dest: leD)
  then show ?thesis
    using Inl assms(2,3) by (auto simp: moment_def intro!: rejected_good [OF assms(1), where since = since])
next
  case (Inr entry)
  obtain r adds where out: "read_outcome (zd_stream (zs_device s)) entry buf = (r, adds)" by fastforce
  have ok: "PAGE_SIZE \<le> length buf" "i < ZramConfig_max_pages (zd_config (zs_device s))" "since \<le> length (zs_history s)"
    using assms(2) by simp_all
  have "zram_call (ReadPage i buf) ((zs_device s)\<lparr>zd_stats := st\<rparr>) = (zs_device s)\<lparr>zd_stats := fold fetch_add adds st\<rparr>" for st
    using read_call(2) [of buf i "(zs_device s)\<lparr>zd_stats := st\<rparr>" entry r adds] ok Inr out by simp
  then have call: "one_call (ReadPage i buf) s (linearize (ReadPage i buf) s) adds"
    by (simp add: one_call_def linearize_def)
  have "placed (zs_history (linearize (ReadPage i buf) s)) (ReadPage i buf) since (moment s) r"
    using placed_last [OF ok(3)] read_call(1) [OF ok(1,2) Inr out] by (simp add: linearize_def moment_def)
  then show ?thesis
    using assms(3) Inr out read_outcome_adds [OF out]
    by (auto simp: leave_read_def intro!: one_call_good [OF assms(1) call] split: PageEntry.splits)
qed

lemma write_stream_good:
  assumes "in_step s" and "zram_point (zs_device s) (zs_history s) (Write_stream i data since)"
    and "zram_access s (Write_stream i data since) = Some (s', p')"
  shows "good_access s (Write_stream i data since) s' p'"
proof (cases "poisoned (zd_stream (zs_device s))")
  case True
  then have "zram_reply (WritePage i data) (zs_device s) = (Inl ResourceBusy, [])"
    "\<And>st. zram_call (WritePage i data) ((zs_device s)\<lparr>zd_stats := st\<rparr>) = (zs_device s)\<lparr>zd_stats := st\<rparr>"
    using assms(2) by (auto simp: ZramDevice_write_page_def Let_def dest: leD)
  then show ?thesis
    using True assms(2,3) by (auto simp: moment_def intro!: rejected_good [OF assms(1), where since = since] split: if_splits)
next
  case False
  then show ?thesis
    using assms(2,3) by (auto simp: owed_by_def intro!: quiet_good [OF assms(1)] split: if_splits)
qed

lemma write_compress_good:
  assumes "in_step s" and "zram_point (zs_device s) (zs_history s) (Write_compress i data since)"
    and "zram_access s (Write_compress i data since) = Some (s', p')"
  shows "good_access s (Write_compress i data since) s' p'"
proof (cases "CompressionStream_compress (contents (zd_stream (zs_device s))) (take PAGE_SIZE data)")
  case (Inl e)
  then have "zram_reply (WritePage i data) (zs_device s) = (Inl e, [])"
    "\<And>st. zram_call (WritePage i data) ((zs_device s)\<lparr>zd_stats := st\<rparr>) = (zs_device s)\<lparr>zd_stats := st\<rparr>"
    using assms(2) by (auto simp: ZramDevice_write_page_def Let_def dest: leD)
  then show ?thesis
    using Inl assms(2,3) by (auto simp: moment_def intro!: rejected_good [OF assms(1), where since = since])
next
  case (Inr c)
  then show ?thesis
    using assms plan_compressed [of data i "zs_device s" c]
    by (auto simp: owed_by_def intro!: quiet_good)
qed

lemma write_table_good:
  assumes "in_step s" and "zram_point (zs_device s) (zs_history s) (Write_table i data entry adds held since)"
    and "zram_access s (Write_table i data entry adds held since) = Some (s', p')"
  shows "good_access s (Write_table i data entry adds held since) s' p'"
proof -
  obtain r t where t: "PageTable_set (zd_page_table (zs_device s)) i entry = (r, t)" by fastforce
  have plan: "write_plan (zs_device s) i data entry adds" and since: "since \<le> length (zs_history s)"
    and short: "length adds \<le> 6" using assms(2) by simp_all
  let ?adds = "case r of Inl e \<Rightarrow> [] | Inr _ \<Rightarrow> adds"
  have s': "s' = set_table t (linearize (WritePage i data) s)"
    and p': "p' = Leave (WritePage i data) since (moment s) (r, []) ?adds held"
    using assms(3) t by (auto split: sum.splits)
  have "one_call (WritePage i data) s s' ?adds"
    using write_call(2) [OF plan t] by (auto simp: s' one_call_def set_table_def linearize_def split: sum.splits)
  then show ?thesis
    using placed_last [OF since] write_call(1) [OF plan t] short
    by (elim one_call_good [OF assms(1)])
       (simp_all add: s' p' set_table_def linearize_def moment_def split: sum.split)
qed

lemma remove_one_call:
  assumes "i < ZramConfig_max_pages (zd_config (zs_device s))"
    and "PageTable_remove (zd_page_table (zs_device s)) i = (r, t)"
  shows "one_call (DiscardPage i) s (set_table t (linearize (DiscardPage i) s)) []"
  using discard_call(2) [OF assms] by (simp add: one_call_def set_table_def linearize_def)

lemma discard_table_good:
  assumes "in_step s" and "zram_point (zs_device s) (zs_history s) (Discard_table i since)"
    and "zram_access s (Discard_table i since) = Some (s', p')"
  shows "good_access s (Discard_table i since) s' p'"
proof -
  obtain r t where t: "PageTable_remove (zd_page_table (zs_device s)) i = (r, t)" by fastforce
  have i: "i < ZramConfig_max_pages (zd_config (zs_device s))" and since: "since \<le> length (zs_history s)"
    using assms(2) by simp_all
  have s': "s' = set_table t (linearize (DiscardPage i) s)"
    and p': "p' = Answered (DiscardPage i) since (moment s) (zram_reply (DiscardPage i) (zs_device s))"
    using assms(3) t discard_call(1) [OF i t] by auto
  show ?thesis
    using placed_last [OF since] unfolding s' p'
    by (intro one_call_good [OF assms(1) remove_one_call [OF i t]]) (simp_all add: set_table_def linearize_def moment_def)
qed

lemma reset_loop_good:
  assumes "in_step s" and "zram_point (zs_device s) (zs_history s) (Reset_loop i since)"
    and "zram_access s (Reset_loop i since) = Some (s', p')"
  shows "good_access s (Reset_loop i since) s' p'"
proof (cases "i < unat (max_pages_of s)")
  case True
  obtain r t where t: "PageTable_remove (zd_page_table (zs_device s)) (word_of_nat i) = (r, t)" by fastforce
  have i: "word_of_nat i < ZramConfig_max_pages (zd_config (zs_device s))"
    using True unat_bound [of "max_pages_of s"] by (simp add: max_pages_of_def word_less_nat_alt unat_of_nat)
  have "discarded_since (zs_history s @ [(DiscardPage (word_of_nat i), x)]) since (Suc i)" for x
    using assms(2) placed_append placed_last unfolding discarded_since_def zram_point.simps less_Suc_eq
    by (metis discarded_append discarded_since_def)
  moreover have s': "s' = set_table t (linearize (DiscardPage (word_of_nat i)) s)" and p': "p' = Reset_loop (Suc i) since"
    using assms(3) True t by auto
  ultimately show ?thesis
    using True unfolding s' p'
    by (intro one_call_good [OF assms(1) remove_one_call [OF i t]])
       (simp_all add: set_table_def linearize_def max_pages_of_def)
next
  case False
  then show ?thesis
    using assms by (auto simp: owed_by_def max_pages_of_def intro!: quiet_good)
qed

lemma leave_good:
  assumes "in_step s" and "zram_point (zs_device s) (zs_history s) (Leave c since k r adds held)"
    and "zram_access s (Leave c since k r adds held) = Some (s', p')"
  shows "good_access s (Leave c since k r adds held) s' p'"
proof (cases adds)
  case Nil
  then show ?thesis
    using assms(2,3) by (auto simp: owed_by_def intro!: quiet_good [OF assms(1)])
next
  case (Cons a adds')
  obtain x n where a: "a = (x, n)" by fastforce
  have "quiet s (s\<lparr>zs_device := (zs_device s)\<lparr>zd_stats := fetch_add a (zd_stats (zs_device s))\<rparr>\<rparr>)"
    by (auto simp: quiet_def)
  from quiet_good [OF assms(1) this] show ?thesis
    using assms(2,3) Cons a by (auto simp: owed_by_def stat_of_fetch_add add.assoc)
qed

lemma read_stream_good:
  assumes "in_step s" and "zram_point (zs_device s) (zs_history s) (Read_stream i buf data since k)"
    and "zram_access s (Read_stream i buf data since k) = Some (s', p')"
  shows "good_access s (Read_stream i buf data since k) s' p'"
  using assms by (auto simp: owed_by_def read_outcome_def intro!: quiet_good split: if_splits)

lemma access_good:
  assumes "in_step s" and "zram_point (zs_device s) (zs_history s) p" and "zram_access s p = Some (s', p')"
  shows "good_access s p s' p'"
proof (cases p)
  case (Read_decode i buf data since k)
  with assms show ?thesis using leave_read_good [OF assms(1), of i buf since k data p False] by simp
qed (use assms in \<open>auto simp del: zram_point.simps zram_access.simps(5-) intro: begin_good read_table_good read_stream_good
    write_stream_good write_compress_good write_table_good discard_table_good reset_loop_good leave_good\<close>)

text \<open>The lock on the stream.\<close>

lemma access_stream_lock:
  assumes "zram_access s p = Some (s', p')" and "holds_stream p \<Longrightarrow> zs_held s"
  shows "of_bool (zs_held s') + of_bool (holds_stream p) = (of_bool (zs_held s) + of_bool (holds_stream p') :: nat)"
proof (cases p)
  case (Calling c)
  with assms show ?thesis
    by (cases c) (auto simp: linearize_def Let_def split: if_splits option.splits)
qed (use assms in \<open>auto simp: linearize_def set_table_def leave_read_def
    split: if_splits sum.splits prod.splits list.splits PageEntry.splits\<close>)

lemma balance:
  fixes x b q :: "'n::ab_group_add"
  assumes "x' + b' + q = x + b + q'" and "x + y = q" and "y' + b = y + b'"
  shows "x' + y' = q'"
proof -
  have "q' = x' + b' + q - x - b" using assms(1) by (simp add: algebra_simps)
  also have "\<dots> = x' + (y + b' - b)" by (simp add: algebra_simps flip: assms(2))
  also have "\<dots> = x' + y'" by (simp flip: assms(3))
  finally show ?thesis by simp
qed

lemma owed_by_same: "zd_stream (zs_device s') = zd_stream (zs_device s) \<Longrightarrow> owed_by s' = owed_by s"
  by (intro ext) (simp add: owed_by_def)

lemma zram_turn_inv:
  assumes inv: "zram_inv d0 (s, ps)" and t: "t < length ps" and a: "zram_access s (ps ! t) = Some (s', p')"
  shows "zram_inv d0 (s', ps[t := p'])"
proof -
  have step: "in_step s" and points: "\<forall>p \<in> set ps. zram_point (zs_device s) (zs_history s) p"
    and held: "at holds_stream ps = of_bool (zs_held s)"
    and stats: "\<And>c. stat_of c (zd_stats (zs_device s)) + sum_list (map (owed_by s c) ps) = sequential_stat s c"
    using inv by simp_all
  have "good_access s (ps ! t) s' p'" using step points t a by (intro access_good) simp_all
  then obtain h where p': "zram_point (zs_device s') (zs_history s') p'" and h: "zs_history s' = zs_history s @ h"
    and same: "zd_config (zs_device s') = zd_config (zs_device s)" "zd_stream (zs_device s') = zd_stream (zs_device s)"
    and step': "in_step s'" and first: "zs_first s' = zs_first s"
    and owe: "\<And>c. stat_of c (zd_stats (zs_device s')) + owed_by s' c p' + sequential_stat s c
        = stat_of c (zd_stats (zs_device s)) + owed_by s c (ps ! t) + sequential_stat s' c"
    by (auto simp: good_access_def)
  have "\<forall>p \<in> set (ps[t := p']). zram_point (zs_device s') (zs_history s') p"
    using points p' zram_point_append [OF _ same, of "zs_history s" _ h] set_update_subset_insert [of ps t p']
    by (auto simp: h)
  moreover have "holds_stream (ps ! t) \<Longrightarrow> zs_held s"
    using at_pos [OF t, of holds_stream] held by (auto split: if_splits)
  then have "at holds_stream (ps[t := p']) = of_bool (zs_held s')"
    using at_update [OF t, of holds_stream p'] access_stream_lock [OF a] held by simp
  moreover have "stat_of c (zd_stats (zs_device s')) + sum_list (map (owed_by s' c) (ps[t := p'])) = sequential_stat s' c" for c
  proof -
    have "sum_list (map (owed_by s' c) (ps[t := p'])) + owed_by s c (ps ! t) = sum_list (map (owed_by s c) ps) + owed_by s' c p'"
      using sum_list_update_add [OF t, of "owed_by s' c" p'] by (simp add: owed_by_same [OF same(2)])
    from balance [OF owe stats this] show ?thesis .
  qed
  ultimately show ?thesis using step' first inv by simp
qed

section \<open>Progress\<close>

text \<open>A bound on the accesses a call still has to make.\<close>

fun zram_remaining :: "zram_pc \<Rightarrow> nat" where
  "zram_remaining (Calling ResetDevice) = 2 ^ 64 + 2"
| "zram_remaining (Calling _) = 11"
| "zram_remaining (Read_table _ _ _) = 5"
| "zram_remaining (Read_stream _ _ _ _ _) = 4"
| "zram_remaining (Read_decode _ _ _ _ _) = 3"
| "zram_remaining (Write_stream _ _ _) = 10"
| "zram_remaining (Write_compress _ _ _) = 9"
| "zram_remaining (Write_table _ _ _ adds _ _) = length adds + 2"
| "zram_remaining (Discard_table _ _) = 1"
| "zram_remaining (Reset_loop i _) = Suc (2 ^ 64 - i)"
| "zram_remaining (Leave _ _ _ _ adds _) = length adds + 1"
| "zram_remaining _ = 0"

lemma leave_read_remaining: "zram_remaining (leave_read s i buf entry since k) \<le> 2"
  using read_outcome_adds by (auto simp: leave_read_def split: prod.split)

lemma zram_access_remaining:
  assumes "zram_access s p = Some (s', p')"
  shows "zram_remaining p' < zram_remaining p"
proof (cases p)
  case (Calling c)
  with assms show ?thesis by (cases c) (auto simp: Let_def split: if_splits option.splits)
next
  case (Read_table i buf since)
  with assms show ?thesis
    using leave_read_remaining [of s i buf _ since "moment s"]
    by (auto simp: less_Suc_eq_le numeral_eq_Suc intro: le_SucI split: sum.splits PageEntry.splits)
next
  case (Read_decode i buf data since k)
  with assms show ?thesis using leave_read_remaining [of s i buf "CompressedPage data" since k] by auto
next
  case (Reset_loop i since)
  with assms show ?thesis using unat_bound [of "max_pages_of s"] by (auto split: if_splits)
qed (use assms in \<open>auto split: if_splits sum.splits prod.splits list.splits\<close>)

lemma zram_not_stuck:
  assumes inv: "zram_inv d0 (s, ps)" and wait: "\<exists>p \<in> set ps. \<not> zram_idle p"
  shows "\<exists>t < length ps. zram_access s (ps ! t) \<noteq> None"
proof (cases "zs_held s")
  case True
  then have "0 < at holds_stream ps" using inv by simp
  then obtain t where t: "t < length ps" "holds_stream (ps ! t)" using at_some by blast
  have "zram_access s (ps ! t) \<noteq> None"
    using t(2) by (cases "ps ! t") (auto split: sum.split prod.split list.split)
  with t(1) show ?thesis by blast
next
  case False
  obtain t where t: "t < length ps" "\<not> zram_idle (ps ! t)" using wait by (auto simp: in_set_conv_nth)
  have "zram_access s (ps ! t) \<noteq> None"
    using t(2) False by (cases "ps ! t") (auto split: sum.split prod.split list.split)
  with t(1) show ?thesis by blast
qed

definition zram_init :: "ZramDevice \<Rightarrow> zram_shared \<times> zram_pc list \<Rightarrow> bool" where
  "zram_init d0 c \<longleftrightarrow> (\<exists>k. c = zram_start d0 k)"

interpretation concurrent_zram: thread_progress zram_access zram_idle zram_starts zram_outside
  "zram_init d0" "zram_inv d0" "\<lambda>_. zram_remaining" for d0
proof
  fix c assume "zram_init d0 c"
  then show "zram_inv d0 c"
    by (auto simp: zram_init_def zram_start_def in_step_def replay_def sequential_stat_def owed_by_def sum_list_replicate)
next
  fix s ps t p
  assume inv: "zram_inv d0 (s, ps)" and t: "t < length ps" "zram_idle (ps ! t)" "zram_starts p"
  have "holds_stream (ps ! t) = holds_stream p" "owed_by s c (ps ! t) = owed_by s c p"
    "zram_point (zs_device s) (zs_history s) p" for c
    using t(2,3) by (cases "ps ! t"; cases p; simp add: owed_by_def)+
  then show "zram_inv d0 (s, ps[t := p])"
    using inv at_update [OF t(1), of holds_stream p] sum_list_update_add [OF t(1), of "owed_by s c" p for c]
      set_update_subset_insert [of ps t p] by auto
next
  fix s ps t s' p'
  assume "zram_inv d0 (s, ps)" "t < length ps" "zram_access s (ps ! t) = Some (s', p')"
  then show "zram_inv d0 (s', ps[t := p'])" by (rule zram_turn_inv)
next
  fix s ps e assume "zram_inv d0 (s, ps)"
  then show "zram_inv d0 (zram_outside e s, ps)" by (simp add: zram_outside_def)
next
  fix s :: zram_shared and ps t s' p' assume "zram_access s (ps ! t) = Some (s', p')"
  then show "zram_remaining p' < zram_remaining (ps ! t)" by (rule zram_access_remaining)
next
  fix s ps assume "zram_inv d0 (s, ps)" "\<exists>p \<in> set ps. \<not> zram_idle p"
  then show "\<exists>t < length ps. zram_access s (ps ! t) \<noteq> None" by (rule zram_not_stuck)
qed (rule refl)

section \<open>Properties\<close>

lemma replies_nth:
  "k < length cs \<Longrightarrow> replies cs d ! k = zram_reply (cs ! k) (fold zram_call (take k cs) d)"
proof (induction cs arbitrary: d k)
  case (Cons c cs)
  then show ?case by (cases k) simp_all
qed simp

lemma read_reply_ideal:
  assumes "ZramDevice_new cfg = Inr d" and "i < ZramConfig_max_pages cfg" and "PAGE_SIZE \<le> length buf"
  shows "zram_reply (ReadPage i buf) (fold zram_call cs d) =
     (Inr (), fold (ideal_call (ZramConfig_max_pages cfg)) cs (\<lambda>_. zero_page) i @ drop PAGE_SIZE buf)"
proof -
  have cfg: "zd_config d = cfg" using assms(1) by (auto simp: ZramDevice_new_def)
  from zram_calls_refine [OF zram_abs_new [OF assms(1)] in_range_zero, of "ZramConfig_max_pages cfg" cs] cfg
  show ?thesis using read_abs assms(2,3) by fastforce
qed

lemma zram_reachable_inv:
  assumes "zram_step\<^sup>*\<^sup>* (zram_start d0 k) (s, ps)"
  shows "zram_inv d0 (s, ps)"
proof -
  have "zram_init d0 (zram_start d0 k)" unfolding zram_init_def by blast
  from concurrent_zram.inv_reachable [OF this assms] show ?thesis .
qed

lemma placed_read_ideal:
  assumes "in_step s" and "ZramDevice_new cfg = Inr (zs_first s)" and "placed (zs_history s) (ReadPage i buf) since k r"
    and "i < ZramConfig_max_pages cfg" and "PAGE_SIZE \<le> length buf"
  shows "r = (Inr (), fold (ideal_call (ZramConfig_max_pages cfg)) (map fst (take k (zs_history s))) (\<lambda>_. zero_page) i
     @ drop PAGE_SIZE buf)"
proof -
  let ?cs = "map fst (zs_history s)"
  have k: "k < length ?cs" "?cs ! k = ReadPage i buf" "map snd (zs_history s) ! k = r"
    using assms(3) by (auto simp: placed_def)
  have "r = replies ?cs (zs_first s) ! k"
    using k(3) assms(1) unfolding in_step_def by metis
  also have "\<dots> = zram_reply (ReadPage i buf) (fold zram_call (take k ?cs) (zs_first s))"
    using k by (simp only: replies_nth)
  finally show ?thesis
    using read_reply_ideal [OF assms(2,4,5)] by (simp add: take_map)
qed

lemma idle_device:
  assumes "zram_inv d0 (s, ps)" and "\<forall>p \<in> set ps. zram_idle p"
  shows "zs_device s = replay (zs_history s) d0"
proof -
  let ?R = "replay (zs_history s) (zs_first s)"
  have "owed_by s c p = 0" if "zram_idle p" for c p
    using that by (cases p) (simp_all add: owed_by_def)
  then have "\<forall>p \<in> set qs. zram_idle p \<Longrightarrow> sum_list (map (owed_by s c) qs) = 0" for c qs
    by (induction qs) simp_all
  then have "sum_list (map (owed_by s c) ps) = 0" for c
    using assms(2) by blast
  with assms(1) have "zd_stats (zs_device s) = zd_stats ?R"
    by (intro stats_eqI) (simp add: sequential_stat_def)
  moreover have "in_step s" and first: "zs_first s = d0" using assms(1) by simp_all
  then have "(zs_device s)\<lparr>zd_stats := zd_stats ?R\<rparr> = ?R" by (simp only: in_step_def)
  ultimately show ?thesis
    unfolding first by (metis ZramDevice.surjective ZramDevice.update_convs(4))
qed

text \<open>C3: The concurrent device is linearizable. In every state reachable from a new device by any interleaving of
  the accesses of any number of threads that read, write, discard and reset, there is a sequence of calls such that:
  one after the other these calls give exactly the recorded answers; the page table is the one they leave
  behind, and when no call is in progress so is the whole device, statistics included; every answer a thread has
  got is that of its own call in this sequence, at a place after the call began; a read is answered with the page an
  array of pages holds at that place; and a reset has discarded every page since it began, but one by one.\<close>

theorem zram_linearizable:
  assumes "ZramDevice_new cfg = Inr d" and "zram_step\<^sup>*\<^sup>* (zram_start d n) (s, ps)"
  shows "map snd (zs_history s) = replies (map fst (zs_history s)) d
     \<and> zd_page_table (zs_device s) = zd_page_table (replay (zs_history s) d)
     \<and> ((\<forall>p \<in> set ps. zram_idle p) \<longrightarrow> zs_device s = replay (zs_history s) d)
     \<and> (\<forall>c since k r. Answered c since k r \<in> set ps \<longrightarrow> since \<le> k \<and> k < length (zs_history s) \<and> zs_history s ! k = (c, r))
     \<and> (\<forall>i buf since k r. Answered (ReadPage i buf) since k r \<in> set ps
          \<and> i < ZramConfig_max_pages cfg \<and> PAGE_SIZE \<le> length buf \<longrightarrow>
          r = (Inr (), fold (ideal_call (ZramConfig_max_pages cfg)) (map fst (take k (zs_history s))) (\<lambda>_. zero_page) i
                 @ drop PAGE_SIZE buf))
     \<and> (\<forall>since i. Reset_done since \<in> set ps \<and> i < unat (ZramConfig_max_pages cfg) \<longrightarrow>
          (\<exists>k \<ge> since. k < length (zs_history s) \<and> fst (zs_history s ! k) = DiscardPage (word_of_nat i)))"
proof -
  have inv: "zram_inv d (s, ps)" using assms(2) by (rule zram_reachable_inv)
  then have first: "zs_first s = d" and step: "in_step s"
    and points: "\<And>p. p \<in> set ps \<Longrightarrow> zram_point (zs_device s) (zs_history s) p" by simp_all
  have placed: "placed (zs_history s) c since k r" if "Answered c since k r \<in> set ps" for c since k r
    using points [OF that] by simp
  have table: "(zs_device s)\<lparr>zd_stats := zd_stats (replay (zs_history s) d)\<rparr> = replay (zs_history s) d"
    and legal: "map snd (zs_history s) = replies (map fst (zs_history s)) d"
    using step first by (simp_all add: in_step_def)
  have "zd_config (replay (zs_history s) d) = zd_config d" "zd_config d = cfg"
    using zram_calls_refine [OF zram_abs_new [OF assms(1)] in_range_zero refl, of "map fst (zs_history s)"] assms(1)
    by (auto simp: replay_def ZramDevice_new_def)
  then have "zd_config (zs_device s) = cfg" using arg_cong [OF table, of zd_config] by simp
  then have cleared: "discarded_since (zs_history s) since (unat (ZramConfig_max_pages cfg))"
    if "Reset_done since \<in> set ps" for since using points [OF that] by simp
  show ?thesis
  proof (intro conjI allI impI)
    show "zd_page_table (zs_device s) = zd_page_table (replay (zs_history s) d)"
      using arg_cong [OF table, of zd_page_table] by simp
    fix i buf since k r
    assume "Answered (ReadPage i buf) since k r \<in> set ps \<and> i < ZramConfig_max_pages cfg \<and> PAGE_SIZE \<le> length buf"
    then show "r = (Inr (), fold (ideal_call (ZramConfig_max_pages cfg)) (map fst (take k (zs_history s))) (\<lambda>_. zero_page) i
        @ drop PAGE_SIZE buf)"
      using placed_read_ideal [OF step, of cfg i buf since k r] placed assms(1) first by blast
  next
    fix since i assume "Reset_done since \<in> set ps \<and> i < unat (ZramConfig_max_pages cfg)"
    then show "\<exists>k \<ge> since. k < length (zs_history s) \<and> fst (zs_history s ! k) = DiscardPage (word_of_nat i)"
      using cleared [of since] unfolding discarded_since_def placed_def by fastforce
  qed (use legal idle_device [OF inv] placed in \<open>auto simp: placed_def\<close>)
qed

text \<open>A read of page 0 begins; another thread writes the page, but has counted nothing yet; the read is answered
  with the new page.\<close>

definition overlap :: "ZramDevice \<Rightarrow> zram_shared \<times> zram_pc list" where
  "overlap d = fold zram_play
     [Begin 0 (Calling (ReadPage 0 (replicate 4096 1))), Turn 0,
      Begin 1 (Calling (WritePage 0 (replicate 4096 9))), Turn 1, Turn 1,
      Turn 0, Turn 0, Turn 0] (zram_start d 2)"

definition sample_device :: ZramDevice where
  "sample_device =
     \<lparr>zd_config = sample_device_config, zd_page_table = PageTable_new, zd_stream = new_lock (CompressionStream_new Lz4),
      zd_stats = ZramStats_default\<rparr>"

lemma sample_device_new: "ZramDevice_new sample_device_config = Inr sample_device"
  by (simp add: ZramDevice_new_def sample_device_def sample_device_config_def ZramConfig_with_size_def)

lemma check_same_replicate: "0 < n \<Longrightarrow> check_same_filled (replicate n v) = Some v"
  by (auto simp: check_same_filled_def list_all_iff)

lemma two_threads: "replicate 2 p = [p, p]"
  by (simp add: numeral_2_eq_2)

lemma overlap_run:
  "overlap sample_device = (s, ps) \<Longrightarrow>
     map fst (zs_history s) = [WritePage 0 (replicate 4096 9), ReadPage 0 (replicate 4096 1)]
     \<and> num_writes (zd_stats (zs_device s)) = 0
     \<and> (\<exists>r adds. ps = [Answered (ReadPage 0 (replicate 4096 1)) 0 1 r,
          Leave (WritePage 0 (replicate 4096 9)) 0 0 (Inr (), []) adds False])"
  by (auto simp: overlap_def zram_start_def sample_device_def max_pages_of_def moment_def linearize_def set_table_def
      sample_device_pages check_same_replicate PageTable_set_def PageTable_get_def PageTable_new_def PAGE_SIZE_def
      leave_read_def read_outcome_def read_entry_def read_adds_def ZramStats_default_def list_all_iff
      two_threads Let_def new_lock_def simp del: zram_reply.simps)

lemma overlap_reachable: "zram_step\<^sup>*\<^sup>* (zram_start d 2) (overlap d)"
  unfolding overlap_def by (rule plays_reachable)

theorem zram_linearizable_witness:
  "\<exists>s ps adds. overlap sample_device = (s, ps)
     \<and> ps = [Answered (ReadPage 0 (replicate 4096 1)) 0 1 (Inr (), replicate 4096 9),
             Leave (WritePage 0 (replicate 4096 9)) 0 0 (Inr (), []) adds False]
     \<and> num_writes (zd_stats (zs_device s)) = 0"
proof -
  obtain s ps where run: "overlap sample_device = (s, ps)" by fastforce
  obtain r adds where hist: "map fst (zs_history s) = [WritePage 0 (replicate 4096 9), ReadPage 0 (replicate 4096 1)]"
    and ps: "ps = [Answered (ReadPage 0 (replicate 4096 1)) 0 1 r,
      Leave (WritePage 0 (replicate 4096 9)) 0 0 (Inr (), []) adds False]"
    and none: "num_writes (zd_stats (zs_device s)) = 0"
    using overlap_run [OF run] by (elim conjE exE) (rule that)
  have reached: "zram_step\<^sup>*\<^sup>* (zram_start sample_device 2) (s, ps)"
    using overlap_reachable [of sample_device] run by simp
  have "r = (Inr (), fold (ideal_call 2) (map fst (take 1 (zs_history s))) (\<lambda>_. zero_page) 0
      @ drop PAGE_SIZE (replicate 4096 1))"
    using zram_linearizable [OF sample_device_new reached] ps by (simp add: sample_device_pages PAGE_SIZE_def)
  then have "r = (Inr (), replicate 4096 9)"
    using hist by (simp add: PAGE_SIZE_def flip: take_map)
  with run ps none show ?thesis by blast
qed

text \<open>A call that is in the middle of a reset, or about to begin one.\<close>

fun resetting :: "zram_pc \<Rightarrow> bool" where
  "resetting (Calling ResetDevice) = True"
| "resetting (Reset_loop _ _) = True"
| "resetting _ = False"

lemma remaining_small:
  "zram_point d h p \<Longrightarrow> \<not> resetting p \<Longrightarrow> zram_remaining p \<le> 11"
  by (cases p rule: zram_remaining.cases) simp_all

text \<open>C20: Calls of the device return. From every reachable state, if no new calls start: while no reset is in
  progress, there are at most eleven more accesses per thread, whatever their order; and whatever calls are in
  progress, resets included, the accesses end, and they end only when every call has returned: no call waits
  for ever for the lock on the stream, which a write keeps while it stores the page and counts.\<close>

theorem zram_calls_return:
  assumes "zram_step\<^sup>*\<^sup>* (zram_start d n) (s, ps)"
  shows "(\<forall>m c. (turn zram_access ^^ m) (s, ps) c \<and> (\<forall>p \<in> set ps. \<not> resetting p) \<longrightarrow> m \<le> 11 * length ps)
     \<and> (\<exists>bound. \<forall>m c. (turn zram_access ^^ m) (s, ps) c \<longrightarrow> m \<le> bound)
     \<and> (\<forall>c. (turn zram_access)\<^sup>*\<^sup>* (s, ps) c \<and> (\<nexists>c'. turn zram_access c c') \<longrightarrow> (\<forall>p \<in> set (snd c). zram_idle p))
     \<and> (\<exists>c. (turn zram_access)\<^sup>*\<^sup>* (s, ps) c \<and> (\<forall>p \<in> set (snd c). zram_idle p))"
proof -
  have inv: "zram_inv d (s, ps)" using assms by (rule zram_reachable_inv)
  then have points: "\<forall>p \<in> set ps. zram_point (zs_device s) (zs_history s) p" by simp
  have bound: "m \<le> concurrent_zram.all_remaining (s, ps)" if "(turn zram_access ^^ m) (s, ps) c" for m c
    using that inv by (rule concurrent_zram.turns_bounded)
  have "m \<le> 11 * length ps" if "(turn zram_access ^^ m) (s, ps) c" "\<forall>p \<in> set ps. \<not> resetting p" for m c
    using bound [OF that(1)] concurrent_zram.all_remaining_le [where ps = ps and s = s and b = 11] points that(2) remaining_small
    by (meson order_trans)
  moreover have "\<forall>p \<in> set (snd c). zram_idle p"
    if "(turn zram_access)\<^sup>*\<^sup>* (s, ps) c" "\<nexists>c'. turn zram_access c c'" for c
    using that(2) by (rule concurrent_zram.no_turn_idle [OF concurrent_zram.turns_inv [OF that(1) inv]])
  ultimately show ?thesis using bound concurrent_zram.all_return [OF inv] by blast
qed

theorem zram_calls_return_witness:
  "\<exists>c. (turn zram_access)\<^sup>*\<^sup>* (overlap sample_device) c \<and> (\<forall>p \<in> set (snd c). zram_idle p)"
proof -
  obtain s ps where run: "overlap sample_device = (s, ps)" by fastforce
  have "zram_step\<^sup>*\<^sup>* (zram_start sample_device 2) (s, ps)"
    using overlap_reachable [of sample_device] run by simp
  from zram_calls_return [OF this] show ?thesis unfolding run by blast
qed

end
