(* ===== verification/Pepita_Scheduler.thy ===== *)
theory Pepita_Scheduler
  imports Pepita_Error
begin

text \<open>
  The work-stealing scheduler of \<^verbatim>\<open>src/src/scheduler.rs\<close>: worker and task identifiers, the bounded
  work-stealing deque, and the scheduler that distributes submitted tasks over per-worker deques.

  A \<^verbatim>\<open>Mutex<VecDeque<T>>\<close> is a lock on a list whose head is the front; the atomic length and the
  counters are words that wrap.  Every method is one atomic step: it returns its result and the new
  object; \<open>Pepita_Concurrent_Scheduler\<close> gives the methods access by access.  The number of elements of a \<^verbatim>\<open>VecDeque\<close> or a \<^verbatim>\<open>Vec\<close> is a \<open>nat\<close>; the preallocation in
  \<^verbatim>\<open>with_capacity\<close> has no effect on the contents.
\<close>

section \<open>Identifiers\<close>

datatype WorkerId = WorkerId u32

definition WorkerId_new :: "u32 \<Rightarrow> WorkerId" where
  "WorkerId_new i = WorkerId i"

fun WorkerId_as_u32 :: "WorkerId \<Rightarrow> u32" where
  "WorkerId_as_u32 (WorkerId i) = i"

datatype TaskId = TaskId u64

definition TaskId_new :: "u64 \<Rightarrow> TaskId" where
  "TaskId_new i = TaskId i"

fun TaskId_as_u64 :: "TaskId \<Rightarrow> u64" where
  "TaskId_as_u64 (TaskId i) = i"

section \<open>The work-stealing deque\<close>

record 'a WorkStealingDeque =
  wd_deque :: "'a list lock"
  wd_len :: usize
  wd_capacity :: usize

definition WorkStealingDeque_new :: "usize \<Rightarrow> 'a WorkStealingDeque" where
  "WorkStealingDeque_new capacity =
     \<lparr>wd_deque = new_lock [], wd_len = 0, wd_capacity = capacity\<rparr>"

definition WorkStealingDeque_default :: "'a WorkStealingDeque" where
  "WorkStealingDeque_default = WorkStealingDeque_new 1024"

definition WorkStealingDeque_push ::
  "'a WorkStealingDeque \<Rightarrow> 'a \<Rightarrow> unit result \<times> 'a WorkStealingDeque" where
  "WorkStealingDeque_push q item =
     (if poisoned (wd_deque q) then (Inl WouldBlock, q)
      else if unat (wd_capacity q) \<le> length (contents (wd_deque q)) then (Inl UblkQueueFull, q)
      else (Inr (), q\<lparr>wd_deque := (wd_deque q)\<lparr>contents := contents (wd_deque q) @ [item]\<rparr>,
                      wd_len := wd_len q + 1\<rparr>))"

definition WorkStealingDeque_pop ::
  "'a WorkStealingDeque \<Rightarrow> 'a option \<times> 'a WorkStealingDeque" where
  "WorkStealingDeque_pop q =
     (if poisoned (wd_deque q) \<or> contents (wd_deque q) = [] then (None, q)
      else (Some (last (contents (wd_deque q))),
            q\<lparr>wd_deque := (wd_deque q)\<lparr>contents := butlast (contents (wd_deque q))\<rparr>,
              wd_len := wd_len q - 1\<rparr>))"

definition WorkStealingDeque_steal ::
  "'a WorkStealingDeque \<Rightarrow> 'a option \<times> 'a WorkStealingDeque" where
  "WorkStealingDeque_steal q =
     (if poisoned (wd_deque q) \<or> contents (wd_deque q) = [] then (None, q)
      else (Some (hd (contents (wd_deque q))),
            q\<lparr>wd_deque := (wd_deque q)\<lparr>contents := tl (contents (wd_deque q))\<rparr>,
              wd_len := wd_len q - 1\<rparr>))"

text \<open>The loop \<^verbatim>\<open>for _ in 0..steal_count\<close> of \<^verbatim>\<open>steal_half\<close>: pop from the front, collect in order.\<close>

fun pop_fronts :: "nat \<Rightarrow> 'a list \<Rightarrow> 'a list \<Rightarrow> 'a list \<times> 'a list" where
  "pop_fronts 0 deque stolen = (stolen, deque)"
| "pop_fronts (Suc n) deque stolen =
     (case deque of [] \<Rightarrow> pop_fronts n [] stolen | x # xs \<Rightarrow> pop_fronts n xs (stolen @ [x]))"

definition WorkStealingDeque_steal_half ::
  "'a WorkStealingDeque \<Rightarrow> 'a list \<times> 'a WorkStealingDeque" where
  "WorkStealingDeque_steal_half q =
     (if poisoned (wd_deque q) then ([], q)
      else let steal_count = length (contents (wd_deque q)) div 2
           in if steal_count = 0 then ([], q)
              else let (stolen, rest) = pop_fronts steal_count (contents (wd_deque q)) []
                   in (stolen, q\<lparr>wd_deque := (wd_deque q)\<lparr>contents := rest\<rparr>,
                                 wd_len := wd_len q - word_of_nat (length stolen)\<rparr>))"

definition WorkStealingDeque_len :: "'a WorkStealingDeque \<Rightarrow> usize" where
  "WorkStealingDeque_len q = wd_len q"

definition WorkStealingDeque_is_empty :: "'a WorkStealingDeque \<Rightarrow> bool" where
  "WorkStealingDeque_is_empty q \<longleftrightarrow> WorkStealingDeque_len q = 0"

definition WorkStealingDeque_capacity :: "'a WorkStealingDeque \<Rightarrow> usize" where
  "WorkStealingDeque_capacity q = wd_capacity q"

section \<open>The scheduler\<close>

record 'a WorkerState =
  ws_deque :: "'a WorkStealingDeque"
  ws_active :: bool

definition WorkerState_new :: "usize \<Rightarrow> 'a WorkerState" where
  "WorkerState_new capacity = \<lparr>ws_deque = WorkStealingDeque_new capacity, ws_active = True\<rparr>"

record 'a Scheduler =
  sc_workers :: "'a WorkerState list lock"
  sc_num_workers :: usize
  sc_next_task_id :: u64
  sc_queue_capacity :: usize
  sc_submit_counter :: usize
  sc_running :: bool

definition Scheduler_with_capacity :: "usize \<Rightarrow> usize \<Rightarrow> 'a Scheduler" where
  "Scheduler_with_capacity num_workers queue_capacity =
     \<lparr>sc_workers = new_lock (map (\<lambda>_. WorkerState_new queue_capacity) [0..<unat num_workers]),
      sc_num_workers = num_workers, sc_next_task_id = 0, sc_queue_capacity = queue_capacity,
      sc_submit_counter = 0, sc_running = True\<rparr>"

definition Scheduler_new :: "usize \<Rightarrow> 'a Scheduler" where
  "Scheduler_new num_workers = Scheduler_with_capacity num_workers 1024"

definition Scheduler_default :: "'a Scheduler" where
  "Scheduler_default = Scheduler_new 4"

text \<open>Replacing the vector of workers, and the deque of one worker in it.\<close>

definition set_workers :: "'a Scheduler \<Rightarrow> 'a WorkerState list \<Rightarrow> 'a Scheduler" where
  "set_workers s ws = s\<lparr>sc_workers := (sc_workers s)\<lparr>contents := ws\<rparr>\<rparr>"

definition set_deque :: "'a WorkerState list \<Rightarrow> nat \<Rightarrow> 'a WorkStealingDeque \<Rightarrow> 'a WorkerState list" where
  "set_deque ws idx q = ws[idx := (ws ! idx)\<lparr>ws_deque := q\<rparr>]"

definition has_space :: "'a WorkerState \<Rightarrow> bool" where
  "has_space w \<longleftrightarrow> ws_active w
     \<and> WorkStealingDeque_len (ws_deque w) < WorkStealingDeque_capacity (ws_deque w)"

definition Scheduler_submit :: "'a Scheduler \<Rightarrow> 'a \<Rightarrow> TaskId option \<times> 'a Scheduler" where
  "Scheduler_submit s task =
     (if \<not> sc_running s then (None, s)
      else if poisoned (sc_workers s) then (None, s)
      else let workers = contents (sc_workers s) in
        if workers = [] then (None, s)
        else let start = unat (sc_submit_counter s) mod length workers;
                 s1 = s\<lparr>sc_submit_counter := sc_submit_counter s + 1\<rparr>
          in case List.find (\<lambda>idx. has_space (workers ! idx))
                    (map (\<lambda>i. (start + i) mod length workers) [0..<length workers]) of
               None \<Rightarrow> (None, s1)
             | Some target_idx \<Rightarrow>
                 (case WorkStealingDeque_push (ws_deque (workers ! target_idx)) task of
                    (Inl _, q) \<Rightarrow> (None, set_workers s1 (set_deque workers target_idx q))
                  | (Inr _, q) \<Rightarrow>
                      (Some (TaskId (sc_next_task_id s)),
                       (set_workers s1 (set_deque workers target_idx q))
                         \<lparr>sc_next_task_id := sc_next_task_id s + 1\<rparr>)))"

definition Scheduler_pop :: "'a Scheduler \<Rightarrow> WorkerId \<Rightarrow> 'a option \<times> 'a Scheduler" where
  "Scheduler_pop s worker_id =
     (if poisoned (sc_workers s) then (None, s)
      else let workers = contents (sc_workers s); idx = unat (WorkerId_as_u32 worker_id)
        in if length workers \<le> idx then (None, s)
           else case WorkStealingDeque_pop (ws_deque (workers ! idx)) of
                  (r, q) \<Rightarrow> (r, set_workers s (set_deque workers idx q)))"

text \<open>The loop over the victims of \<^verbatim>\<open>steal\<close>.\<close>

fun steal_from :: "'a WorkerState list \<Rightarrow> nat list \<Rightarrow> 'a option \<times> 'a WorkerState list" where
  "steal_from workers [] = (None, workers)"
| "steal_from workers (victim_idx # victims) =
     (if ws_active (workers ! victim_idx) then
        (case WorkStealingDeque_steal (ws_deque (workers ! victim_idx)) of
           (Some task, q) \<Rightarrow> (Some task, set_deque workers victim_idx q)
         | (None, q) \<Rightarrow> steal_from (set_deque workers victim_idx q) victims)
      else steal_from workers victims)"

definition Scheduler_steal :: "'a Scheduler \<Rightarrow> WorkerId \<Rightarrow> 'a option \<times> 'a Scheduler" where
  "Scheduler_steal s thief_id =
     (if poisoned (sc_workers s) then (None, s)
      else let workers = contents (sc_workers s); thief_idx = unat (WorkerId_as_u32 thief_id)
        in if length workers \<le> 1 \<or> length workers \<le> thief_idx then (None, s)
           else case steal_from workers
                       (map (\<lambda>offset. (thief_idx + offset) mod length workers) [1..<length workers]) of
                  (r, workers') \<Rightarrow> (r, set_workers s workers'))"

text \<open>One round of the loop of \<^verbatim>\<open>steal_batch\<close> that looks for the busiest worker.\<close>

definition busier ::
  "nat \<Rightarrow> nat \<times> 'a WorkerState \<Rightarrow> nat option \<times> usize \<Rightarrow> nat option \<times> usize" where
  "busier thief_idx = (\<lambda>(idx, worker) (busiest_idx, max_len).
     if idx \<noteq> thief_idx \<and> ws_active worker then
       let len = WorkStealingDeque_len (ws_deque worker)
       in if max_len < len then (Some idx, len) else (busiest_idx, max_len)
     else (busiest_idx, max_len))"

definition Scheduler_steal_batch :: "'a Scheduler \<Rightarrow> WorkerId \<Rightarrow> 'a list \<times> 'a Scheduler" where
  "Scheduler_steal_batch s thief_id =
     (if poisoned (sc_workers s) then ([], s)
      else let workers = contents (sc_workers s); thief_idx = unat (WorkerId_as_u32 thief_id)
        in if length workers \<le> 1 \<or> length workers \<le> thief_idx then ([], s)
           else case fst (fold (busier thief_idx) (List.enumerate 0 workers) (None, 0)) of
                  None \<Rightarrow> ([], s)
                | Some idx \<Rightarrow>
                    (case WorkStealingDeque_steal_half (ws_deque (workers ! idx)) of
                       (stolen, q) \<Rightarrow> (stolen, set_workers s (set_deque workers idx q))))"

definition Scheduler_num_workers :: "'a Scheduler \<Rightarrow> usize" where
  "Scheduler_num_workers s = sc_num_workers s"

definition Scheduler_pending_tasks :: "'a Scheduler \<Rightarrow> usize" where
  "Scheduler_pending_tasks s =
     (if poisoned (sc_workers s) then 0
      else sum_list (map (\<lambda>w. WorkStealingDeque_len (ws_deque w)) (contents (sc_workers s))))"

definition Scheduler_worker_loads :: "'a Scheduler \<Rightarrow> usize list" where
  "Scheduler_worker_loads s =
     (if poisoned (sc_workers s) then []
      else map (\<lambda>w. WorkStealingDeque_len (ws_deque w)) (contents (sc_workers s)))"

definition Scheduler_is_running :: "'a Scheduler \<Rightarrow> bool" where
  "Scheduler_is_running s = sc_running s"

definition Scheduler_stop :: "'a Scheduler \<Rightarrow> 'a Scheduler" where
  "Scheduler_stop s = s\<lparr>sc_running := False\<rparr>"

definition Scheduler_add_worker :: "'a Scheduler \<Rightarrow> WorkerId option \<times> 'a Scheduler" where
  "Scheduler_add_worker s =
     (if poisoned (sc_workers s) then (None, s)
      else let workers = contents (sc_workers s); i = (word_of_nat (length workers) :: u32)
        in (Some (WorkerId i),
            (set_workers s (workers @ [WorkerState_new (sc_queue_capacity s)]))
              \<lparr>sc_num_workers := sc_num_workers s + 1\<rparr>))"

definition Scheduler_deactivate_worker :: "'a Scheduler \<Rightarrow> WorkerId \<Rightarrow> bool \<times> 'a Scheduler" where
  "Scheduler_deactivate_worker s worker_id =
     (if poisoned (sc_workers s) then (False, s)
      else let workers = contents (sc_workers s); idx = unat (WorkerId_as_u32 worker_id)
        in if length workers \<le> idx then (False, s)
           else (True, set_workers s (workers[idx := (workers ! idx)\<lparr>ws_active := False\<rparr>])))"

definition Scheduler_is_worker_active :: "'a Scheduler \<Rightarrow> WorkerId \<Rightarrow> bool" where
  "Scheduler_is_worker_active s worker_id \<longleftrightarrow>
     (if poisoned (sc_workers s) then False
      else let workers = contents (sc_workers s); idx = unat (WorkerId_as_u32 worker_id)
        in if length workers \<le> idx then False else ws_active (workers ! idx))"

end
