(* ===== verification/Pepita_Work_Stealing.thy ===== *)
theory Pepita_Work_Stealing
  imports Pepita_Scheduler
begin

text \<open>
  Correctness of the scheduler.  The interface \<open>work_deque\<close> is what the scheduler relies on: a bounded
  deque that its owner uses as a stack and thieves as a queue.  It is interpreted on
  \<open>WorkStealingDeque\<close>; the scheduler's invariant, the conservation of tasks and the behaviour of
  submission and stealing are then proved over its laws.
\<close>

section \<open>The deque as a stack for its owner and a queue for thieves\<close>

text \<open>Calling an operation that may return an element \<open>n\<close> times, collecting the results.\<close>

fun drain :: "('q \<Rightarrow> 'a option \<times> 'q) \<Rightarrow> nat \<Rightarrow> 'q \<Rightarrow> 'a option list \<times> 'q" where
  "drain f 0 q = ([], q)"
| "drain f (Suc n) q = (let (r, q1) = f q; (rs, q2) = drain f n q1 in (r # rs, q2))"

locale work_deque =
  fixes abs :: "'q \<Rightarrow> 'a list"
    and cap :: "'q \<Rightarrow> nat"
    and ok :: "'q \<Rightarrow> bool"
    and push :: "'q \<Rightarrow> 'a \<Rightarrow> unit result \<times> 'q"
    and pop :: "'q \<Rightarrow> 'a option \<times> 'q"
    and steal :: "'q \<Rightarrow> 'a option \<times> 'q"
    and steal_half :: "'q \<Rightarrow> 'a list \<times> 'q"
  assumes push_room: "ok q \<Longrightarrow> length (abs q) < cap q \<Longrightarrow>
      \<exists>q'. push q x = (Inr (), q') \<and> ok q' \<and> cap q' = cap q \<and> abs q' = abs q @ [x]"
    and push_full: "ok q \<Longrightarrow> cap q \<le> length (abs q) \<Longrightarrow> push q x = (Inl UblkQueueFull, q)"
    and pop_last: "ok q \<Longrightarrow> abs q = xs @ [x] \<Longrightarrow>
      \<exists>q'. pop q = (Some x, q') \<and> ok q' \<and> cap q' = cap q \<and> abs q' = xs"
    and pop_none: "ok q \<Longrightarrow> abs q = [] \<Longrightarrow> pop q = (None, q)"
    and steal_first: "ok q \<Longrightarrow> abs q = x # xs \<Longrightarrow>
      \<exists>q'. steal q = (Some x, q') \<and> ok q' \<and> cap q' = cap q \<and> abs q' = xs"
    and steal_none: "ok q \<Longrightarrow> abs q = [] \<Longrightarrow> steal q = (None, q)"
    and steal_half_front: "ok q \<Longrightarrow> n = length (abs q) div 2 \<Longrightarrow>
      \<exists>q'. steal_half q = (take n (abs q), q') \<and> ok q' \<and> cap q' = cap q \<and> abs q' = drop n (abs q)"
begin

lemma push_all:
  "ok q \<Longrightarrow> length (abs q) + length xs \<le> cap q \<Longrightarrow>
   \<exists>q'. fold (\<lambda>x q. snd (push q x)) xs q = q' \<and> ok q' \<and> cap q' = cap q \<and> abs q' = abs q @ xs"
proof (induction xs arbitrary: q)
  case (Cons x xs)
  from Cons.prems obtain q' where "push q x = (Inr (), q')" "ok q'" "cap q' = cap q" "abs q' = abs q @ [x]"
    using push_room [of q x] by fastforce
  then show ?case
    using Cons.IH [of q'] Cons.prems(2) by simp
qed simp

lemma drain_steal:
  "ok q \<Longrightarrow> n \<le> length (abs q) \<Longrightarrow>
   \<exists>q'. drain steal n q = (map Some (take n (abs q)), q') \<and> ok q' \<and> cap q' = cap q \<and> abs q' = drop n (abs q)"
proof (induction n arbitrary: q)
  case (Suc n)
  then obtain x xs where xs: "abs q = x # xs" by (cases "abs q") auto
  then obtain q' where "steal q = (Some x, q')" "ok q'" "cap q' = cap q" "abs q' = xs"
    using steal_first [OF Suc.prems(1)] by blast
  then show ?case
    using Suc.IH [of q'] Suc.prems(2) xs by auto
qed simp

lemma drain_pop:
  "ok q \<Longrightarrow> n \<le> length (abs q) \<Longrightarrow>
   \<exists>q'. drain pop n q = (map Some (take n (rev (abs q))), q') \<and> ok q' \<and> cap q' = cap q
     \<and> abs q' = take (length (abs q) - n) (abs q)"
proof (induction n arbitrary: q)
  case (Suc n)
  then obtain x xs where xs: "abs q = xs @ [x]" by (cases "abs q" rule: rev_cases) auto
  then obtain q' where "pop q = (Some x, q')" "ok q'" "cap q' = cap q" "abs q' = xs"
    using pop_last [OF Suc.prems(1)] by blast
  then show ?case
    using Suc.IH [of q'] Suc.prems(2) xs by auto
qed simp

lemma pop_mset:
  assumes "ok q" and "pop q = (r, q')"
  shows "ok q' \<and> cap q' = cap q \<and> mset (abs q) = mset (abs q') + mset (case r of None \<Rightarrow> [] | Some x \<Rightarrow> [x])"
  using assms pop_none [OF assms(1)] pop_last [OF assms(1)]
  by (cases "abs q" rule: rev_cases) fastforce+

lemma steal_mset:
  assumes "ok q" and "steal q = (r, q')"
  shows "ok q' \<and> cap q' = cap q \<and> mset (abs q) = mset (abs q') + mset (case r of None \<Rightarrow> [] | Some x \<Rightarrow> [x])"
  using assms steal_none [OF assms(1)] steal_first [OF assms(1)]
  by (cases "abs q") fastforce+

lemma steal_half_mset:
  assumes "ok q" and "steal_half q = (xs, q')"
  shows "ok q' \<and> cap q' = cap q \<and> mset (abs q) = mset (abs q') + mset xs"
proof -
  have "mset (abs q) = mset (drop n (abs q)) + mset (take n (abs q))" for n
    by (metis append_take_drop_id mset_append add.commute)
  with steal_half_front [OF assms(1) refl] assms(2) show ?thesis by auto
qed

end

definition wd_items :: "'a WorkStealingDeque \<Rightarrow> 'a list" where
  "wd_items q = contents (wd_deque q)"

text \<open>Not poisoned, within capacity, and the atomic length is the length of the deque.\<close>

definition wd_ok :: "'a WorkStealingDeque \<Rightarrow> bool" where
  "wd_ok q \<longleftrightarrow> \<not> poisoned (wd_deque q) \<and> length (wd_items q) \<le> unat (wd_capacity q)
     \<and> wd_len q = word_of_nat (length (wd_items q))"

lemma pop_fronts_take:
  "pop_fronts n deque stolen = (stolen @ take n deque, drop n deque)"
  by (induction n deque stolen rule: pop_fronts.induct) (auto split: list.splits)

lemmas wd_defs = wd_ok_def wd_items_def WorkStealingDeque_push_def WorkStealingDeque_pop_def
  WorkStealingDeque_steal_def WorkStealingDeque_steal_half_def WorkStealingDeque_len_def
  WorkStealingDeque_capacity_def

interpretation wsd: work_deque wd_items "\<lambda>q. unat (wd_capacity q)" wd_ok WorkStealingDeque_push
  WorkStealingDeque_pop WorkStealingDeque_steal WorkStealingDeque_steal_half
proof
  fix q :: "'a WorkStealingDeque" and n
  assume q: "wd_ok q" and n: "n = length (wd_items q) div 2"
  have "n < length (wd_items q)" if "n \<noteq> 0" using n that by simp
  then show "\<exists>q'. WorkStealingDeque_steal_half q = (take n (wd_items q), q') \<and> wd_ok q' \<and>
      unat (wd_capacity q') = unat (wd_capacity q) \<and> wd_items q' = drop n (wd_items q)"
    using q n by (auto simp: wd_defs pop_fronts_take Let_def of_nat_diff)
qed (auto simp: wd_defs of_nat_diff)

lemma wd_len_unat: "wd_ok q \<Longrightarrow> unat (WorkStealingDeque_len q) = length (wd_items q)"
  using unat_bound [of "wd_capacity q"] by (simp add: wd_defs unat_of_nat)

lemma wd_new [simp]: "wd_ok (WorkStealingDeque_new c)" "wd_items (WorkStealingDeque_new c) = []"
  "wd_capacity (WorkStealingDeque_new c) = c"
  by (simp_all add: wd_defs WorkStealingDeque_new_def)

section \<open>The invariant of the scheduler\<close>

definition sc_list :: "'a Scheduler \<Rightarrow> 'a WorkerState list" where
  "sc_list s = contents (sc_workers s)"

text \<open>Every deque is well formed and has the scheduler's capacity.\<close>

definition workers_ok :: "usize \<Rightarrow> 'a WorkerState list \<Rightarrow> bool" where
  "workers_ok c ws \<longleftrightarrow> (\<forall>w \<in> set ws. wd_ok (ws_deque w) \<and> wd_capacity (ws_deque w) = c)"

definition sched_ok :: "'a Scheduler \<Rightarrow> bool" where
  "sched_ok s \<longleftrightarrow> \<not> poisoned (sc_workers s) \<and> workers_ok (sc_queue_capacity s) (sc_list s)
     \<and> sc_num_workers s = word_of_nat (length (sc_list s))"

text \<open>The tasks waiting in a vector of workers.\<close>

definition waiting :: "'a WorkerState list \<Rightarrow> 'a multiset" where
  "waiting ws = (\<Sum>w \<leftarrow> ws. mset (wd_items (ws_deque w)))"

lemma waiting_set_deque:
  assumes "i < length ws" and "mset (wd_items (ws_deque (ws ! i))) = mset (wd_items q) + m"
  shows "waiting ws = waiting (set_deque ws i q) + m"
proof -
  have "waiting (set_deque ws i q) + mset (wd_items (ws_deque (ws ! i))) = waiting ws + mset (wd_items q)"
    unfolding waiting_def set_deque_def
    using sum_list_update_add [OF assms(1), of "\<lambda>w. mset (wd_items (ws_deque w))"
        "(ws ! i)\<lparr>ws_deque := q\<rparr>"] by simp
  then show ?thesis by (simp add: assms(2) ac_simps)
qed

lemma waiting_push:
  assumes "i < length ws" and "wd_items q = wd_items (ws_deque (ws ! i)) @ [x]"
  shows "waiting (set_deque ws i q) = waiting ws + {#x#}"
proof -
  have "waiting (set_deque ws i q) + mset (wd_items (ws_deque (ws ! i))) = waiting ws + mset (wd_items q)"
    unfolding waiting_def set_deque_def
    using sum_list_update_add [OF assms(1), of "\<lambda>w. mset (wd_items (ws_deque w))"
        "(ws ! i)\<lparr>ws_deque := q\<rparr>"] by simp
  then show ?thesis by (simp add: assms(2) ac_simps)
qed

lemma workers_ok_set_deque:
  "workers_ok c ws \<Longrightarrow> wd_ok q \<Longrightarrow> wd_capacity q = c \<Longrightarrow> workers_ok c (set_deque ws i q)"
  by (auto simp: workers_ok_def set_deque_def dest!: subsetD [OF set_update_subset_insert])

lemma workers_ok_nth:
  "workers_ok c ws \<Longrightarrow> i < length ws \<Longrightarrow> wd_ok (ws_deque (ws ! i)) \<and> wd_capacity (ws_deque (ws ! i)) = c"
  by (simp add: workers_ok_def)

lemma length_set_deque [simp]: "length (set_deque ws i q) = length ws"
  by (simp add: set_deque_def)

lemma set_workers_sel [simp]:
  "sc_list (set_workers s ws) = ws" "poisoned (sc_workers (set_workers s ws)) = poisoned (sc_workers s)"
  "sc_num_workers (set_workers s ws) = sc_num_workers s" "sc_next_task_id (set_workers s ws) = sc_next_task_id s"
  "sc_queue_capacity (set_workers s ws) = sc_queue_capacity s"
  "sc_submit_counter (set_workers s ws) = sc_submit_counter s" "sc_running (set_workers s ws) = sc_running s"
  by (simp_all add: set_workers_def sc_list_def)

lemma sched_ok_set_workers:
  "sched_ok s \<Longrightarrow> workers_ok (sc_queue_capacity s) ws \<Longrightarrow> length ws = length (sc_list s) \<Longrightarrow>
   sched_ok (set_workers s ws)"
  by (simp add: sched_ok_def)

lemma sched_ok_ghost [simp]:
  "sched_ok (s\<lparr>sc_next_task_id := i\<rparr>) = sched_ok s" "sched_ok (s\<lparr>sc_submit_counter := c\<rparr>) = sched_ok s"
  "sched_ok (s\<lparr>sc_running := b\<rparr>) = sched_ok s"
  by (simp_all add: sched_ok_def sc_list_def)

lemma sc_list_ghost [simp]:
  "sc_list (s\<lparr>sc_next_task_id := i\<rparr>) = sc_list s" "sc_list (s\<lparr>sc_submit_counter := c\<rparr>) = sc_list s"
  "sc_list (s\<lparr>sc_running := b\<rparr>) = sc_list s" "sc_list (s\<lparr>sc_num_workers := n\<rparr>) = sc_list s"
  by (simp_all add: sc_list_def)

section \<open>Submission\<close>

lemma has_space_iff:
  "wd_ok (ws_deque w) \<Longrightarrow>
   has_space w \<longleftrightarrow> ws_active w \<and> length (wd_items (ws_deque w)) < unat (wd_capacity (ws_deque w))"
  by (simp add: has_space_def word_less_nat_alt wd_len_unat WorkStealingDeque_capacity_def)

text \<open>The order in which \<^verbatim>\<open>submit\<close> tries the workers covers all of them.\<close>

lemma rotation_covers: "j < n \<Longrightarrow> \<exists>i < n. (start + i) mod n = (j :: nat)"
proof -
  assume j: "j < n"
  let ?i = "(j + (n - start mod n)) mod n"
  have "(start + ?i) mod n = (start mod n + (j + (n - start mod n))) mod n"
    by (simp only: mod_add_left_eq mod_add_right_eq)
  also have "start mod n + (j + (n - start mod n)) = j + n"
    using mod_less_divisor [of n start] j by linarith
  finally have "(start + ?i) mod n = j" using j by simp
  then show ?thesis using j by (intro exI [of _ ?i]) simp
qed

lemma find_worker_None:
  "ws \<noteq> [] \<Longrightarrow> List.find P (map (\<lambda>i. (start + i) mod length ws) [0..<length ws]) = None
     \<longleftrightarrow> (\<forall>j < length ws. \<not> P j)"
proof -
  assume "ws \<noteq> []"
  moreover have "(\<forall>i < length ws. \<not> P ((start + i) mod length ws)) \<longleftrightarrow> (\<forall>j < length ws. \<not> P j)"
    if "ws \<noteq> []"
    using rotation_covers [of _ "length ws" start] that
    by (metis length_greater_0_conv mod_less_divisor)
  ultimately show ?thesis by (auto simp: find_None_iff)
qed

lemma find_worker_Some:
  "ws \<noteq> [] \<Longrightarrow> List.find P (map (\<lambda>i. (start + i) mod length ws) [0..<length ws]) = Some j \<Longrightarrow>
   j < length ws \<and> P j"
  by (auto simp: find_Some_iff)

lemma submit_accepts:
  assumes ok: "sched_ok s" and run: "sc_running s" and space: "\<exists>w \<in> set (sc_list s). has_space w"
  shows "\<exists>s' j q. Scheduler_submit s x = (Some (TaskId (sc_next_task_id s)), s') \<and> j < length (sc_list s)
     \<and> has_space (sc_list s ! j) \<and> wd_items q = wd_items (ws_deque (sc_list s ! j)) @ [x]
     \<and> sc_list s' = set_deque (sc_list s) j q \<and> sched_ok s'
     \<and> sc_next_task_id s' = sc_next_task_id s + 1"
proof -
  let ?ws = "sc_list s"
  let ?start = "unat (sc_submit_counter s) mod length ?ws"
  have ne: "?ws \<noteq> []" using space by auto
  obtain j where j: "List.find (\<lambda>i. has_space (?ws ! i))
      (map (\<lambda>i. (?start + i) mod length ?ws) [0..<length ?ws]) = Some j"
    using find_worker_None [OF ne, of "\<lambda>i. has_space (?ws ! i)" ?start] space
    by (auto simp: in_set_conv_nth)
  then have jl: "j < length ?ws" "has_space (?ws ! j)"
    using find_worker_Some [OF ne j] by auto
  have wok: "wd_ok (ws_deque (?ws ! j))" "wd_capacity (ws_deque (?ws ! j)) = sc_queue_capacity s"
    using workers_ok_nth [OF _ jl(1)] ok by (auto simp: sched_ok_def)
  then obtain q where q: "WorkStealingDeque_push (ws_deque (?ws ! j)) x = (Inr (), q)" "wd_ok q"
      "wd_items q = wd_items (ws_deque (?ws ! j)) @ [x]" "wd_capacity q = sc_queue_capacity s"
    using wsd.push_room [OF wok(1), of x] has_space_iff [OF wok(1)] jl(2) by (auto simp: word_unat_eq_iff)
  have "sched_ok (set_workers s (set_deque ?ws j q))"
    using ok q by (intro sched_ok_set_workers) (auto simp: sched_ok_def workers_ok_set_deque)
  moreover have "set_workers (s\<lparr>sc_submit_counter := c\<rparr>) ws =
      (set_workers s ws)\<lparr>sc_submit_counter := c\<rparr>" for c ws
    by (simp add: set_workers_def)
  ultimately show ?thesis
    using run ok ne j jl q(1,3)
    by (auto simp: Scheduler_submit_def Let_def sched_ok_def sc_list_def [symmetric])
qed

lemma submit_rejects:
  assumes "sched_ok s" and "\<not> sc_running s \<or> \<not> (\<exists>w \<in> set (sc_list s). has_space w)"
  shows "\<exists>s'. Scheduler_submit s x = (None, s') \<and> sc_list s' = sc_list s \<and> sched_ok s'
     \<and> sc_next_task_id s' = sc_next_task_id s"
proof (cases "\<not> sc_running s \<or> sc_list s = []")
  case False
  then have "List.find (\<lambda>i. has_space (sc_list s ! i))
      (map (\<lambda>i. (unat (sc_submit_counter s) mod length (sc_list s) + i) mod length (sc_list s))
         [0..<length (sc_list s)]) = None"
    using assms(2) by (subst find_worker_None) auto
  with False assms(1) show ?thesis
    by (auto simp: Scheduler_submit_def Let_def sched_ok_def sc_list_def [symmetric] simp del: map_eq_conv)
qed (use assms(1) in \<open>auto simp: Scheduler_submit_def sched_ok_def sc_list_def Let_def\<close>)

section \<open>Taking tasks\<close>

lemma set_deque_same [simp]: "i < length ws \<Longrightarrow> set_deque ws i (ws_deque (ws ! i)) = ws"
  by (simp add: set_deque_def)

lemma nth_set_deque:
  "i < length ws \<Longrightarrow> set_deque ws i q ! j = (if j = i then (ws ! i)\<lparr>ws_deque := q\<rparr> else ws ! j)"
  by (simp add: set_deque_def nth_list_update)

text \<open>What \<^verbatim>\<open>steal\<close> and \<^verbatim>\<open>steal_batch\<close> look for: an active worker with a task.\<close>

definition stealable :: "'a WorkerState \<Rightarrow> bool" where
  "stealable w \<longleftrightarrow> ws_active w \<and> wd_items (ws_deque w) \<noteq> []"

lemma steal_from_None:
  "workers_ok c ws \<Longrightarrow> \<forall>v \<in> set vs. v < length ws \<Longrightarrow> \<forall>v \<in> set vs. \<not> stealable (ws ! v) \<Longrightarrow>
   steal_from ws vs = (None, ws)"
proof (induction vs)
  case (Cons v vs)
  then have "wd_ok (ws_deque (ws ! v))" using workers_ok_nth [of c ws v] by simp
  with Cons show ?case
    by (auto simp: stealable_def dest: wsd.steal_none)
qed simp

lemma steal_from_Some:
  "workers_ok c ws \<Longrightarrow> \<forall>v \<in> set vs. v < length ws \<Longrightarrow>
   List.find (\<lambda>v. stealable (ws ! v)) vs = Some v \<Longrightarrow>
   \<exists>q. steal_from ws vs = (Some (hd (wd_items (ws_deque (ws ! v)))), set_deque ws v q)
     \<and> wd_ok q \<and> wd_capacity q = c \<and> wd_items q = tl (wd_items (ws_deque (ws ! v)))"
proof (induction vs)
  case (Cons u vs)
  have u: "u < length ws" using Cons.prems(2) by simp
  then have uok: "wd_ok (ws_deque (ws ! u))" "wd_capacity (ws_deque (ws ! u)) = c"
    using workers_ok_nth [OF Cons.prems(1)] by auto
  show ?case
  proof (cases "stealable (ws ! u)")
    case True
    then obtain x xs where xs: "wd_items (ws_deque (ws ! u)) = x # xs"
      by (auto simp: stealable_def neq_Nil_conv)
    with True Cons.prems(3) wsd.steal_first [OF uok(1) xs] uok(2) show ?thesis
      by (auto simp: stealable_def word_unat_eq_iff)
  next
    case False
    with Cons u uok show ?thesis
      by (auto simp: stealable_def dest: wsd.steal_none)
  qed
qed simp

lemma steal_victims:
  "t < n \<Longrightarrow> set (map (\<lambda>offset. (t + offset) mod n) [1..<n]) = {v. v < n \<and> v \<noteq> (t :: nat)}"
proof (intro set_eqI iffI)
  fix v assume n: "t < n" and "v \<in> set (map (\<lambda>offset. (t + offset) mod n) [1..<n])"
  then obtain i where i: "Suc 0 \<le> i" "i < n" "v = (t + i) mod n" by auto
  show "v \<in> {v. v < n \<and> v \<noteq> t}"
    using i n by (cases "t + i < n") (auto simp: mod_if le_mod_geq)
next
  fix v assume n: "t < n" and v: "v \<in> {v. v < n \<and> v \<noteq> t}"
  then obtain i where i: "i < n" "(t + i) mod n = v" using rotation_covers [of v n t] by auto
  then have "i \<noteq> 0" using n v by (cases i) auto
  then show "v \<in> set (map (\<lambda>offset. (t + offset) mod n) [1..<n])"
    using i by (auto simp: image_iff intro!: bexI [of _ i])
qed

lemma busier_max:
  assumes "fold (busier t) xs (b, m) = (b', m')"
  shows "m \<le> m' \<and> (\<forall>(i, w) \<in> set xs. i \<noteq> t \<and> ws_active w \<longrightarrow> WorkStealingDeque_len (ws_deque w) \<le> m')
     \<and> ((b', m') = (b, m) \<or> (\<exists>(i, w) \<in> set xs. i \<noteq> t \<and> ws_active w \<and> b' = Some i
           \<and> m' = WorkStealingDeque_len (ws_deque w) \<and> m < m'))"
  using assms
proof (induction xs arbitrary: b m)
  case (Cons x xs)
  obtain i w where x: "x = (i, w)" by (cases x)
  let ?l = "WorkStealingDeque_len (ws_deque w)"
  show ?case
  proof (cases "i \<noteq> t \<and> ws_active w \<and> m < ?l")
    case True
    then have "fold (busier t) xs (Some i, ?l) = (b', m')"
      using Cons.prems by (simp add: x busier_def Let_def)
    from Cons.IH [OF this] True show ?thesis by (force simp: x)
  next
    case False
    then have "fold (busier t) xs (b, m) = (b', m')"
      using Cons.prems by (auto simp: x busier_def Let_def split: if_splits)
    from Cons.IH [OF this] False show ?thesis by (fastforce simp: x not_less)
  qed
qed simp

lemma busiest_worker:
  assumes ok: "workers_ok c ws" and r: "fst (fold (busier t) (List.enumerate 0 ws) (None, 0)) = r"
  shows "case r of
      None \<Rightarrow> \<forall>v < length ws. v \<noteq> t \<longrightarrow> \<not> stealable (ws ! v)
    | Some v \<Rightarrow> v < length ws \<and> v \<noteq> t \<and> stealable (ws ! v) \<and>
        (\<forall>u < length ws. u \<noteq> t \<and> ws_active (ws ! u) \<longrightarrow>
           length (wd_items (ws_deque (ws ! u))) \<le> length (wd_items (ws_deque (ws ! v))))"
proof -
  obtain m where f: "fold (busier t) (List.enumerate 0 ws) (None, 0) = (r, m)"
    using r by (cases "fold (busier t) (List.enumerate 0 ws) (None, 0)") simp
  have len: "unat (WorkStealingDeque_len (ws_deque (ws ! u))) = length (wd_items (ws_deque (ws ! u)))"
    if "u < length ws" for u
    using workers_ok_nth [OF ok that] by (simp add: wd_len_unat)
  have all: "length (wd_items (ws_deque (ws ! u))) \<le> unat m"
    if "u < length ws" "u \<noteq> t" "ws_active (ws ! u)" for u
    using busier_max [OF f] that len [OF that(1)]
    by (force simp: in_set_enumerate_eq word_le_nat_alt)
  show ?thesis
  proof (cases r)
    case None
    then have "m = 0" using busier_max [OF f] by auto
    with None all show ?thesis by (auto simp: stealable_def)
  next
    case (Some v)
    then have "v < length ws" "v \<noteq> t" "ws_active (ws ! v)"
      "m = WorkStealingDeque_len (ws_deque (ws ! v))" "0 < m"
      using busier_max [OF f] by (auto simp: in_set_enumerate_eq)
    with Some all len show ?thesis
      by (auto simp: stealable_def word_less_nat_alt)
  qed
qed

section \<open>Conservation of tasks\<close>

text \<open>An operation that hands out the tasks \<open>xs\<close>: it keeps the invariant and the task counter.\<close>

definition takes :: "'a Scheduler \<Rightarrow> 'a Scheduler \<Rightarrow> 'a list \<Rightarrow> bool" where
  "takes s s' xs \<longleftrightarrow> sched_ok s' \<and> sc_next_task_id s' = sc_next_task_id s
     \<and> waiting (sc_list s) = waiting (sc_list s') + mset xs"

lemma takes_nothing: "sched_ok s \<Longrightarrow> takes s s []"
  by (simp add: takes_def)

lemma takes_deque:
  assumes "sched_ok s" and "i < length (sc_list s)"
    and "wd_ok q" and "wd_capacity q = wd_capacity (ws_deque (sc_list s ! i))"
    and "mset (wd_items (ws_deque (sc_list s ! i))) = mset (wd_items q) + mset xs"
  shows "takes s (set_workers s (set_deque (sc_list s) i q)) xs"
  using assms waiting_set_deque [OF assms(2,5)] workers_ok_nth [of "sc_queue_capacity s" "sc_list s" i]
  by (auto simp: takes_def sched_ok_def workers_ok_set_deque)

definition given :: "'a option \<Rightarrow> 'a list" where
  "given r = (case r of None \<Rightarrow> [] | Some x \<Rightarrow> [x])"

lemma pop_takes:
  assumes ok: "sched_ok s" and "Scheduler_pop s w = (r, s')"
  shows "takes s s' (given r)"
proof (cases "unat (WorkerId_as_u32 w) < length (sc_list s)")
  case True
  let ?i = "unat (WorkerId_as_u32 w)"
  obtain q where q: "WorkStealingDeque_pop (ws_deque (sc_list s ! ?i)) = (r, q)"
    and s': "s' = set_workers s (set_deque (sc_list s) ?i q)"
    using assms True by (auto simp: Scheduler_pop_def sched_ok_def sc_list_def Let_def split: prod.splits)
  have "wd_ok (ws_deque (sc_list s ! ?i))"
    using ok workers_ok_nth [OF _ True] by (auto simp: sched_ok_def)
  from wsd.pop_mset [OF this q] show ?thesis
    unfolding s' by (intro takes_deque [OF ok True]) (auto simp: given_def word_unat_eq_iff)
qed (use assms in \<open>auto simp: Scheduler_pop_def sched_ok_def sc_list_def given_def takes_def Let_def\<close>)

text \<open>The victim of \<^verbatim>\<open>steal\<close>: the first worker after the thief that is active and has a task.\<close>

definition steal_victim :: "'a WorkerState list \<Rightarrow> nat \<Rightarrow> nat option" where
  "steal_victim ws t =
     (if length ws \<le> t then None
      else List.find (\<lambda>v. stealable (ws ! v)) (map (\<lambda>i. (t + i) mod length ws) [1..<length ws]))"

lemma steal_victim_Some:
  assumes "steal_victim ws t = Some v"
  shows "t < length ws \<and> v < length ws \<and> v \<noteq> t \<and> stealable (ws ! v)"
proof -
  have t: "t < length ws" and f: "List.find (\<lambda>v. stealable (ws ! v))
      (map (\<lambda>i. (t + i) mod length ws) [1..<length ws]) = Some v"
    using assms by (auto simp: steal_victim_def split: if_splits)
  have "v \<in> set (map (\<lambda>i. (t + i) mod length ws) [1..<length ws])" and "stealable (ws ! v)"
    using f by (metis find_Some_iff nth_mem)+
  with t show ?thesis by (simp only: steal_victims [OF t] mem_Collect_eq simp_thms)
qed

lemma find_None_set: "List.find P xs = None \<longleftrightarrow> (\<forall>x \<in> set xs. \<not> P x)"
  by (auto simp: find_None_iff)

lemma steal_victim_None:
  "t < length ws \<Longrightarrow> steal_victim ws t = None \<longleftrightarrow> (\<forall>v < length ws. v \<noteq> t \<longrightarrow> \<not> stealable (ws ! v))"
proof -
  assume t: "t < length ws"
  then have "steal_victim ws t = List.find (\<lambda>v. stealable (ws ! v))
      (map (\<lambda>i. (t + i) mod length ws) [1..<length ws])" by (simp add: steal_victim_def)
  then show ?thesis by (simp only: find_None_set steal_victims [OF t]) blast
qed

lemma steal_behaviour:
  assumes ok: "sched_ok s" and t: "t = unat (WorkerId_as_u32 w)"
  shows "case steal_victim (sc_list s) t of
      None \<Rightarrow> Scheduler_steal s w = (None, set_workers s (sc_list s))
    | Some v \<Rightarrow> \<exists>q. Scheduler_steal s w =
          (Some (hd (wd_items (ws_deque (sc_list s ! v)))), set_workers s (set_deque (sc_list s) v q))
        \<and> wd_ok q \<and> wd_capacity q = sc_queue_capacity s \<and> wd_items q = tl (wd_items (ws_deque (sc_list s ! v)))"
proof (cases "length (sc_list s) \<le> 1 \<or> length (sc_list s) \<le> t")
  case True
  have "set_workers s (sc_list s) = s" by (simp add: set_workers_def sc_list_def)
  moreover have "steal_victim (sc_list s) t = None"
    using True by (cases "length (sc_list s)") (auto simp: steal_victim_def)
  ultimately show ?thesis
    using True ok by (auto simp: Scheduler_steal_def sched_ok_def sc_list_def t)
next
  case False
  let ?vs = "map (\<lambda>i. (t + i) mod length (sc_list s)) [1..<length (sc_list s)]"
  have wok: "workers_ok (sc_queue_capacity s) (sc_list s)" and np: "\<not> poisoned (sc_workers s)"
    using ok by (auto simp: sched_ok_def)
  have vs: "\<forall>v \<in> set ?vs. v < length (sc_list s)"
    using False by (subst steal_victims) auto
  show ?thesis
  proof (cases "steal_victim (sc_list s) t")
    case None
    then have "\<forall>v \<in> set ?vs. \<not> stealable (sc_list s ! v)"
      using False by (auto simp: steal_victim_def find_None_iff)
    from steal_from_None [OF wok vs this] None np False show ?thesis
      by (simp add: Scheduler_steal_def Let_def sc_list_def [symmetric] t)
  next
    case (Some v)
    then have "List.find (\<lambda>v. stealable (sc_list s ! v)) ?vs = Some v"
      using False by (simp add: steal_victim_def)
    from steal_from_Some [OF wok vs this] Some np False show ?thesis
      by (auto simp: Scheduler_steal_def Let_def sc_list_def [symmetric] t)
  qed
qed

lemma steal_takes:
  assumes ok: "sched_ok s" and r: "Scheduler_steal s w = (r, s')"
  shows "takes s s' (given r)"
proof (cases "steal_victim (sc_list s) (unat (WorkerId_as_u32 w))")
  case None
  then show ?thesis
    using steal_behaviour [OF ok refl, of w] r ok
    by (auto simp: takes_def given_def sched_ok_def)
next
  case (Some v)
  then have v: "v < length (sc_list s)" "wd_items (ws_deque (sc_list s ! v)) \<noteq> []"
    using steal_victim_Some [OF Some] by (auto simp: stealable_def)
  then have "mset (wd_items (ws_deque (sc_list s ! v))) =
      mset (tl (wd_items (ws_deque (sc_list s ! v)))) + mset [hd (wd_items (ws_deque (sc_list s ! v)))]"
    by (cases "wd_items (ws_deque (sc_list s ! v))") auto
  moreover have "wd_capacity (ws_deque (sc_list s ! v)) = sc_queue_capacity s"
    using ok workers_ok_nth [OF _ v(1)] by (auto simp: sched_ok_def)
  ultimately show ?thesis
    using steal_behaviour [OF ok refl, of w] Some r ok
    by (auto simp: given_def intro!: takes_deque [OF ok v(1)])
qed

lemma steal_batch_behaviour:
  assumes ok: "sched_ok s" and t: "t = unat (WorkerId_as_u32 w)" "t < length (sc_list s)" "1 < length (sc_list s)"
    and r: "fst (fold (busier t) (List.enumerate 0 (sc_list s)) (None, 0)) = Some v"
    and n: "n = length (wd_items (ws_deque (sc_list s ! v))) div 2"
  shows "\<exists>q. Scheduler_steal_batch s w =
      (take n (wd_items (ws_deque (sc_list s ! v))), set_workers s (set_deque (sc_list s) v q))
    \<and> wd_ok q \<and> wd_capacity q = sc_queue_capacity s \<and> wd_items q = drop n (wd_items (ws_deque (sc_list s ! v)))"
proof -
  have wok: "workers_ok (sc_queue_capacity s) (sc_list s)" and np: "\<not> poisoned (sc_workers s)"
    using ok by (auto simp: sched_ok_def)
  have v: "v < length (sc_list s)" using busiest_worker [OF wok r] by simp
  have "wd_ok (ws_deque (sc_list s ! v))" "wd_capacity (ws_deque (sc_list s ! v)) = sc_queue_capacity s"
    using workers_ok_nth [OF wok v] by auto
  with wsd.steal_half_front [OF _ n] np t r show ?thesis
    by (fastforce simp: Scheduler_steal_batch_def Let_def sc_list_def [symmetric] word_unat_eq_iff)
qed

lemma steal_batch_takes:
  assumes ok: "sched_ok s" and r: "Scheduler_steal_batch s w = (xs, s')"
  shows "takes s s' xs"
proof (cases "length (sc_list s) \<le> 1 \<or> length (sc_list s) \<le> unat (WorkerId_as_u32 w)
    \<or> fst (fold (busier (unat (WorkerId_as_u32 w))) (List.enumerate 0 (sc_list s)) (None, 0)) = None")
  case True
  then show ?thesis
    using ok r takes_nothing [OF ok]
    by (auto simp: Scheduler_steal_batch_def Let_def sc_list_def [symmetric] sched_ok_def split: if_splits)
next
  case False
  let ?t = "unat (WorkerId_as_u32 w)"
  obtain v where v: "fst (fold (busier ?t) (List.enumerate 0 (sc_list s)) (None, 0)) = Some v"
    using False by auto
  have wok: "workers_ok (sc_queue_capacity s) (sc_list s)" using ok by (simp add: sched_ok_def)
  have vl: "v < length (sc_list s)" using busiest_worker [OF wok v] by simp
  have "mset ys = mset (drop n ys) + mset (take n ys)" for n and ys :: "'a list"
    by (metis append_take_drop_id mset_append add.commute)
  with steal_batch_behaviour [OF ok refl _ _ v refl] False r workers_ok_nth [OF wok vl] show ?thesis
    by (fastforce simp: not_le intro!: takes_deque [OF ok vl])
qed

lemma add_worker_ok:
  "sched_ok s \<Longrightarrow> Scheduler_add_worker s = (r, s') \<Longrightarrow> takes s s' []"
  by (auto simp: Scheduler_add_worker_def Let_def takes_def sched_ok_def waiting_def workers_ok_def
      WorkerState_new_def simp flip: sc_list_def)

lemma waiting_deactivate:
  "i < length ws \<Longrightarrow> waiting (ws[i := (ws ! i)\<lparr>ws_active := False\<rparr>]) = waiting ws"
  using sum_list_update_add [of i ws "\<lambda>w. mset (wd_items (ws_deque w))" "(ws ! i)\<lparr>ws_active := False\<rparr>"]
  by (simp add: waiting_def)

lemma deactivate_worker_ok:
  "sched_ok s \<Longrightarrow> Scheduler_deactivate_worker s w = (r, s') \<Longrightarrow> takes s s' []"
proof (cases "unat (WorkerId_as_u32 w) < length (sc_list s)")
  case True
  assume ok: "sched_ok s" and r: "Scheduler_deactivate_worker s w = (r, s')"
  have "workers_ok c ws \<Longrightarrow> i < length ws \<Longrightarrow> workers_ok c (ws[i := (ws ! i)\<lparr>ws_active := False\<rparr>])"
    for c i and ws :: "'a WorkerState list"
    by (auto simp: workers_ok_def dest!: subsetD [OF set_update_subset_insert])
  with ok r True waiting_deactivate [OF True] show ?thesis
    by (auto simp: Scheduler_deactivate_worker_def Let_def takes_def sched_ok_def simp flip: sc_list_def)
qed (auto simp: Scheduler_deactivate_worker_def Let_def takes_def sched_ok_def simp flip: sc_list_def)

section \<open>Every sequence of calls\<close>

text \<open>
  A run of the scheduler: its state, with the tasks accepted by \<^verbatim>\<open>submit\<close> and their identifiers, and
  the tasks handed out, in order.  Each step is one call of a method by any worker or client.
\<close>

record 'a sched_run =
  run_sched :: "'a Scheduler"
  run_submitted :: "'a list"
  run_ids :: "TaskId list"
  run_delivered :: "'a list"

definition run_start :: "'a Scheduler \<Rightarrow> 'a sched_run" where
  "run_start s = \<lparr>run_sched = s, run_submitted = [], run_ids = [], run_delivered = []\<rparr>"

inductive sched_step :: "'a sched_run \<Rightarrow> 'a sched_run \<Rightarrow> bool" where
  accept: "Scheduler_submit (run_sched r) x = (Some i, s') \<Longrightarrow>
     sched_step r (r\<lparr>run_sched := s', run_submitted := run_submitted r @ [x], run_ids := run_ids r @ [i]\<rparr>)"
| refuse: "Scheduler_submit (run_sched r) x = (None, s') \<Longrightarrow> sched_step r (r\<lparr>run_sched := s'\<rparr>)"
| pop: "Scheduler_pop (run_sched r) w = (t, s') \<Longrightarrow>
     sched_step r (r\<lparr>run_sched := s', run_delivered := run_delivered r @ given t\<rparr>)"
| steal: "Scheduler_steal (run_sched r) w = (t, s') \<Longrightarrow>
     sched_step r (r\<lparr>run_sched := s', run_delivered := run_delivered r @ given t\<rparr>)"
| batch: "Scheduler_steal_batch (run_sched r) w = (ts, s') \<Longrightarrow>
     sched_step r (r\<lparr>run_sched := s', run_delivered := run_delivered r @ ts\<rparr>)"
| stop: "sched_step r (r\<lparr>run_sched := Scheduler_stop (run_sched r)\<rparr>)"
| add: "Scheduler_add_worker (run_sched r) = (w, s') \<Longrightarrow> sched_step r (r\<lparr>run_sched := s'\<rparr>)"
| deactivate: "Scheduler_deactivate_worker (run_sched r) w = (b, s') \<Longrightarrow> sched_step r (r\<lparr>run_sched := s'\<rparr>)"

definition run_init :: "'a sched_run \<Rightarrow> bool" where
  "run_init r \<longleftrightarrow> (\<exists>n c. r = run_start (Scheduler_with_capacity n c))"

definition run_inv :: "'a sched_run \<Rightarrow> bool" where
  "run_inv r \<longleftrightarrow> sched_ok (run_sched r)
     \<and> mset (run_submitted r) = mset (run_delivered r) + waiting (sc_list (run_sched r))
     \<and> run_ids r = map (\<lambda>k. TaskId (word_of_nat k)) [0..<length (run_submitted r)]
     \<and> sc_next_task_id (run_sched r) = word_of_nat (length (run_submitted r))"

lemma takes_inv:
  "run_inv r \<Longrightarrow> takes (run_sched r) s' xs \<Longrightarrow>
   run_inv (r\<lparr>run_sched := s', run_delivered := run_delivered r @ xs\<rparr>)"
  by (auto simp: run_inv_def takes_def ac_simps)

lemma takes_inv_nothing: "run_inv r \<Longrightarrow> takes (run_sched r) s' [] \<Longrightarrow> run_inv (r\<lparr>run_sched := s'\<rparr>)"
  by (auto simp: run_inv_def takes_def)

lemma submit_inv:
  assumes inv: "run_inv r" and sub: "Scheduler_submit (run_sched r) x = (Some i, s')"
  shows "run_inv (r\<lparr>run_sched := s', run_submitted := run_submitted r @ [x], run_ids := run_ids r @ [i]\<rparr>)"
proof -
  let ?s = "run_sched r"
  have ok: "sched_ok ?s" using inv by (simp add: run_inv_def)
  have "sc_running ?s \<and> (\<exists>w \<in> set (sc_list ?s). has_space w)"
    using submit_rejects [OF ok, of x] sub by force
  then obtain j q where j: "j < length (sc_list ?s)" "wd_items q = wd_items (ws_deque (sc_list ?s ! j)) @ [x]"
    "sc_list s' = set_deque (sc_list ?s) j q" and s': "sched_ok s'" "i = TaskId (sc_next_task_id ?s)"
    "sc_next_task_id s' = sc_next_task_id ?s + 1"
    using submit_accepts [OF ok, of x] sub by auto
  with inv waiting_push [OF j(1,2)] show ?thesis by (simp add: run_inv_def)
qed

lemma refuse_inv:
  assumes inv: "run_inv r" and sub: "Scheduler_submit (run_sched r) x = (None, s')"
  shows "run_inv (r\<lparr>run_sched := s'\<rparr>)"
proof -
  have ok: "sched_ok (run_sched r)" using inv by (simp add: run_inv_def)
  have "\<not> sc_running (run_sched r) \<or> \<not> (\<exists>w \<in> set (sc_list (run_sched r)). has_space w)"
    using submit_accepts [OF ok, of x] sub by auto
  from submit_rejects [OF ok this, of x] inv sub show ?thesis by (auto simp: run_inv_def)
qed

interpretation sched: step_system run_init sched_step run_inv
proof
  fix r :: "'a sched_run" assume "run_init r"
  then show "run_inv r"
    by (auto simp: run_init_def run_inv_def run_start_def Scheduler_with_capacity_def sched_ok_def
        sc_list_def workers_ok_def waiting_def WorkerState_new_def comp_def)
next
  fix r r' :: "'a sched_run" assume inv: "run_inv r" and "sched_step r r'"
  have ok: "sched_ok (run_sched r)" using inv by (simp add: run_inv_def)
  from \<open>sched_step r r'\<close> show "run_inv r'"
  proof cases
    case (accept x i s') then show ?thesis using submit_inv [OF inv] by simp
  next
    case (refuse x s') then show ?thesis using refuse_inv [OF inv] by simp
  next
    case (pop w t s') then show ?thesis using takes_inv [OF inv pop_takes [OF ok]] by simp
  next
    case (steal w t s') then show ?thesis using takes_inv [OF inv steal_takes [OF ok]] by simp
  next
    case (batch w ts s') then show ?thesis using takes_inv [OF inv steal_batch_takes [OF ok]] by simp
  next
    case stop then show ?thesis using inv by (auto simp: run_inv_def Scheduler_stop_def)
  next
    case (add w s') then show ?thesis using takes_inv_nothing [OF inv add_worker_ok [OF ok]] by simp
  next
    case (deactivate w b s')
    then show ?thesis using takes_inv_nothing [OF inv deactivate_worker_ok [OF ok]] by simp
  qed
qed

lemma run_ok: "run_init r0 \<Longrightarrow> sched_step\<^sup>*\<^sup>* r0 r \<Longrightarrow> sched_ok (run_sched r)"
  using sched.inv_reachable by (auto simp: run_inv_def)

lemma run_init_start: "run_init (run_start (Scheduler_with_capacity n c))"
  by (auto simp: run_init_def)

section \<open>Round-robin distribution\<close>

lemma submit_start:
  assumes ok: "sched_ok s" and run: "sc_running s" and ne: "sc_list s \<noteq> []"
    and j: "j = unat (sc_submit_counter s) mod length (sc_list s)" and space: "has_space (sc_list s ! j)"
  shows "\<exists>s' q. Scheduler_submit s x = (Some (TaskId (sc_next_task_id s)), s')
     \<and> sc_list s' = set_deque (sc_list s) j q \<and> wd_items q = wd_items (ws_deque (sc_list s ! j)) @ [x]
     \<and> sched_ok s' \<and> sc_running s' \<and> sc_submit_counter s' = sc_submit_counter s + 1
     \<and> sc_queue_capacity s' = sc_queue_capacity s"
proof -
  let ?ws = "sc_list s"
  have jl: "j < length ?ws" using ne j by simp
  have find: "List.find (\<lambda>i. has_space (?ws ! i))
      (map (\<lambda>i. (unat (sc_submit_counter s) mod length ?ws + i) mod length ?ws) [0..<length ?ws]) = Some j"
    using ne space j by (simp add: upt_conv_Cons)
  have wok: "wd_ok (ws_deque (?ws ! j))" "wd_capacity (ws_deque (?ws ! j)) = sc_queue_capacity s"
    using workers_ok_nth [OF _ jl] ok by (auto simp: sched_ok_def)
  then obtain q where q: "WorkStealingDeque_push (ws_deque (?ws ! j)) x = (Inr (), q)" "wd_ok q"
      "wd_items q = wd_items (ws_deque (?ws ! j)) @ [x]" "wd_capacity q = sc_queue_capacity s"
    using wsd.push_room [OF wok(1), of x] has_space_iff [OF wok(1)] space by (auto simp: word_unat_eq_iff)
  have "Scheduler_submit s x = (Some (TaskId (sc_next_task_id s)),
      (set_workers (s\<lparr>sc_submit_counter := sc_submit_counter s + 1\<rparr>) (set_deque ?ws j q))
        \<lparr>sc_next_task_id := sc_next_task_id s + 1\<rparr>)"
    using ok run ne find q(1)
    by (simp add: Scheduler_submit_def Let_def sched_ok_def sc_list_def [symmetric])
  moreover have "sched_ok (set_workers (s\<lparr>sc_submit_counter := sc_submit_counter s + 1\<rparr>) (set_deque ?ws j q))"
    using ok q by (intro sched_ok_set_workers) (auto simp: sched_ok_def workers_ok_set_deque)
  ultimately show ?thesis using q run by auto
qed

lemma residues_below:
  "j < n \<Longrightarrow> length (filter (\<lambda>i. i mod n = j) [0..<k]) = k div n + (if j < k mod n then 1 else 0)"
  by (induction k) (auto simp: div_Suc mod_Suc)

definition submit_all :: "'a list \<Rightarrow> 'a Scheduler \<Rightarrow> 'a Scheduler" where
  "submit_all ts s = fold (\<lambda>t s. snd (Scheduler_submit s t)) ts s"

text \<open>The tasks number \<open>j\<close>, \<open>j + n\<close>, \<open>j + 2 n\<close>, \<dots> of a list.\<close>

definition every_nth :: "nat \<Rightarrow> nat \<Rightarrow> 'a list \<Rightarrow> 'a list" where
  "every_nth n j ts = map (nth ts) (filter (\<lambda>i. i mod n = j) [0..<length ts])"

lemma every_nth_snoc:
  "every_nth n j (ts @ [t]) = every_nth n j ts @ (if length ts mod n = j then [t] else [])"
  by (auto simp: every_nth_def nth_append)

definition distributed :: "nat \<Rightarrow> usize \<Rightarrow> 'a list \<Rightarrow> 'a Scheduler \<Rightarrow> bool" where
  "distributed n c ts s \<longleftrightarrow> sched_ok s \<and> sc_running s \<and> sc_queue_capacity s = c
     \<and> sc_submit_counter s = word_of_nat (length ts) \<and> length (sc_list s) = n
     \<and> (\<forall>j < n. ws_active (sc_list s ! j) \<and> wd_items (ws_deque (sc_list s ! j)) = every_nth n j ts)"

lemma distributed_submit:
  assumes d: "distributed n c ts s" and n: "0 < n" and room: "length ts < n * unat c"
    and small: "length ts < 2 ^ 64"
  shows "distributed n c (ts @ [t]) (snd (Scheduler_submit s t))"
proof -
  let ?j = "length ts mod n"
  have ok: "sched_ok s" and run: "sc_running s" and len: "length (sc_list s) = n"
    and act: "\<And>j. j < n \<Longrightarrow> ws_active (sc_list s ! j) \<and> wd_items (ws_deque (sc_list s ! j)) = every_nth n j ts"
    and cnt: "unat (sc_submit_counter s) = length ts"
    using d small by (auto simp: distributed_def unat_of_nat)
  have jn: "?j < n" using n by simp
  have "length (every_nth n ?j ts) = length ts div n"
    using residues_below [OF jn, of "length ts"] by (simp add: every_nth_def)
  also have "\<dots> < unat c"
    using room n by (simp add: div_less_iff_less_mult mult.commute)
  finally have "has_space (sc_list s ! ?j)"
    using act [OF jn] workers_ok_nth [of c "sc_list s" ?j] d len jn
    by (subst has_space_iff) (auto simp: distributed_def sched_ok_def)
  moreover have "sc_list s \<noteq> []" "?j = unat (sc_submit_counter s) mod length (sc_list s)"
    using len n cnt by auto
  ultimately obtain s' q where s': "snd (Scheduler_submit s t) = s'"
      "sc_list s' = set_deque (sc_list s) ?j q" "wd_items q = wd_items (ws_deque (sc_list s ! ?j)) @ [t]"
      "sched_ok s'" "sc_running s'" "sc_submit_counter s' = sc_submit_counter s + 1"
      "sc_queue_capacity s' = sc_queue_capacity s"
    using submit_start [OF ok run, of ?j t] by fastforce
  then show ?thesis
    using d act jn len by (auto simp: distributed_def nth_set_deque every_nth_snoc)
qed

lemma distributed_submit_all:
  assumes "0 < unat n" and "length ts \<le> unat n * unat c" and "length ts \<le> 2 ^ 64"
  shows "distributed (unat n) c ts (submit_all ts (Scheduler_with_capacity n c))"
  using assms(2,3)
proof (induction ts rule: rev_induct)
  case Nil
  then show ?case
    using sched.inv_init [OF run_init_start [of n c]]
    by (auto simp: distributed_def submit_all_def every_nth_def run_inv_def run_start_def
        Scheduler_with_capacity_def sc_list_def WorkerState_new_def)
next
  case (snoc t ts)
  then show ?case
    using distributed_submit [of "unat n" c ts _ t] assms(1) by (simp add: submit_all_def)
qed

section \<open>Properties\<close>

text \<open>C38: The deque is a stack for its owner and a queue for thieves. After pushing the tasks \<open>xs\<close> into a
  new deque with room for them, \<open>k\<close> steals followed by \<open>m\<close> pops, for any \<open>k\<close> and \<open>m\<close> that do not empty
  it, return the \<open>k\<close> oldest tasks in order and then the \<open>m\<close> newest ones, newest first; one more push
  beyond the capacity fails with \<open>UblkQueueFull\<close>.\<close>

theorem deque_lifo_fifo:
  assumes "length xs \<le> unat c" and "k + m \<le> length xs"
    and "q = fold (\<lambda>x q. snd (WorkStealingDeque_push q x)) xs (WorkStealingDeque_new c)"
  shows "(let (stolen, q1) = drain WorkStealingDeque_steal k q;
              (popped, q2) = drain WorkStealingDeque_pop m q1
          in stolen = map Some (take k xs) \<and> popped = map Some (take m (rev xs)))
     \<and> unat (WorkStealingDeque_len q) = length xs
     \<and> fst (WorkStealingDeque_push q y) = (if length xs < unat c then Inr () else Inl UblkQueueFull)"
proof -
  have q: "wd_ok q" "wd_items q = xs" "wd_capacity q = c"
    using wsd.push_all [of "WorkStealingDeque_new c" xs] assms(1,3) by (auto simp: word_unat_eq_iff)
  obtain q1 where q1: "drain WorkStealingDeque_steal k q = (map Some (take k xs), q1)" "wd_ok q1"
    "wd_items q1 = drop k xs"
    using wsd.drain_steal [OF q(1), of k] q assms(2) by auto
  have "m \<le> length xs - k" using assms(2) by simp
  then obtain q2 where "drain WorkStealingDeque_pop m q1 = (map Some (take m (rev (drop k xs))), q2)"
    using wsd.drain_pop [OF q1(2), of m] q1 by auto
  moreover have "take m (rev (drop k xs)) = take m (rev xs)"
    using assms(2) by (simp add: rev_drop)
  ultimately show ?thesis
    using q q1(1) wd_len_unat [OF q(1)] wsd.push_room [OF q(1), of y] wsd.push_full [OF q(1), of y]
    by (auto simp: not_less)
qed

theorem deque_lifo_fifo_witness:
  "let q = fold (\<lambda>x q. snd (WorkStealingDeque_push q x)) [1, 2, 3, 4 :: nat] (WorkStealingDeque_new 4)
   in fst (drain WorkStealingDeque_steal 1 q) = [Some 1]
    \<and> fst (drain WorkStealingDeque_pop 2 (snd (drain WorkStealingDeque_steal 1 q))) = [Some 4, Some 3]
    \<and> fst (WorkStealingDeque_push q 5) = Inl UblkQueueFull"
  using deque_lifo_fifo [of "[1, 2, 3, 4 :: nat]" 4 1 2 _ 5, OF _ _ refl]
  by (simp add: Let_def split: prod.splits)

text \<open>The scheduler neither loses nor duplicates tasks. In every state reachable from a new scheduler
  by any sequence of submissions, pops, steals, batch steals, added workers, deactivations and stops,
  the tasks accepted so far are, as a multiset, the tasks handed out together with those waiting in the
  deques, and the identifiers returned are 0, 1, 2 and so on (modulo the counter width).\<close>

theorem scheduler_conserves_tasks:
  assumes "sched_step\<^sup>*\<^sup>* (run_start (Scheduler_with_capacity n c)) r"
  shows "mset (run_submitted r) = mset (run_delivered r) + waiting (sc_list (run_sched r))
     \<and> run_ids r = map (\<lambda>k. TaskId (word_of_nat k)) [0..<length (run_submitted r)]"
  using sched.inv_reachable [OF run_init_start assms] by (simp add: run_inv_def)

lemma run_start_sched: "run_sched (run_start s) = s"
  by (simp add: run_start_def)

lemma submit_reachable:
  assumes "sched_step\<^sup>*\<^sup>* r0 r"
  shows "\<exists>r'. sched_step\<^sup>*\<^sup>* r0 r' \<and> run_sched r' = snd (Scheduler_submit (run_sched r) x)"
proof -
  obtain i s' where sub: "Scheduler_submit (run_sched r) x = (i, s')" by fastforce
  have "\<exists>r'. sched_step r r' \<and> run_sched r' = s'"
    using sub by (cases i) (auto dest: sched_step.accept sched_step.refuse intro!: exI)
  with assms sub show ?thesis by (auto intro: rtranclp.rtrancl_into_rtrancl)
qed

lemma submit_all_reachable:
  "sched_step\<^sup>*\<^sup>* r0 r \<Longrightarrow> \<exists>r'. sched_step\<^sup>*\<^sup>* r0 r' \<and> run_sched r' = submit_all ts (run_sched r)"
proof (induction ts arbitrary: r)
  case (Cons t ts)
  obtain r1 where "sched_step\<^sup>*\<^sup>* r0 r1" "run_sched r1 = snd (Scheduler_submit (run_sched r) t)"
    using submit_reachable [OF Cons.prems] by blast
  with Cons.IH [of r1] show ?case by (simp add: submit_all_def)
qed (auto simp: submit_all_def)

definition sample_run :: "nat sched_run" where
  "sample_run =
     (let s1 = snd (Scheduler_submit (Scheduler_with_capacity 2 4) 7);
          s2 = snd (Scheduler_submit s1 8);
          s3 = snd (Scheduler_steal s2 (WorkerId 0))
      in \<lparr>run_sched = s3, run_submitted = [7, 8], run_ids = [TaskId 0, TaskId 1], run_delivered = [8]\<rparr>)"

lemma sample_run_reachable:
  "sched_step\<^sup>*\<^sup>* (run_start (Scheduler_with_capacity 2 4)) sample_run"
proof -
  let ?s0 = "Scheduler_with_capacity 2 4 :: nat Scheduler"
  let ?s1 = "snd (Scheduler_submit ?s0 7)"
  let ?s2 = "snd (Scheduler_submit ?s1 8)"
  let ?s3 = "snd (Scheduler_steal ?s2 (WorkerId 0))"
  let ?r1 = "\<lparr>run_sched = ?s1, run_submitted = [7], run_ids = [TaskId 0], run_delivered = []\<rparr>"
  let ?r2 = "\<lparr>run_sched = ?s2, run_submitted = [7, 8], run_ids = [TaskId 0, TaskId 1], run_delivered = []\<rparr>"
  have "Scheduler_submit ?s0 7 = (Some (TaskId 0), ?s1)" by code_simp
  then have "sched_step (run_start ?s0) ?r1"
    using sched_step.accept [of "run_start ?s0" 7 "TaskId 0" ?s1] by (simp add: run_start_def)
  moreover have "Scheduler_submit ?s1 8 = (Some (TaskId 1), ?s2)" by code_simp
  then have "sched_step ?r1 ?r2"
    using sched_step.accept [of ?r1 8 "TaskId 1" ?s2] by simp
  moreover have "Scheduler_steal ?s2 (WorkerId 0) = (Some 8, ?s3)" by code_simp
  then have "sched_step ?r2 sample_run"
    using sched_step.steal [of ?r2 "WorkerId 0" "Some 8" ?s3] by (simp add: sample_run_def Let_def given_def)
  ultimately show ?thesis by (meson converse_rtranclp_into_rtranclp rtranclp.rtrancl_refl)
qed

theorem scheduler_conserves_tasks_witness:
  "mset [7, 8] = mset [8] + waiting (sc_list (run_sched sample_run))"
  using scheduler_conserves_tasks [OF sample_run_reachable] by (simp add: sample_run_def Let_def)

text \<open>C21: When a submission is accepted. In every reachable state, \<^verbatim>\<open>submit\<close> returns an identifier exactly
  when the scheduler is running and some active worker's deque has fewer tasks than the queue capacity;
  the task is then appended to the deque of such a worker, and otherwise no deque changes.\<close>

theorem scheduler_submit_accepts_iff:
  assumes "sched_step\<^sup>*\<^sup>* (run_start (Scheduler_with_capacity n c)) r" and "s = run_sched r"
    and "Scheduler_submit s x = (i, s')"
  shows "(i \<noteq> None \<longleftrightarrow> Scheduler_is_running s \<and>
            (\<exists>w \<in> set (sc_list s). ws_active w \<and> length (wd_items (ws_deque w)) < unat (sc_queue_capacity s)))
     \<and> (if i = None then sc_list s' = sc_list s
        else \<exists>j q. j < length (sc_list s) \<and> ws_active (sc_list s ! j)
               \<and> wd_items q = wd_items (ws_deque (sc_list s ! j)) @ [x]
               \<and> sc_list s' = set_deque (sc_list s) j q)"
proof -
  have ok: "sched_ok s" using run_ok [OF run_init_start assms(1)] assms(2) by simp
  have space: "has_space w \<longleftrightarrow> ws_active w \<and> length (wd_items (ws_deque w)) < unat (sc_queue_capacity s)"
    if "w \<in> set (sc_list s)" for w
    using ok that by (subst has_space_iff) (auto simp: sched_ok_def workers_ok_def)
  show ?thesis
  proof (cases "sc_running s \<and> (\<exists>w \<in> set (sc_list s). has_space w)")
    case True
    then obtain j q where "i = Some (TaskId (sc_next_task_id s))" "j < length (sc_list s)"
      "has_space (sc_list s ! j)" "wd_items q = wd_items (ws_deque (sc_list s ! j)) @ [x]"
      "sc_list s' = set_deque (sc_list s) j q"
      using submit_accepts [OF ok, of x] assms(3) by auto
    with True space show ?thesis by (auto simp: Scheduler_is_running_def has_space_def)
  next
    case False
    with submit_rejects [OF ok, of x] assms(3) space show ?thesis
      by (auto simp: Scheduler_is_running_def)
  qed
qed

theorem scheduler_submit_accepts_iff_witness:
  "fst (Scheduler_submit (Scheduler_with_capacity 1 0) (5 :: nat)) = None"
proof -
  let ?s = "Scheduler_with_capacity 1 0 :: nat Scheduler"
  have "\<forall>w \<in> set (sc_list ?s). wd_items (ws_deque w) = [] \<and> sc_queue_capacity ?s = 0"
    by (auto simp: Scheduler_with_capacity_def sc_list_def WorkerState_new_def)
  then show ?thesis
    using scheduler_submit_accepts_iff [OF rtranclp.rtrancl_refl, of ?s 1 0 5
        "fst (Scheduler_submit ?s 5)" "snd (Scheduler_submit ?s 5)"]
    by (auto simp: run_start_def Scheduler_with_capacity_def)
qed

text \<open>C22: What a thief gets. In every reachable state, \<^verbatim>\<open>steal\<close> by an existing worker returns \<open>None\<close>
  exactly when no other active worker has a task; otherwise it returns the oldest task of some other
  active worker, removes just that task, and leaves every other deque as it was.\<close>

theorem scheduler_steal_oldest:
  assumes "sched_step\<^sup>*\<^sup>* (run_start (Scheduler_with_capacity n c)) r" and "s = run_sched r"
    and "t = unat (WorkerId_as_u32 w)" and "t < length (sc_list s)"
    and "Scheduler_steal s w = (x, s')"
  shows "(x = None \<longleftrightarrow> (\<forall>v < length (sc_list s). v \<noteq> t \<longrightarrow> \<not> stealable (sc_list s ! v)))
     \<and> (case x of
          None \<Rightarrow> sc_list s' = sc_list s
        | Some task \<Rightarrow> \<exists>v < length (sc_list s). v \<noteq> t \<and> stealable (sc_list s ! v)
            \<and> wd_items (ws_deque (sc_list s ! v)) = task # wd_items (ws_deque (sc_list s' ! v))
            \<and> (\<forall>u. u \<noteq> v \<longrightarrow> sc_list s' ! u = sc_list s ! u))"
proof -
  have ok: "sched_ok s" using run_ok [OF run_init_start assms(1)] assms(2) by simp
  show ?thesis
  proof (cases "steal_victim (sc_list s) t")
    case None
    then show ?thesis
      using steal_behaviour [OF ok assms(3)] steal_victim_None [OF assms(4)] assms(5) by auto
  next
    case (Some v)
    have v: "v < length (sc_list s)" "v \<noteq> t" "stealable (sc_list s ! v)"
      using steal_victim_Some [OF Some] by auto
    with steal_behaviour [OF ok assms(3)] Some assms(5) show ?thesis
      by (auto simp: nth_set_deque stealable_def intro!: exI [of _ v])
  qed
qed

theorem scheduler_steal_oldest_witness:
  "fst (Scheduler_steal (run_sched sample_run) (WorkerId 1)) = Some 7"
proof -
  let ?s = "run_sched sample_run"
  have len: "length (sc_list ?s) = 2" and w0: "stealable (sc_list ?s ! 0)" "wd_items (ws_deque (sc_list ?s ! 0)) = [7]"
    by code_simp+
  obtain x s' where x: "Scheduler_steal ?s (WorkerId 1) = (x, s')" by fastforce
  have t: "unat (WorkerId_as_u32 (WorkerId 1)) = 1" by simp
  from scheduler_steal_oldest [OF sample_run_reachable refl t [symmetric] _ x] len w0 x show ?thesis
    by (cases x) (auto simp: less_Suc_eq numeral_2_eq_2)
qed

text \<open>C26: What a batch steal takes. In every reachable state with at least two workers, \<^verbatim>\<open>steal_batch\<close> by
  an existing worker either finds no other active worker with a task and takes nothing, or takes the
  older half (rounded down) of a deque that is longest among those of the other active workers, in
  order, and leaves every other deque as it was.\<close>

theorem scheduler_steal_batch_half_of_busiest:
  assumes "sched_step\<^sup>*\<^sup>* (run_start (Scheduler_with_capacity n c)) r" and "s = run_sched r"
    and "t = unat (WorkerId_as_u32 w)" and "t < length (sc_list s)" and "1 < length (sc_list s)"
    and "Scheduler_steal_batch s w = (xs, s')"
  shows "if \<forall>v < length (sc_list s). v \<noteq> t \<longrightarrow> \<not> stealable (sc_list s ! v)
     then xs = [] \<and> s' = s
     else \<exists>v < length (sc_list s). v \<noteq> t \<and> stealable (sc_list s ! v)
        \<and> (\<forall>u < length (sc_list s). u \<noteq> t \<and> ws_active (sc_list s ! u) \<longrightarrow>
             length (wd_items (ws_deque (sc_list s ! u))) \<le> length (wd_items (ws_deque (sc_list s ! v))))
        \<and> xs = take (length (wd_items (ws_deque (sc_list s ! v))) div 2) (wd_items (ws_deque (sc_list s ! v)))
        \<and> wd_items (ws_deque (sc_list s ! v)) = xs @ wd_items (ws_deque (sc_list s' ! v))
        \<and> (\<forall>u. u \<noteq> v \<longrightarrow> sc_list s' ! u = sc_list s ! u)"
proof -
  have ok: "sched_ok s" using run_ok [OF run_init_start assms(1)] assms(2) by simp
  then have wok: "workers_ok (sc_queue_capacity s) (sc_list s)" by (simp add: sched_ok_def)
  show ?thesis
  proof (cases "fst (fold (busier t) (List.enumerate 0 (sc_list s)) (None, 0))")
    case None
    then show ?thesis
      using busiest_worker [OF wok refl, of t] assms(3-6) ok
      by (auto simp: Scheduler_steal_batch_def Let_def sc_list_def [symmetric] sched_ok_def)
  next
    case (Some v)
    have v: "v < length (sc_list s)" "v \<noteq> t" "stealable (sc_list s ! v)"
      "\<forall>u < length (sc_list s). u \<noteq> t \<and> ws_active (sc_list s ! u) \<longrightarrow>
         length (wd_items (ws_deque (sc_list s ! u))) \<le> length (wd_items (ws_deque (sc_list s ! v)))"
      using busiest_worker [OF wok Some] by simp_all
    with steal_batch_behaviour [OF ok assms(3-5) Some refl] assms(6) show ?thesis
      by (auto simp: nth_set_deque intro!: exI [of _ v])
  qed
qed

theorem scheduler_steal_batch_half_of_busiest_witness:
  "fst (Scheduler_steal_batch (submit_all [7, 8, 9, 10 :: nat] (Scheduler_with_capacity 2 4)) (WorkerId 1)) = [7]"
proof -
  let ?s = "submit_all [7, 8, 9, 10 :: nat] (Scheduler_with_capacity 2 4)"
  obtain r where r: "sched_step\<^sup>*\<^sup>* (run_start (Scheduler_with_capacity 2 4)) r" "?s = run_sched r"
    using submit_all_reachable [OF rtranclp.rtrancl_refl] by (metis run_start_sched)
  obtain xs s' where x: "Scheduler_steal_batch ?s (WorkerId 1) = (xs, s')" by fastforce
  have len: "length (sc_list ?s) = 2" and w: "stealable (sc_list ?s ! 0)" "wd_items (ws_deque (sc_list ?s ! 0)) = [7, 9]"
    by code_simp+
  have t: "unat (WorkerId_as_u32 (WorkerId 1)) = 1" by simp
  have "\<not> (\<forall>v < length (sc_list ?s). v \<noteq> 1 \<longrightarrow> \<not> stealable (sc_list ?s ! v))"
    using len w(1) by (auto intro!: exI [of _ 0])
  then obtain v where "v < 2" "v \<noteq> 1" and v: "xs = take (length (wd_items (ws_deque (sc_list ?s ! v))) div 2)
      (wd_items (ws_deque (sc_list ?s ! v)))"
    using scheduler_steal_batch_half_of_busiest [OF r t [symmetric] _ _ x] len
    unfolding if_not_P by (metis one_less_numeral_iff semiring_norm(76))
  then have "v = 0" by simp
  with v w(2) x show ?thesis by simp
qed

text \<open>A deactivated worker's tasks cannot be stolen. In every reachable state, neither \<^verbatim>\<open>steal\<close> nor
  \<^verbatim>\<open>steal_batch\<close>, by any worker, changes the deque of an inactive worker: its tasks stay there until
  that worker pops them itself.\<close>

lemma scheduler_inactive_not_stolen:
  assumes "sched_step\<^sup>*\<^sup>* (run_start (Scheduler_with_capacity n c)) r" and "s = run_sched r"
    and "v < length (sc_list s)" and "\<not> ws_active (sc_list s ! v)"
  shows "sc_list (snd (Scheduler_steal s w)) ! v = sc_list s ! v
     \<and> sc_list (snd (Scheduler_steal_batch s w)) ! v = sc_list s ! v"
proof
  have ok: "sched_ok s" using run_ok [OF run_init_start assms(1)] assms(2) by simp
  then have wok: "workers_ok (sc_queue_capacity s) (sc_list s)" by (simp add: sched_ok_def)
  let ?t = "unat (WorkerId_as_u32 w)"
  show "sc_list (snd (Scheduler_steal s w)) ! v = sc_list s ! v"
    using steal_behaviour [OF ok refl, of w] steal_victim_Some [of "sc_list s" ?t] assms(4)
    by (cases "steal_victim (sc_list s) ?t") (auto simp: nth_set_deque stealable_def)
  show "sc_list (snd (Scheduler_steal_batch s w)) ! v = sc_list s ! v"
  proof (cases "?t < length (sc_list s) \<and> 1 < length (sc_list s)")
    case True
    then show ?thesis
      using steal_batch_behaviour [OF ok refl _ _ _ refl, of w] busiest_worker [OF wok refl, of ?t] assms(4) ok
      by (cases "fst (fold (busier ?t) (List.enumerate 0 (sc_list s)) (None, 0))")
         (fastforce simp: nth_set_deque stealable_def Scheduler_steal_batch_def Let_def sched_ok_def
            sc_list_def [symmetric])+
  qed (use ok in \<open>auto simp: Scheduler_steal_batch_def Let_def sched_ok_def sc_list_def [symmetric]\<close>)
qed

definition stranded_run :: "nat sched_run" where
  "stranded_run = sample_run\<lparr>run_sched := snd (Scheduler_deactivate_worker (run_sched sample_run) (WorkerId 0))\<rparr>"

lemma stranded_run_reachable:
  "sched_step\<^sup>*\<^sup>* (run_start (Scheduler_with_capacity 2 4)) stranded_run"
  using sample_run_reachable sched_step.deactivate [of sample_run "WorkerId 0"]
  by (metis rtranclp.rtrancl_into_rtrancl stranded_run_def prod.collapse)

lemma scheduler_inactive_not_stolen_witness:
  "wd_items (ws_deque (sc_list (snd (Scheduler_steal (run_sched stranded_run) (WorkerId 1))) ! 0)) = [7]"
proof -
  let ?s = "run_sched stranded_run"
  have "0 < length (sc_list ?s)" "\<not> ws_active (sc_list ?s ! 0)" "wd_items (ws_deque (sc_list ?s ! 0)) = [7]"
    by code_simp+
  with scheduler_inactive_not_stolen [OF stranded_run_reachable refl, of 0 "WorkerId 1"] show ?thesis
    by simp
qed

text \<open>Round-robin distribution. Submitting a list of tasks to a new scheduler with \<open>n\<close> workers, as many
  as fit into their deques, puts exactly the tasks number \<open>j\<close>, \<open>j + n\<close>, \<open>j + 2 n\<close> and so on into the
  deque of worker \<open>j\<close>, oldest first.\<close>

theorem scheduler_round_robin:
  assumes "j < unat n" and "length ts \<le> unat n * unat c" and "length ts \<le> 2 ^ 64"
  shows "wd_items (ws_deque (sc_list (submit_all ts (Scheduler_with_capacity n c)) ! j)) = every_nth (unat n) j ts"
  using distributed_submit_all [OF _ assms(2,3)] assms(1) by (auto simp: distributed_def)

theorem scheduler_round_robin_witness:
  "wd_items (ws_deque (sc_list (submit_all [10, 11, 12, 13, 14 :: nat] (Scheduler_with_capacity 2 8)) ! 0)) = [10, 12, 14]"
proof -
  have "every_nth 2 0 [10, 11, 12, 13, 14 :: nat] = [10, 12, 14]" by code_simp
  then show ?thesis
    using scheduler_round_robin [of 0 2 "[10, 11, 12, 13, 14 :: nat]" 8] by simp
qed

end
