(* ===== verification/Pepita_Concurrent_Scheduler.thy ===== *)
theory Pepita_Concurrent_Scheduler
  imports Pepita_Work_Stealing
begin

text \<open>
  The scheduler under concurrent calls.  The methods of \<^verbatim>\<open>src/src/scheduler.rs\<close> take \<^verbatim>\<open>&self\<close>, and only
  the deque operations exclude each other: a \<^verbatim>\<open>submit\<close> loads the flag \<^verbatim>\<open>running\<close>, takes the read lock on the
  vector of workers, advances the round-robin counter, loads activity flags and lengths one by one, pushes,
  and draws an identifier, and calls of other threads may fall between any two of these.

  A thread is at a program point (\<open>pc\<close>), and \<open>advance\<close> performs its next access to the shared state.  An
  operation of a deque is one access: the list and its atomic length change under the deque's mutex, and
  nothing but the length is visible outside it.  A program point after \<^verbatim>\<open>self.workers.read()\<close> holds the read
  lock, so that \<^verbatim>\<open>add_worker\<close>, which needs the write lock, waits for it.
\<close>

section \<open>Program points and accesses\<close>

datatype 'a pc =
    Idle
  | Submit_running 'a
  | Submit_lock 'a
  | Submit_counter 'a
  | Submit_active 'a "nat list"
  | Submit_len 'a nat "nat list"
  | Submit_push 'a nat
  | Submit_number
  | Pop_lock WorkerId
  | Pop_take nat
  | Steal_lock WorkerId
  | Steal_active "nat list"
  | Steal_take nat "nat list"
  | Batch_lock WorkerId
  | Batch_active nat "nat list" "nat option" usize
  | Batch_len nat nat "nat list" "nat option" usize
  | Batch_take nat

text \<open>What an access does to the tasks: one is pushed, an identifier is returned, a submission returns
  \<^verbatim>\<open>None\<close> and drops its task, or a call returns tasks.\<close>

datatype 'a event = Silent | Pushed 'a | Numbered TaskId | Refused 'a | Taken "'a list"

text \<open>The candidates that \<^verbatim>\<open>find\<close> still has to try; when there are none, \<^verbatim>\<open>?\<close> returns \<^verbatim>\<open>None\<close>.\<close>

definition try_next :: "'a \<Rightarrow> nat list \<Rightarrow> 'a pc \<times> 'a event" where
  "try_next task idxs = (if idxs = [] then (Idle, Refused task) else (Submit_active task idxs, Silent))"

definition steal_next :: "nat list \<Rightarrow> 'a pc \<times> 'a event" where
  "steal_next victims = (if victims = [] then (Idle, Taken []) else (Steal_active victims, Silent))"

definition batch_next :: "nat \<Rightarrow> nat list \<Rightarrow> nat option \<Rightarrow> usize \<Rightarrow> 'a pc \<times> 'a event" where
  "batch_next thief idxs busiest max_len =
     (if idxs \<noteq> [] then (Batch_active thief idxs busiest max_len, Silent)
      else case busiest of None \<Rightarrow> (Idle, Taken []) | Some idx \<Rightarrow> (Batch_take idx, Silent))"

fun advance :: "'a Scheduler \<Rightarrow> 'a pc \<Rightarrow> 'a Scheduler \<times> 'a pc \<times> 'a event" where
  "advance s Idle = (s, Idle, Silent)"
| "advance s (Submit_running task) =
     (s, if sc_running s then (Submit_lock task, Silent) else (Idle, Refused task))"
| "advance s (Submit_lock task) =
     (s, if poisoned (sc_workers s) \<or> contents (sc_workers s) = [] then (Idle, Refused task)
         else (Submit_counter task, Silent))"
| "advance s (Submit_counter task) =
     (let n = length (contents (sc_workers s)); start = unat (sc_submit_counter s) mod n
      in (s\<lparr>sc_submit_counter := sc_submit_counter s + 1\<rparr>,
          try_next task (map (\<lambda>i. (start + i) mod n) [0..<n])))"
| "advance s (Submit_active task idxs) =
     (s, case idxs of [] \<Rightarrow> (Idle, Refused task)
         | idx # rest \<Rightarrow> if ws_active (contents (sc_workers s) ! idx) then (Submit_len task idx rest, Silent)
                        else try_next task rest)"
| "advance s (Submit_len task idx rest) =
     (let q = ws_deque (contents (sc_workers s) ! idx)
      in (s, if WorkStealingDeque_len q < WorkStealingDeque_capacity q then (Submit_push task idx, Silent)
             else try_next task rest))"
| "advance s (Submit_push task idx) =
     (let workers = contents (sc_workers s)
      in case WorkStealingDeque_push (ws_deque (workers ! idx)) task of
           (Inl _, q) \<Rightarrow> (set_workers s (set_deque workers idx q), Idle, Refused task)
         | (Inr _, q) \<Rightarrow> (set_workers s (set_deque workers idx q), Submit_number, Pushed task))"
| "advance s Submit_number =
     (s\<lparr>sc_next_task_id := sc_next_task_id s + 1\<rparr>, Idle, Numbered (TaskId (sc_next_task_id s)))"
| "advance s (Pop_lock worker_id) =
     (let idx = unat (WorkerId_as_u32 worker_id)
      in (s, if poisoned (sc_workers s) \<or> length (contents (sc_workers s)) \<le> idx then (Idle, Taken [])
             else (Pop_take idx, Silent)))"
| "advance s (Pop_take idx) =
     (let workers = contents (sc_workers s)
      in case WorkStealingDeque_pop (ws_deque (workers ! idx)) of
           (r, q) \<Rightarrow> (set_workers s (set_deque workers idx q), Idle, Taken (given r)))"
| "advance s (Steal_lock thief_id) =
     (let n = length (contents (sc_workers s)); thief = unat (WorkerId_as_u32 thief_id)
      in (s, if poisoned (sc_workers s) \<or> n \<le> 1 \<or> n \<le> thief then (Idle, Taken [])
             else steal_next (map (\<lambda>offset. (thief + offset) mod n) [1..<n])))"
| "advance s (Steal_active victims) =
     (s, case victims of [] \<Rightarrow> (Idle, Taken [])
         | v # rest \<Rightarrow> if ws_active (contents (sc_workers s) ! v) then (Steal_take v rest, Silent)
                      else steal_next rest)"
| "advance s (Steal_take v rest) =
     (let workers = contents (sc_workers s)
      in case WorkStealingDeque_steal (ws_deque (workers ! v)) of
           (Some task, q) \<Rightarrow> (set_workers s (set_deque workers v q), Idle, Taken [task])
         | (None, q) \<Rightarrow> (set_workers s (set_deque workers v q), steal_next rest))"
| "advance s (Batch_lock thief_id) =
     (let n = length (contents (sc_workers s)); thief = unat (WorkerId_as_u32 thief_id)
      in (s, if poisoned (sc_workers s) \<or> n \<le> 1 \<or> n \<le> thief then (Idle, Taken [])
             else batch_next thief [0..<n] None 0))"
| "advance s (Batch_active thief idxs busiest max_len) =
     (s, case idxs of [] \<Rightarrow> batch_next thief [] busiest max_len
         | idx # rest \<Rightarrow> if idx \<noteq> thief \<and> ws_active (contents (sc_workers s) ! idx)
                        then (Batch_len thief idx rest busiest max_len, Silent)
                        else batch_next thief rest busiest max_len)"
| "advance s (Batch_len thief idx rest busiest max_len) =
     (let len = WorkStealingDeque_len (ws_deque (contents (sc_workers s) ! idx))
      in (s, if max_len < len then batch_next thief rest (Some idx) len
             else batch_next thief rest busiest max_len))"
| "advance s (Batch_take idx) =
     (let workers = contents (sc_workers s)
      in case WorkStealingDeque_steal_half (ws_deque (workers ! idx)) of
           (stolen, q) \<Rightarrow> (set_workers s (set_deque workers idx q), Idle, Taken stolen))"

text \<open>The points at which a call starts, and those at which the read lock is held.\<close>

fun call_start :: "'a pc \<Rightarrow> bool" where
  "call_start (Submit_running _) = True"
| "call_start (Pop_lock _) = True"
| "call_start (Steal_lock _) = True"
| "call_start (Batch_lock _) = True"
| "call_start _ = False"

fun reading :: "'a pc \<Rightarrow> bool" where
  "reading Idle = False"
| "reading (Submit_running _) = False"
| "reading (Submit_lock _) = False"
| "reading (Pop_lock _) = False"
| "reading (Steal_lock _) = False"
| "reading (Batch_lock _) = False"
| "reading _ = True"

section \<open>Interleavings\<close>

text \<open>Any number of threads on one scheduler, with the tasks pushed, the identifiers returned, the tasks of
  refused submissions and the tasks handed out so far.\<close>

record 'a system =
  sys_sched :: "'a Scheduler"
  sys_threads :: "'a pc list"
  sys_pushed :: "'a list"
  sys_ids :: "TaskId list"
  sys_refused :: "'a list"
  sys_taken :: "'a list"

fun log_event :: "'a event \<Rightarrow> 'a system \<Rightarrow> 'a system" where
  "log_event Silent c = c"
| "log_event (Pushed x) c = c\<lparr>sys_pushed := sys_pushed c @ [x]\<rparr>"
| "log_event (Numbered i) c = c\<lparr>sys_ids := sys_ids c @ [i]\<rparr>"
| "log_event (Refused x) c = c\<lparr>sys_refused := sys_refused c @ [x]\<rparr>"
| "log_event (Taken xs) c = c\<lparr>sys_taken := sys_taken c @ xs\<rparr>"

definition advance_thread :: "nat \<Rightarrow> 'a system \<Rightarrow> 'a system" where
  "advance_thread t c = (case advance (sys_sched c) (sys_threads c ! t) of
     (s, p, e) \<Rightarrow> log_event e (c\<lparr>sys_sched := s, sys_threads := (sys_threads c)[t := p]\<rparr>))"

inductive sys_step :: "'a system \<Rightarrow> 'a system \<Rightarrow> bool" where
  call: "t < length (sys_threads c) \<Longrightarrow> sys_threads c ! t = Idle \<Longrightarrow> call_start p \<Longrightarrow>
     sys_step c (c\<lparr>sys_threads := (sys_threads c)[t := p]\<rparr>)"
| access: "t < length (sys_threads c) \<Longrightarrow> sys_step c (advance_thread t c)"
| add_worker: "\<forall>p \<in> set (sys_threads c). \<not> reading p \<Longrightarrow> Scheduler_add_worker (sys_sched c) = (w, s) \<Longrightarrow>
     sys_step c (c\<lparr>sys_sched := s\<rparr>)"
| deactivate: "Scheduler_deactivate_worker (sys_sched c) w = (b, s) \<Longrightarrow> sys_step c (c\<lparr>sys_sched := s\<rparr>)"
| stop: "sys_step c (c\<lparr>sys_sched := Scheduler_stop (sys_sched c)\<rparr>)"

definition sys_start :: "'a Scheduler \<Rightarrow> nat \<Rightarrow> 'a system" where
  "sys_start s k = \<lparr>sys_sched = s, sys_threads = replicate k Idle, sys_pushed = [], sys_ids = [],
     sys_refused = [], sys_taken = []\<rparr>"

definition sys_init :: "'a system \<Rightarrow> bool" where
  "sys_init c \<longleftrightarrow> (\<exists>n q k. c = sys_start (Scheduler_with_capacity n q) k)"

section \<open>The invariant\<close>

text \<open>Every worker index a thread carries is within the vector, which only grows when no thread reads it.\<close>

fun indices :: "'a pc \<Rightarrow> nat set" where
  "indices (Submit_active _ idxs) = set idxs"
| "indices (Submit_len _ i idxs) = insert i (set idxs)"
| "indices (Submit_push _ i) = {i}"
| "indices (Pop_take i) = {i}"
| "indices (Steal_active vs) = set vs"
| "indices (Steal_take v vs) = insert v (set vs)"
| "indices (Batch_active _ idxs b _) = set idxs \<union> set_option b"
| "indices (Batch_len _ i idxs b _) = insert i (set idxs \<union> set_option b)"
| "indices (Batch_take i) = {i}"
| "indices _ = {}"

definition in_range :: "nat \<Rightarrow> 'a pc \<Rightarrow> bool" where
  "in_range n p \<longleftrightarrow> indices p \<subseteq> {..<n} \<and> (\<forall>x. p = Submit_counter x \<longrightarrow> 0 < n)"

fun is_numbering :: "'a pc \<Rightarrow> bool" where
  "is_numbering Submit_number = True"
| "is_numbering _ = False"

definition sys_inv :: "'a system \<Rightarrow> bool" where
  "sys_inv c \<longleftrightarrow> sched_ok (sys_sched c)
     \<and> (\<forall>p \<in> set (sys_threads c). in_range (length (sc_list (sys_sched c))) p)
     \<and> mset (sys_pushed c) = mset (sys_taken c) + waiting (sc_list (sys_sched c))
     \<and> sys_ids c = map (\<lambda>k. TaskId (word_of_nat k)) [0..<length (sys_ids c)]
     \<and> sc_next_task_id (sys_sched c) = word_of_nat (length (sys_ids c))
     \<and> length (sys_pushed c) = length (sys_ids c) + length (filter is_numbering (sys_threads c))"

text \<open>What an access may do, as seen by the invariant.\<close>

definition effect :: "'a Scheduler \<Rightarrow> 'a pc \<Rightarrow> 'a Scheduler \<Rightarrow> 'a pc \<Rightarrow> 'a event \<Rightarrow> bool" where
  "effect s p s' p' e \<longleftrightarrow> sched_ok s' \<and> length (sc_list s') = length (sc_list s)
     \<and> in_range (length (sc_list s)) p'
     \<and> (case e of
          Pushed x \<Rightarrow> waiting (sc_list s') = waiting (sc_list s) + {#x#}
            \<and> sc_next_task_id s' = sc_next_task_id s \<and> \<not> is_numbering p \<and> is_numbering p'
        | Numbered i \<Rightarrow> waiting (sc_list s') = waiting (sc_list s) \<and> i = TaskId (sc_next_task_id s)
            \<and> sc_next_task_id s' = sc_next_task_id s + 1 \<and> is_numbering p \<and> \<not> is_numbering p'
        | Taken xs \<Rightarrow> waiting (sc_list s) = waiting (sc_list s') + mset xs
            \<and> sc_next_task_id s' = sc_next_task_id s \<and> \<not> is_numbering p \<and> \<not> is_numbering p'
        | _ \<Rightarrow> waiting (sc_list s') = waiting (sc_list s)
            \<and> sc_next_task_id s' = sc_next_task_id s \<and> \<not> is_numbering p \<and> \<not> is_numbering p')"

lemma effect_quiet:
  assumes "sched_ok s" and "in_range (length (sc_list s)) p'" and "\<not> is_numbering p" and "\<not> is_numbering p'"
    and "e = Silent \<or> e = Taken [] \<or> (\<exists>x. e = Refused x)"
  shows "effect s p s p' e"
  using assms by (auto simp: effect_def)

lemma effect_takes:
  assumes "takes s s' xs" and "length (sc_list s') = length (sc_list s)"
    and "in_range (length (sc_list s)) p'" and "\<not> is_numbering p" and "\<not> is_numbering p'"
  shows "effect s p s' p' (Taken xs)"
  using assms by (auto simp: effect_def takes_def)

lemma next_effect:
  assumes "sched_ok s" and "\<not> is_numbering p" and "set idxs \<subseteq> {..<length (sc_list s)}"
  shows "try_next x idxs = (p', e) \<Longrightarrow> effect s p s p' e"
    and "steal_next idxs = (p', e) \<Longrightarrow> effect s p s p' e"
    and "set_option b \<subseteq> {..<length (sc_list s)} \<Longrightarrow> batch_next t idxs b m = (p', e) \<Longrightarrow> effect s p s p' e"
  using assms
  by (auto simp: try_next_def steal_next_def batch_next_def in_range_def intro!: effect_quiet
      split: if_splits option.splits)

lemma deque_of:
  assumes "sched_ok s" and "i < length (sc_list s)"
  shows "wd_ok (ws_deque (sc_list s ! i)) \<and> wd_capacity (ws_deque (sc_list s ! i)) = sc_queue_capacity s"
  using assms workers_ok_nth by (auto simp: sched_ok_def)

lemma deque_takes:
  assumes "sched_ok s" and "i < length (sc_list s)"
    and "wd_ok q \<and> unat (wd_capacity q) = unat (wd_capacity (ws_deque (sc_list s ! i)))
       \<and> mset (wd_items (ws_deque (sc_list s ! i))) = mset (wd_items q) + mset xs"
  shows "takes s (set_workers s (set_deque (sc_list s) i q)) xs"
  using assms by (intro takes_deque) (auto simp: word_unat_eq_iff)

lemma set_workers_same [simp]: "set_workers s (sc_list s) = s"
  by (simp add: set_workers_def sc_list_def)

lemma set_workers_twice: "set_workers (set_workers s ws) ws' = set_workers s ws'"
  by (simp add: set_workers_def)

lemma push_effect:
  assumes ok: "sched_ok s" and i: "i < length (sc_list s)"
    and a: "advance s (Submit_push x i) = (s', p', e)"
  shows "effect s (Submit_push x i) s' p' e"
proof (cases "length (wd_items (ws_deque (sc_list s ! i))) < unat (wd_capacity (ws_deque (sc_list s ! i)))")
  case True
  then obtain q where q: "WorkStealingDeque_push (ws_deque (sc_list s ! i)) x = (Inr (), q)" "wd_ok q"
    "wd_capacity q = sc_queue_capacity s" "wd_items q = wd_items (ws_deque (sc_list s ! i)) @ [x]"
    using wsd.push_room deque_of [OF ok i] by (metis word_unat_eq_iff)
  then have "sched_ok (set_workers s (set_deque (sc_list s) i q))"
    using ok by (intro sched_ok_set_workers) (auto simp: sched_ok_def workers_ok_set_deque)
  with q a waiting_push [OF i q(4)] show ?thesis
    by (auto simp: effect_def in_range_def simp flip: sc_list_def)
next
  case False
  then have "WorkStealingDeque_push (ws_deque (sc_list s ! i)) x = (Inl UblkQueueFull, ws_deque (sc_list s ! i))"
    using wsd.push_full [of "ws_deque (sc_list s ! i)" x] deque_of [OF ok i] by simp
  then show ?thesis
    using a ok i by (auto simp: in_range_def simp flip: sc_list_def intro!: effect_quiet)
qed

lemma steal_take_effect:
  assumes ok: "sched_ok s" and r: "in_range (length (sc_list s)) (Steal_take v rest)"
    and a: "advance s (Steal_take v rest) = (s', p', e)"
  shows "effect s (Steal_take v rest) s' p' e"
proof -
  have v: "v < length (sc_list s)" "set rest \<subseteq> {..<length (sc_list s)}"
    using r by (auto simp: in_range_def)
  obtain o1 q where q: "WorkStealingDeque_steal (ws_deque (sc_list s ! v)) = (o1, q)" by fastforce
  note m = wsd.steal_mset [OF conjunct1 [OF deque_of [OF ok v(1)]] q]
  have t: "takes s (set_workers s (set_deque (sc_list s) v q)) (case o1 of None \<Rightarrow> [] | Some x \<Rightarrow> [x])"
    using m by (intro deque_takes [OF ok v(1)]) simp
  show ?thesis
  proof (cases o1)
    case None
    have "effect s (Steal_take v rest) s p' e" if "steal_next rest = (p', e)" for p' e
      using next_effect(2) [OF ok _ v(2) that] by simp
    with None t a q show ?thesis
      by (auto simp: effect_def takes_def simp flip: sc_list_def split: event.splits)
  next
    case (Some x)
    with t a q show ?thesis
      by (auto simp: in_range_def simp flip: sc_list_def intro!: effect_takes)
  qed
qed

lemma advance_effect:
  assumes ok: "sched_ok s" and r: "in_range (length (sc_list s)) p" and a: "advance s p = (s', p', e)"
  shows "effect s p s' p' e"
proof (cases p)
  case (Submit_counter x)
  let ?n = "length (sc_list s)" and ?s = "s\<lparr>sc_submit_counter := sc_submit_counter s + 1\<rparr>"
  let ?idxs = "map (\<lambda>i. (unat (sc_submit_counter s) mod ?n + i) mod ?n) [0..<?n]"
  have idxs: "set ?idxs \<subseteq> {..<?n}"
    using r by (auto simp: Submit_counter in_range_def)
  have s': "s' = ?s" and "try_next x ?idxs = (p', e)"
    using a by (simp_all add: Submit_counter Let_def flip: sc_list_def)
  from next_effect(1) [of ?s p, OF _ _ _ this(2)] idxs ok have "effect ?s p ?s p' e"
    by (simp add: Submit_counter)
  then show ?thesis
    unfolding s' by (cases e) (simp_all add: effect_def)
next
  case (Submit_push x i)
  then show ?thesis using push_effect [OF ok] r a by (auto simp: in_range_def)
next
  case (Pop_take i)
  then have i: "i < length (sc_list s)" using r by (auto simp: in_range_def)
  obtain o1 q where q: "WorkStealingDeque_pop (ws_deque (sc_list s ! i)) = (o1, q)" by fastforce
  from wsd.pop_mset [OF conjunct1 [OF deque_of [OF ok i]] q] a q show ?thesis
    by (auto simp: Pop_take given_def in_range_def simp flip: sc_list_def intro!: effect_takes deque_takes [OF ok i])
next
  case (Steal_lock w)
  let ?n = "length (sc_list s)" and ?t = "unat (WorkerId_as_u32 w)"
  have "set (map (\<lambda>offset. (?t + offset) mod ?n) [1..<?n]) \<subseteq> {..<?n}"
    by (auto intro!: mod_less_divisor simp del: length_greater_0_conv)
  from next_effect(2) [OF ok _ this, of p] ok a show ?thesis
    by (auto simp: Steal_lock Let_def in_range_def simp flip: sc_list_def intro: effect_quiet split: if_splits)
next
  case (Steal_take v rest)
  then show ?thesis using steal_take_effect [OF ok] r a by auto
next
  case (Batch_take i)
  then have i: "i < length (sc_list s)" using r by (auto simp: in_range_def)
  obtain xs q where q: "WorkStealingDeque_steal_half (ws_deque (sc_list s ! i)) = (xs, q)" by fastforce
  from wsd.steal_half_mset [OF conjunct1 [OF deque_of [OF ok i]] q] a q show ?thesis
    by (auto simp: Batch_take in_range_def simp flip: sc_list_def intro!: effect_takes deque_takes [OF ok i])
next
  case Submit_number
  then show ?thesis using a ok by (auto simp: effect_def in_range_def)
qed (use a ok r in \<open>auto simp: Let_def in_range_def try_next_def steal_next_def batch_next_def
      simp flip: sc_list_def intro!: effect_quiet split: if_splits list.splits option.splits\<close>)

text \<open>Replacing one thread, and the number of threads that have still to draw an identifier.\<close>

lemma filter_list_update:
  "t < length ps \<Longrightarrow> length (filter P (ps[t := p])) + (if P (ps ! t) then 1 else 0)
     = length (filter P ps) + (if P p then 1 else 0)"
proof (induction ps arbitrary: t)
  case (Cons q ps)
  then show ?case by (cases t) auto
qed simp

lemma access_inv:
  assumes inv: "sys_inv c" and t: "t < length (sys_threads c)"
  shows "sys_inv (advance_thread t c)"
proof -
  let ?p = "sys_threads c ! t" and ?n = "length (sc_list (sys_sched c))"
  obtain s' p' e where a: "advance (sys_sched c) ?p = (s', p', e)" by (metis prod_cases3)
  have ok: "sched_ok (sys_sched c)" and r: "\<forall>p \<in> set (sys_threads c). in_range ?n p"
    using inv by (auto simp: sys_inv_def)
  have eff: "effect (sys_sched c) ?p s' p' e" using advance_effect [OF ok _ a] r t by simp
  then have r': "\<forall>p \<in> set ((sys_threads c)[t := p']). in_range (length (sc_list s')) p"
    using r by (auto simp: effect_def dest!: subsetD [OF set_update_subset_insert])
  show ?thesis
    using inv eff r' filter_list_update [OF t, of is_numbering p']
    by (cases e) (auto simp: sys_inv_def effect_def advance_thread_def a)
qed

interpretation concurrent: step_system sys_init sys_step sys_inv
proof
  fix c :: "'a system" assume "sys_init c"
  then obtain n q k where c: "c = sys_start (Scheduler_with_capacity n q) k" by (auto simp: sys_init_def)
  have "run_inv (run_start (Scheduler_with_capacity n q :: 'a Scheduler))"
    by (rule sched.inv_init) (rule run_init_start)
  then show "sys_inv c"
    by (auto simp: c sys_inv_def sys_start_def run_inv_def run_start_def in_range_def filter_replicate)
next
  fix c c' :: "'a system" assume inv: "sys_inv c" and "sys_step c c'"
  have ok: "sched_ok (sys_sched c)" using inv by (simp add: sys_inv_def)
  from \<open>sys_step c c'\<close> show "sys_inv c'"
  proof cases
    case (call t p)
    then have "\<not> is_numbering p" "in_range m p" for m
      by (cases p; simp add: in_range_def)+
    with call inv filter_list_update [of t "sys_threads c" is_numbering p] show ?thesis
      by (auto simp: sys_inv_def dest!: subsetD [OF set_update_subset_insert])
  next
    case (access t)
    then show ?thesis using access_inv [OF inv] by simp
  next
    case (add_worker w s)
    then have "takes (sys_sched c) s []" "length (sc_list (sys_sched c)) \<le> length (sc_list s)"
      using add_worker_ok [OF ok] by (auto simp: Scheduler_add_worker_def Let_def sc_list_def set_workers_def split: if_splits)
    with add_worker inv show ?thesis
      by (fastforce simp: sys_inv_def takes_def in_range_def)
  next
    case (deactivate w b s)
    then have "takes (sys_sched c) s []" "length (sc_list (sys_sched c)) = length (sc_list s)"
      using deactivate_worker_ok [OF ok] by (auto simp: Scheduler_deactivate_worker_def Let_def sc_list_def set_workers_def split: if_splits)
    with deactivate inv show ?thesis by (auto simp: sys_inv_def takes_def)
  next
    case stop
    then show ?thesis using inv by (simp add: sys_inv_def Scheduler_stop_def)
  qed
qed

lemma advance_keeps:
  assumes "advance s p = (s', p', e)"
  shows "length (sc_list s') = length (sc_list s)" and "sc_queue_capacity s' = sc_queue_capacity s"
  using assms by (cases p; auto simp: Let_def sc_list_def set_workers_def split: prod.splits sum.splits option.splits)+

lemma log_event_sel [simp]:
  "sys_sched (log_event e c) = sys_sched c" "sys_threads (log_event e c) = sys_threads c"
  by (cases e; simp)+

lemma advance_thread_sel:
  "sys_sched (advance_thread t c) = fst (advance (sys_sched c) (sys_threads c ! t))"
  "sys_threads (advance_thread t c) = (sys_threads c)[t := fst (snd (advance (sys_sched c) (sys_threads c ! t)))]"
  by (simp_all add: advance_thread_def split: prod.splits)

lemma step_keeps_capacity: "sys_step c c' \<Longrightarrow> sc_queue_capacity (sys_sched c') = sc_queue_capacity (sys_sched c)"
proof (induction rule: sys_step.induct)
  case (access t c)
  then show ?case
    by (cases "advance (sys_sched c) (sys_threads c ! t)") (simp add: advance_thread_sel advance_keeps)
qed (auto simp: Scheduler_add_worker_def Scheduler_deactivate_worker_def Scheduler_stop_def Let_def split: if_splits)

lemma steps_keep_capacity:
  "sys_step\<^sup>*\<^sup>* c c' \<Longrightarrow> sc_queue_capacity (sys_sched c') = sc_queue_capacity (sys_sched c)"
  by (induction rule: rtranclp_induct) (simp_all add: step_keeps_capacity)

section \<open>Progress\<close>

text \<open>A bound on the accesses a call still has to make, with \<open>n\<close> workers.\<close>

fun remaining :: "nat \<Rightarrow> 'a pc \<Rightarrow> nat" where
  "remaining n Idle = 0"
| "remaining n (Submit_running _) = 2 * n + 5"
| "remaining n (Submit_lock _) = 2 * n + 4"
| "remaining n (Submit_counter _) = 2 * n + 3"
| "remaining n (Submit_active _ idxs) = 2 * length idxs + 2"
| "remaining n (Submit_len _ _ rest) = 2 * length rest + 3"
| "remaining n (Submit_push _ _) = 2"
| "remaining n Submit_number = 1"
| "remaining n (Pop_lock _) = 2"
| "remaining n (Pop_take _) = 1"
| "remaining n (Steal_lock _) = 2 * n + 2"
| "remaining n (Steal_active victims) = 2 * length victims + 1"
| "remaining n (Steal_take _ rest) = 2 * length rest + 2"
| "remaining n (Batch_lock _) = 2 * n + 3"
| "remaining n (Batch_active _ idxs _ _) = 2 * length idxs + 2"
| "remaining n (Batch_len _ _ rest _ _) = 2 * length rest + 3"
| "remaining n (Batch_take _) = 1"

lemma advance_remaining:
  assumes "advance s p = (s', p', e)" and "p \<noteq> Idle" and "length (sc_list s) \<le> n"
  shows "remaining n p' < remaining n p"
  using assms
  by (cases p) (auto simp: Let_def try_next_def steal_next_def batch_next_def simp flip: sc_list_def
      split: if_splits list.splits option.splits prod.splits sum.splits)

lemma advance_decreases:
  "advance s p = (s', p', e) \<Longrightarrow> p \<noteq> Idle \<Longrightarrow>
   remaining (length (sc_list s')) p' < remaining (length (sc_list s)) p"
  using advance_remaining advance_keeps(1) by fastforce

text \<open>The accesses of a call that no other call interrupts, with what they did to the tasks.\<close>

function finish :: "'a Scheduler \<Rightarrow> 'a pc \<Rightarrow> 'a Scheduler \<times> 'a event list" where
  "finish s p =
     (if p = Idle then (s, [])
      else case advance s p of
        (s1, p1, e) \<Rightarrow> (case finish s1 p1 of
          (s2, es) \<Rightarrow> (s2, case e of Silent \<Rightarrow> es | _ \<Rightarrow> e # es)))"
  by pat_completeness auto
termination
  by (relation "measure (\<lambda>(s, p). remaining (length (sc_list s)) p)")
     (auto simp: advance_decreases [OF sym])

declare finish.simps [simp del]

lemma finish_Idle [simp]: "finish s Idle = (s, [])"
  by (subst finish.simps) simp

lemma finish_step:
  "p \<noteq> Idle \<Longrightarrow> finish s p = (case advance s p of
     (s1, p1, e) \<Rightarrow> (case finish s1 p1 of (s2, es) \<Rightarrow> (s2, case e of Silent \<Rightarrow> es | _ \<Rightarrow> e # es)))"
  by (subst finish.simps) simp

lemma finish_submit_active:
  "idxs \<noteq> [] \<Longrightarrow> finish s (Submit_active x idxs) =
     (case List.find (\<lambda>i. has_space (sc_list s ! i)) idxs of
        None \<Rightarrow> (s, [Refused x]) | Some i \<Rightarrow> finish s (Submit_push x i))"
proof (induction idxs)
  case (Cons i rest)
  have "finish s (Submit_len x i rest) =
      (if WorkStealingDeque_len (ws_deque (sc_list s ! i)) < WorkStealingDeque_capacity (ws_deque (sc_list s ! i))
       then finish s (Submit_push x i) else if rest = [] then (s, [Refused x]) else finish s (Submit_active x rest))"
    by (simp add: finish_step [of "Submit_len x i rest"] try_next_def Let_def flip: sc_list_def)
  with Cons.IH show ?case
    by (simp add: finish_step [of "Submit_active x (i # rest)"] try_next_def has_space_def flip: sc_list_def)
qed simp

lemma finish_steal_active:
  "victims \<noteq> [] \<Longrightarrow> finish s (Steal_active victims) =
     (case steal_from (sc_list s) victims of (r, ws) \<Rightarrow> (set_workers s ws, [Taken (given r)]))"
proof (induction victims arbitrary: s)
  case (Cons v rest)
  have "finish s (Steal_take v rest) =
      (case WorkStealingDeque_steal (ws_deque (sc_list s ! v)) of
         (Some task, q) \<Rightarrow> (set_workers s (set_deque (sc_list s) v q), [Taken [task]])
       | (None, q) \<Rightarrow> (case steal_from (set_deque (sc_list s) v q) rest of
            (r, ws) \<Rightarrow> (set_workers s ws, [Taken (given r)])))"
    using Cons.IH [of "set_workers s (set_deque (sc_list s) v q)" for q]
    by (auto simp: finish_step [of "Steal_take v rest"] steal_next_def given_def set_workers_twice
        simp flip: sc_list_def split: prod.splits option.splits)
  with Cons.IH [of s] show ?case
    by (auto simp: finish_step [of "Steal_active (v # rest)"] steal_next_def given_def simp flip: sc_list_def
        split: prod.splits option.splits)
qed simp

lemma finish_batch_active:
  "idxs \<noteq> [] \<Longrightarrow> finish s (Batch_active t idxs b m) =
     (case fst (fold (busier t) (map (\<lambda>i. (i, sc_list s ! i)) idxs) (b, m)) of
        None \<Rightarrow> (s, [Taken []]) | Some i \<Rightarrow> finish s (Batch_take i))"
proof (induction idxs arbitrary: b m)
  case (Cons i rest)
  let ?rest = "\<lambda>b m. if rest = [] then (case b of None \<Rightarrow> (s, [Taken []]) | Some i \<Rightarrow> finish s (Batch_take i))
      else finish s (Batch_active t rest b m)"
  have "finish s (Batch_len t i rest b m) =
      (if m < WorkStealingDeque_len (ws_deque (sc_list s ! i))
       then ?rest (Some i) (WorkStealingDeque_len (ws_deque (sc_list s ! i))) else ?rest b m)"
    by (simp add: finish_step [of "Batch_len t i rest b m"] batch_next_def Let_def flip: sc_list_def split: option.split)
  moreover have "?rest b m = (case fst (fold (busier t) (map (\<lambda>i. (i, sc_list s ! i)) rest) (b, m)) of
        None \<Rightarrow> (s, [Taken []]) | Some i \<Rightarrow> finish s (Batch_take i))" for b m
    using Cons.IH by simp
  moreover have "finish s (Batch_active t (i # rest) b m) =
      (if i \<noteq> t \<and> ws_active (sc_list s ! i) then finish s (Batch_len t i rest b m) else ?rest b m)"
    by (simp add: finish_step [of "Batch_active t (i # rest) b m"] batch_next_def flip: sc_list_def split: option.split)
  moreover have "busier t (i, sc_list s ! i) (b, m) =
      (if i \<noteq> t \<and> ws_active (sc_list s ! i) \<and> m < WorkStealingDeque_len (ws_deque (sc_list s ! i))
       then (Some i, WorkStealingDeque_len (ws_deque (sc_list s ! i))) else (b, m))"
    by (simp add: busier_def Let_def)
  ultimately show ?case by (simp del: upt_Suc)
qed simp

lemma finish_submit:
  "finish s (Submit_running x) = (snd (Scheduler_submit s x),
     case fst (Scheduler_submit s x) of None \<Rightarrow> [Refused x] | Some i \<Rightarrow> [Pushed x, Numbered i])"
proof (cases "sc_running s \<and> \<not> poisoned (sc_workers s) \<and> sc_list s \<noteq> []")
  case True
  let ?s1 = "s\<lparr>sc_submit_counter := sc_submit_counter s + 1\<rparr>" and ?n = "length (sc_list s)"
  let ?idxs = "map (\<lambda>i. (unat (sc_submit_counter s) mod ?n + i) mod ?n) [0..<?n]"
  have ne: "?idxs \<noteq> []" using True by simp
  have "finish s (Submit_running x) = finish ?s1 (Submit_active x ?idxs)"
    using True ne by (simp add: finish_step [of "Submit_running x"] finish_step [of "Submit_lock x"]
        finish_step [of "Submit_counter x"] try_next_def Let_def flip: sc_list_def)
  also have "\<dots> = (case List.find (\<lambda>i. has_space (sc_list s ! i)) ?idxs of
        None \<Rightarrow> (?s1, [Refused x]) | Some i \<Rightarrow> finish ?s1 (Submit_push x i))"
    using finish_submit_active [OF ne, of ?s1 x] by simp
  finally show ?thesis
    using True by (simp add: Scheduler_submit_def Let_def finish_step [of "Submit_push x i" for i]
        finish_step [of Submit_number] set_workers_def flip: sc_list_def split: option.split prod.split sum.split)
qed (auto simp: finish_step [of "Submit_running x"] finish_step [of "Submit_lock x"] Scheduler_submit_def
    simp flip: sc_list_def)

lemma enumerate_nth: "List.enumerate 0 xs = map (\<lambda>i. (i, xs ! i)) [0..<length xs]"
  by (rule nth_equalityI) (simp_all add: nth_enumerate_eq)

section \<open>Schedules\<close>

text \<open>An interleaving as a sequence of moves; a move that is not possible does nothing.\<close>

datatype 'a move = Call nat "'a pc" | Access nat | Add_worker | Deactivate WorkerId | Stop

fun perform :: "'a move \<Rightarrow> 'a system \<Rightarrow> 'a system" where
  "perform (Call t p) c =
     (if t < length (sys_threads c) \<and> sys_threads c ! t = Idle \<and> call_start p
      then c\<lparr>sys_threads := (sys_threads c)[t := p]\<rparr> else c)"
| "perform (Access t) c = (if t < length (sys_threads c) then advance_thread t c else c)"
| "perform Add_worker c =
     (if \<forall>p \<in> set (sys_threads c). \<not> reading p
      then c\<lparr>sys_sched := snd (Scheduler_add_worker (sys_sched c))\<rparr> else c)"
| "perform (Deactivate w) c = c\<lparr>sys_sched := snd (Scheduler_deactivate_worker (sys_sched c) w)\<rparr>"
| "perform Stop c = c\<lparr>sys_sched := Scheduler_stop (sys_sched c)\<rparr>"

lemma perform_reachable: "sys_step\<^sup>*\<^sup>* c (perform m c)"
proof (cases m)
  case (Deactivate w)
  then show ?thesis by (auto intro: sys_step.deactivate [OF prod.collapse [symmetric]])
next
  case Add_worker
  then show ?thesis by (auto intro: sys_step.add_worker [OF _ prod.collapse [symmetric]])
qed (auto intro: sys_step.intros)

lemma performs_reachable: "sys_step\<^sup>*\<^sup>* c (fold perform ms c)"
proof (induction ms arbitrary: c)
  case (Cons m ms)
  then show ?case using perform_reachable rtranclp_trans by (metis fold_simps(2))
qed simp

lemma perform_workers: "length (sc_list (sys_sched c)) \<le> length (sc_list (sys_sched (perform m c)))"
proof (cases m)
  case (Access t)
  then show ?thesis
    by (cases "advance (sys_sched c) (sys_threads c ! t)") (simp add: advance_thread_sel advance_keeps)
qed (auto simp: Scheduler_add_worker_def Scheduler_deactivate_worker_def Scheduler_stop_def Let_def sc_list_def
    set_workers_def)

lemma performs_workers: "length (sc_list (sys_sched c)) \<le> length (sc_list (sys_sched (fold perform ms c)))"
proof (induction ms arbitrary: c)
  case (Cons m ms)
  then show ?case using perform_workers order_trans by (metis fold_simps(2))
qed simp

lemma perform_threads: "length (sys_threads (perform m c)) = length (sys_threads c)"
  by (cases m) (simp_all add: advance_thread_sel)

lemma remaining_0: "remaining n p = 0 \<longleftrightarrow> p = Idle"
  by (cases p) simp_all

lemma perform_remaining:
  assumes t: "t < length (sys_threads c)" and m: "\<forall>p. m \<noteq> Call t p" and n: "length (sc_list (sys_sched c)) \<le> n"
  shows "remaining n (sys_threads (perform m c) ! t) + (if m = Access t then 1 else 0)
     \<le> max (if m = Access t then 1 else 0) (remaining n (sys_threads c ! t))"
proof (cases "m = Access t")
  case True
  obtain s' p' e where a: "advance (sys_sched c) (sys_threads c ! t) = (s', p', e)" by (metis prod_cases3)
  show ?thesis
  proof (cases "sys_threads c ! t = Idle")
    case False
    with advance_remaining [OF a False n] True t a show ?thesis by (simp add: advance_thread_sel)
  qed (use True t in \<open>simp add: advance_thread_sel\<close>)
next
  case False
  with m t show ?thesis by (cases m) (auto simp: advance_thread_sel nth_list_update)
qed

lemma performs_finish:
  assumes "t < length (sys_threads c)" and "\<forall>p. Call t p \<notin> set ms"
    and "length (sc_list (sys_sched (fold perform ms c))) \<le> n" and "remaining n (sys_threads c ! t) \<le> count_list ms (Access t)"
  shows "sys_threads (fold perform ms c) ! t = Idle"
  using assms
proof (induction ms arbitrary: c)
  case Nil
  then show ?case by (simp add: remaining_0)
next
  case (Cons m ms)
  have m: "\<forall>p. m \<noteq> Call t p" using Cons.prems(2) by auto
  have "length (sc_list (sys_sched c)) \<le> n"
    using performs_workers [of c "m # ms"] Cons.prems(3) by (rule order_trans)
  then have "remaining n (sys_threads (perform m c) ! t) \<le> count_list ms (Access t)"
    using perform_remaining [OF Cons.prems(1) m, of n] Cons.prems(4)
    by (auto simp: max_def split: if_splits)
  with Cons show ?case by (simp add: perform_threads)
qed

section \<open>Properties\<close>

text \<open>C4: Concurrent calls neither lose nor duplicate tasks. Whatever the interleaving of the single accesses of
  any number of threads that submit, pop, steal and batch-steal, with workers added and deactivated and
  the scheduler stopped meanwhile: the tasks pushed so far are, as a multiset, the tasks handed out and
  those waiting; no deque exceeds the capacity; the identifiers are given out in the order 0, 1, 2 and so on, are
  distinct up to the counter width, and every task pushed has one or its submission is about to draw it.\<close>

theorem scheduler_concurrent_safe:
  assumes "sys_step\<^sup>*\<^sup>* (sys_start (Scheduler_with_capacity n q) k) c"
  shows "mset (sys_pushed c) = mset (sys_taken c) + waiting (sc_list (sys_sched c))
     \<and> (\<forall>w \<in> set (sc_list (sys_sched c)). length (wd_items (ws_deque w)) \<le> unat q)
     \<and> sys_ids c = map (\<lambda>k. TaskId (word_of_nat k)) [0..<length (sys_ids c)]
     \<and> (length (sys_ids c) \<le> 2 ^ 64 \<longrightarrow> distinct (sys_ids c))
     \<and> length (sys_pushed c) = length (sys_ids c) + length (filter is_numbering (sys_threads c))"
proof -
  have inv: "sys_inv c"
    using concurrent.inv_reachable [OF _ assms] by (auto simp: sys_init_def)
  have cap: "sc_queue_capacity (sys_sched c) = q"
    using steps_keep_capacity [OF assms] by (simp add: sys_start_def Scheduler_with_capacity_def)
  have "inj_on (\<lambda>k. TaskId (word_of_nat k)) {0..<m}" if "m \<le> 2 ^ 64" for m
  proof (rule inj_onI)
    fix a b assume "a \<in> {0..<m}" "b \<in> {0..<m}" "TaskId (word_of_nat a) = TaskId (word_of_nat b)"
    then show "a = b" using that by (simp add: word_of_nat_eq_iff take_bit_nat_eq_self)
  qed
  then have "distinct (sys_ids c)" if "length (sys_ids c) \<le> 2 ^ 64"
    using that inv by (metis (no_types, lifting) distinct_map distinct_upt set_upt sys_inv_def)
  with inv cap show ?thesis
    by (auto simp: sys_inv_def sched_ok_def workers_ok_def wd_ok_def)
qed

text \<open>Two workers with room for one task each.  The first thread finds room at worker 0 and stops before its push;
  the second submits to worker 1 and to worker 0, and the task of worker 1 is popped; then the first push fails.\<close>

definition race :: "nat system" where
  "race = fold perform
     (Call 0 (Submit_running 7) # replicate 5 (Access 0)
      @ Call 1 (Submit_running 8) # replicate 7 (Access 1)
      @ Call 1 (Submit_running 9) # replicate 7 (Access 1)
      @ Call 1 (Pop_lock (WorkerId 1)) # replicate 2 (Access 1) @ [Access 0])
     (sys_start (Scheduler_with_capacity 2 1) 2)"

lemma race_reachable: "sys_step\<^sup>*\<^sup>* (sys_start (Scheduler_with_capacity 2 1) 2) race"
  unfolding race_def by (rule performs_reachable)

lemma race_facts:
  "sys_pushed race = [8, 9] \<and> sys_ids race = [TaskId 0, TaskId 1] \<and> sys_taken race = [8] \<and> sys_refused race = [7]
   \<and> ws_active (sc_list (sys_sched race) ! 1) \<and> wd_items (ws_deque (sc_list (sys_sched race) ! 1)) = []"
  by (intro conjI; code_simp)

theorem scheduler_concurrent_safe_witness:
  "mset [8, 9] = mset [8] + waiting (sc_list (sys_sched race)) \<and> sys_refused race = [7]
   \<and> ws_active (sc_list (sys_sched race) ! 1) \<and> wd_items (ws_deque (sc_list (sys_sched race) ! 1)) = []"
  using scheduler_concurrent_safe [OF race_reachable] race_facts by simp

text \<open>C17: Every call returns, whatever other threads do. A call that starts in a thread \<open>t\<close> of any state has
  returned once the thread has made \<open>2 n + 5\<close> accesses, \<open>n\<close> being the number of workers at the end, in every
  schedule of moves: other threads start calls and make accesses in between, workers are added whenever no
  thread holds the read lock and deactivated, and the scheduler is stopped. While the call holds the read
  lock no worker is added, so \<open>n\<close> grows only before it takes the lock and after it has returned it.\<close>

theorem scheduler_calls_return:
  assumes "t < length (sys_threads c)" and "call_start (sys_threads c ! t)" and "\<forall>p. Call t p \<notin> set ms"
    and "2 * length (sc_list (sys_sched (fold perform ms c))) + 5 \<le> count_list ms (Access t)"
  shows "sys_threads (fold perform ms c) ! t = Idle"
proof (rule performs_finish [OF assms(1,3) order_refl])
  have "call_start p \<Longrightarrow> remaining n p \<le> 2 * n + 5" for n and p :: "'a pc"
    by (cases p) simp_all
  with assms(2,4) show "remaining (length (sc_list (sys_sched (fold perform ms c)))) (sys_threads c ! t)
      \<le> count_list ms (Access t)"
    by (blast intro: order_trans)
qed

text \<open>A worker is added between the first two accesses of the submission.\<close>

theorem scheduler_calls_return_witness:
  "sys_threads (fold perform (Access 0 # Add_worker # concat (replicate 11 [Access 0, Deactivate (WorkerId 0), Access 1]))
     ((sys_start (Scheduler_with_capacity 1 1) 2)\<lparr>sys_threads := [Submit_running (7 :: nat), Steal_lock (WorkerId 1)]\<rparr>)) ! 0 = Idle"
proof (rule scheduler_calls_return)
  show "2 * length (sc_list (sys_sched (fold perform
        (Access 0 # Add_worker # concat (replicate 11 [Access 0, Deactivate (WorkerId 0), Access 1]))
        ((sys_start (Scheduler_with_capacity 1 1) 2)\<lparr>sys_threads := [Submit_running (7 :: nat), Steal_lock (WorkerId 1)]\<rparr>)))) + 5
    \<le> count_list (Access 0 # Add_worker # concat (replicate 11 [Access 0, Deactivate (WorkerId 0), Access 1])) (Access 0 :: nat move)"
    by code_simp
qed simp_all

text \<open>An undisturbed call is atomic. The accesses of a single submission, pop, steal or batch steal that
  no other call interrupts have exactly the effect and the result of the method as one step.\<close>

theorem scheduler_undisturbed_calls_atomic:
  "finish s (Submit_running x) = (snd (Scheduler_submit s x),
     case fst (Scheduler_submit s x) of None \<Rightarrow> [Refused x] | Some i \<Rightarrow> [Pushed x, Numbered i])
   \<and> finish s (Pop_lock w) = (snd (Scheduler_pop s w), [Taken (given (fst (Scheduler_pop s w)))])
   \<and> finish s (Steal_lock w) = (snd (Scheduler_steal s w), [Taken (given (fst (Scheduler_steal s w)))])
   \<and> finish s (Batch_lock w) = (snd (Scheduler_steal_batch s w), [Taken (fst (Scheduler_steal_batch s w))])"
proof (intro conjI)
  show "finish s (Submit_running x) = (snd (Scheduler_submit s x),
     case fst (Scheduler_submit s x) of None \<Rightarrow> [Refused x] | Some i \<Rightarrow> [Pushed x, Numbered i])"
    by (rule finish_submit)
  show "finish s (Pop_lock w) = (snd (Scheduler_pop s w), [Taken (given (fst (Scheduler_pop s w)))])"
    by (simp add: finish_step Scheduler_pop_def Let_def given_def split: prod.splits)
  show "finish s (Steal_lock w) = (snd (Scheduler_steal s w), [Taken (given (fst (Scheduler_steal s w)))])"
    by (auto simp: finish_step [of "Steal_lock w"] finish_steal_active Scheduler_steal_def steal_next_def Let_def
        given_def simp flip: sc_list_def split: prod.splits)
  show "finish s (Batch_lock w) = (snd (Scheduler_steal_batch s w), [Taken (fst (Scheduler_steal_batch s w))])"
    by (auto simp: finish_step [of "Batch_lock w"] finish_step [of "Batch_take i" for i] finish_batch_active
        Scheduler_steal_batch_def batch_next_def Let_def enumerate_nth simp flip: sc_list_def
        split: prod.splits option.splits)
qed

end
