(* ===== verification/Pepita_Fault.thy ===== *)
theory Pepita_Fault
  imports Pepita_Scheduler "HOL-Library.AList"
begin

text \<open>
  Fault tolerance of \<^verbatim>\<open>src/src/fault.rs\<close>: retry policies with exponential backoff, the per-task retry
  state, heartbeat-based failure detection and the circuit breaker.

  The clock reading of \<^verbatim>\<open>Instant::now\<close> is the argument \<open>now\<close> of the operation that reads it.  A lock taken with \<^verbatim>\<open>expect\<close> panics when it is poisoned.  A \<^verbatim>\<open>HashMap\<close> is an association list
  with distinct keys whose order carries no meaning.
\<close>

section \<open>Retry policy and retry state\<close>

record RetryPolicy =
  rp_max_retries :: u32
  rp_initial_delay :: duration
  rp_max_delay :: duration
  rp_backoff_factor :: u32
  rp_use_jitter :: bool

definition RetryPolicy_default :: RetryPolicy where
  "RetryPolicy_default =
     \<lparr>rp_max_retries = 3, rp_initial_delay = from_millis 100, rp_max_delay = from_secs 30,
      rp_backoff_factor = 2, rp_use_jitter = True\<rparr>"

definition RetryPolicy_new :: RetryPolicy where
  "RetryPolicy_new = RetryPolicy_default"

definition RetryPolicy_no_retry :: RetryPolicy where
  "RetryPolicy_no_retry = RetryPolicy_default\<lparr>rp_max_retries := 0\<rparr>"

definition RetryPolicy_critical :: RetryPolicy where
  "RetryPolicy_critical =
     \<lparr>rp_max_retries = 10, rp_initial_delay = from_millis 500, rp_max_delay = from_secs 60,
      rp_backoff_factor = 2, rp_use_jitter = True\<rparr>"

definition RetryPolicy_with_max_retries :: "RetryPolicy \<Rightarrow> u32 \<Rightarrow> RetryPolicy" where
  "RetryPolicy_with_max_retries p retries = p\<lparr>rp_max_retries := retries\<rparr>"

definition RetryPolicy_with_initial_delay :: "RetryPolicy \<Rightarrow> duration \<Rightarrow> RetryPolicy" where
  "RetryPolicy_with_initial_delay p delay = p\<lparr>rp_initial_delay := delay\<rparr>"

definition RetryPolicy_with_max_delay :: "RetryPolicy \<Rightarrow> duration \<Rightarrow> RetryPolicy" where
  "RetryPolicy_with_max_delay p delay = p\<lparr>rp_max_delay := delay\<rparr>"

text \<open>The power is taken in \<^verbatim>\<open>u32\<close>, where it wraps, before it is widened.\<close>

definition RetryPolicy_delay_for_attempt :: "RetryPolicy \<Rightarrow> u32 \<Rightarrow> duration" where
  "RetryPolicy_delay_for_attempt p attempt =
     (if attempt = 0 then 0
      else let base_delay = as_millis_u64 (rp_initial_delay p);
               factor = (ucast (rp_backoff_factor p ^ unat (saturating_sub attempt 1)) :: u64);
               delay_ms = saturating_mul base_delay factor;
               capped_ms = min delay_ms (as_millis_u64 (rp_max_delay p))
           in from_millis capped_ms)"

definition RetryPolicy_should_retry :: "RetryPolicy \<Rightarrow> u32 \<Rightarrow> bool" where
  "RetryPolicy_should_retry p current_attempts \<longleftrightarrow> current_attempts < rp_max_retries p"

record RetryState =
  rs_attempts :: u32
  rs_last_failure :: "instant option"
  rs_last_error :: "bytes option"

definition RetryState_new :: RetryState where
  "RetryState_new = \<lparr>rs_attempts = 0, rs_last_failure = None, rs_last_error = None\<rparr>"

definition RetryState_default :: RetryState where
  "RetryState_default = RetryState_new"

definition RetryState_record_failure :: "instant \<Rightarrow> RetryState \<Rightarrow> bytes \<Rightarrow> RetryState" where
  "RetryState_record_failure now s error =
     \<lparr>rs_attempts = rs_attempts s + 1, rs_last_failure = Some now, rs_last_error = Some error\<rparr>"

definition RetryState_reset :: "RetryState \<Rightarrow> RetryState" where
  "RetryState_reset s = \<lparr>rs_attempts = 0, rs_last_failure = None, rs_last_error = None\<rparr>"

definition RetryState_should_retry :: "RetryState \<Rightarrow> RetryPolicy \<Rightarrow> bool" where
  "RetryState_should_retry s policy = RetryPolicy_should_retry policy (rs_attempts s)"

definition RetryState_next_delay :: "RetryState \<Rightarrow> RetryPolicy \<Rightarrow> duration" where
  "RetryState_next_delay s policy = RetryPolicy_delay_for_attempt policy (rs_attempts s)"

definition RetryState_in_backoff :: "instant \<Rightarrow> RetryState \<Rightarrow> RetryPolicy \<Rightarrow> bool" where
  "RetryState_in_backoff now s policy \<longleftrightarrow>
     (case rs_last_failure s of
        Some t \<Rightarrow> elapsed now t < RetryState_next_delay s policy
      | None \<Rightarrow> False)"

section \<open>Worker health\<close>

datatype HealthStatus = Healthy | Suspected | FailedStatus | Unknown

definition HealthStatus_is_available :: "HealthStatus \<Rightarrow> bool" where
  "HealthStatus_is_available s \<longleftrightarrow> (case s of Healthy \<Rightarrow> True | Unknown \<Rightarrow> True | _ \<Rightarrow> False)"

record WorkerHealth =
  wh_worker_id :: WorkerId
  wh_status :: HealthStatus
  wh_last_heartbeat :: "instant option"
  wh_consecutive_failures :: u32
  wh_tasks_completed :: u64
  wh_tasks_failed :: u64

definition WorkerHealth_new :: "WorkerId \<Rightarrow> WorkerHealth" where
  "WorkerHealth_new worker_id =
     \<lparr>wh_worker_id = worker_id, wh_status = Unknown, wh_last_heartbeat = None,
      wh_consecutive_failures = 0, wh_tasks_completed = 0, wh_tasks_failed = 0\<rparr>"

definition WorkerHealth_record_heartbeat :: "instant \<Rightarrow> WorkerHealth \<Rightarrow> WorkerHealth" where
  "WorkerHealth_record_heartbeat now h =
     h\<lparr>wh_last_heartbeat := Some now, wh_status := Healthy, wh_consecutive_failures := 0\<rparr>"

definition WorkerHealth_record_task_completion :: "WorkerHealth \<Rightarrow> bool \<Rightarrow> WorkerHealth" where
  "WorkerHealth_record_task_completion h success =
     (if success
      then h\<lparr>wh_tasks_completed := wh_tasks_completed h + 1, wh_consecutive_failures := 0\<rparr>
      else h\<lparr>wh_tasks_failed := wh_tasks_failed h + 1,
             wh_consecutive_failures := wh_consecutive_failures h + 1\<rparr>)"

text \<open>The two tests of \<^verbatim>\<open>update_status\<close>: the heartbeat timeout, then the failure threshold.\<close>

definition WorkerHealth_update_status ::
  "instant \<Rightarrow> WorkerHealth \<Rightarrow> duration \<Rightarrow> u32 \<Rightarrow> WorkerHealth exec" where
  "WorkerHealth_update_status now h heartbeat_timeout failure_threshold =
     exec_bind
       (case wh_last_heartbeat h of
          None \<Rightarrow> Done h
        | Some t \<Rightarrow>
            exec_bind (duration_mul heartbeat_timeout 3) (\<lambda>limit.
              Done (if limit < elapsed now t then h\<lparr>wh_status := FailedStatus\<rparr>
                    else if heartbeat_timeout < elapsed now t then h\<lparr>wh_status := Suspected\<rparr>
                    else h)))
       (\<lambda>h1. Done (if failure_threshold \<le> wh_consecutive_failures h1
                   then h1\<lparr>wh_status := FailedStatus\<rparr> else h1))"

section \<open>Failure detector\<close>

definition WorkerHealth_success_rate :: "'f f64_ops \<Rightarrow> WorkerHealth \<Rightarrow> 'f" where
  "WorkerHealth_success_rate F h =
     ratio_or_one F (wh_tasks_completed h) (wh_tasks_completed h + wh_tasks_failed h)"

record FailureDetector =
  fd_workers :: "(WorkerId \<times> WorkerHealth) list lock"
  fd_heartbeat_interval :: duration
  fd_heartbeat_timeout :: duration
  fd_failure_threshold :: u32
  fd_running :: bool

definition FailureDetector_with_config :: "duration \<Rightarrow> duration \<Rightarrow> u32 \<Rightarrow> FailureDetector" where
  "FailureDetector_with_config interval timeout threshold =
     \<lparr>fd_workers = new_lock [], fd_heartbeat_interval = interval, fd_heartbeat_timeout = timeout,
      fd_failure_threshold = threshold, fd_running = True\<rparr>"

definition FailureDetector_new :: FailureDetector where
  "FailureDetector_new = FailureDetector_with_config (from_secs 1) (from_secs 3) 3"

definition FailureDetector_default :: FailureDetector where
  "FailureDetector_default = FailureDetector_new"

text \<open>Running \<open>f\<close> on the map behind the lock taken with \<^verbatim>\<open>write().expect\<close>.\<close>

definition with_workers ::
  "FailureDetector \<Rightarrow> ((WorkerId \<times> WorkerHealth) list \<Rightarrow> (WorkerId \<times> WorkerHealth) list exec)
     \<Rightarrow> FailureDetector exec" where
  "with_workers fd f =
     (if poisoned (fd_workers fd) then Panic
      else exec_bind (f (contents (fd_workers fd)))
             (\<lambda>ws. Done (fd\<lparr>fd_workers := (fd_workers fd)\<lparr>contents := ws\<rparr>\<rparr>)))"

definition FailureDetector_register_worker :: "FailureDetector \<Rightarrow> WorkerId \<Rightarrow> FailureDetector exec" where
  "FailureDetector_register_worker fd worker_id =
     with_workers fd (\<lambda>ws. Done (AList.update worker_id (WorkerHealth_new worker_id) ws))"

definition FailureDetector_deregister_worker :: "FailureDetector \<Rightarrow> WorkerId \<Rightarrow> FailureDetector exec" where
  "FailureDetector_deregister_worker fd worker_id =
     with_workers fd (\<lambda>ws. Done (AList.delete worker_id ws))"

definition FailureDetector_record_heartbeat ::
  "instant \<Rightarrow> FailureDetector \<Rightarrow> WorkerId \<Rightarrow> FailureDetector exec" where
  "FailureDetector_record_heartbeat now fd worker_id =
     with_workers fd (\<lambda>ws. Done (AList.update worker_id
       (WorkerHealth_record_heartbeat now
          (case map_of ws worker_id of Some health \<Rightarrow> health | None \<Rightarrow> WorkerHealth_new worker_id)) ws))"

definition FailureDetector_record_task_result ::
  "FailureDetector \<Rightarrow> WorkerId \<Rightarrow> bool \<Rightarrow> FailureDetector exec" where
  "FailureDetector_record_task_result fd worker_id success =
     with_workers fd (\<lambda>ws. Done (case map_of ws worker_id of
        Some health \<Rightarrow> AList.update worker_id (WorkerHealth_record_task_completion health success) ws
      | None \<Rightarrow> ws))"

definition FailureDetector_get_health :: "FailureDetector \<Rightarrow> WorkerId \<Rightarrow> WorkerHealth option exec" where
  "FailureDetector_get_health fd worker_id =
     (if poisoned (fd_workers fd) then Panic else Done (map_of (contents (fd_workers fd)) worker_id))"

definition FailureDetector_get_status :: "FailureDetector \<Rightarrow> WorkerId \<Rightarrow> HealthStatus exec" where
  "FailureDetector_get_status fd worker_id =
     (if poisoned (fd_workers fd) then Panic
      else Done (case map_of (contents (fd_workers fd)) worker_id of
                   None \<Rightarrow> Unknown | Some h \<Rightarrow> wh_status h))"

definition workers_with_status :: "HealthStatus \<Rightarrow> FailureDetector \<Rightarrow> WorkerId list exec" where
  "workers_with_status st fd =
     (if poisoned (fd_workers fd) then Panic
      else Done (map fst (filter (\<lambda>(_, h). wh_status h = st) (contents (fd_workers fd)))))"

definition FailureDetector_healthy_workers :: "FailureDetector \<Rightarrow> WorkerId list exec" where
  "FailureDetector_healthy_workers fd = workers_with_status Healthy fd"

definition FailureDetector_failed_workers :: "FailureDetector \<Rightarrow> WorkerId list exec" where
  "FailureDetector_failed_workers fd = workers_with_status FailedStatus fd"

text \<open>\<^verbatim>\<open>update_status\<close> reads the clock for each worker; \<open>now i\<close> is the reading for worker \<open>i\<close>.\<close>

fun update_statuses ::
  "(WorkerId \<Rightarrow> instant) \<Rightarrow> duration \<Rightarrow> u32 \<Rightarrow> (WorkerId \<times> WorkerHealth) list \<Rightarrow> (WorkerId \<times> WorkerHealth) list exec" where
  "update_statuses now timeout threshold [] = Done []"
| "update_statuses now timeout threshold ((i, h) # ws) =
     exec_bind (WorkerHealth_update_status (now i) h timeout threshold) (\<lambda>h'.
     exec_bind (update_statuses now timeout threshold ws) (\<lambda>ws'. Done ((i, h') # ws')))"

definition FailureDetector_update_all_statuses :: "(WorkerId \<Rightarrow> instant) \<Rightarrow> FailureDetector \<Rightarrow> FailureDetector exec" where
  "FailureDetector_update_all_statuses now fd =
     with_workers fd (update_statuses now (fd_heartbeat_timeout fd) (fd_failure_threshold fd))"

definition FailureDetector_is_available :: "FailureDetector \<Rightarrow> WorkerId \<Rightarrow> bool exec" where
  "FailureDetector_is_available fd worker_id =
     exec_bind (FailureDetector_get_status fd worker_id) (\<lambda>s. Done (HealthStatus_is_available s))"

definition FailureDetector_heartbeat_interval :: "FailureDetector \<Rightarrow> duration" where
  "FailureDetector_heartbeat_interval fd = fd_heartbeat_interval fd"

definition FailureDetector_stop :: "FailureDetector \<Rightarrow> FailureDetector" where
  "FailureDetector_stop fd = fd\<lparr>fd_running := False\<rparr>"

definition FailureDetector_is_running :: "FailureDetector \<Rightarrow> bool" where
  "FailureDetector_is_running fd = fd_running fd"

section \<open>Circuit breaker\<close>

datatype CircuitState = Closed | Open | HalfOpen

record CircuitBreaker =
  cb_state :: "CircuitState lock"
  cb_failure_count :: u64
  cb_success_count :: u64
  cb_failure_threshold :: u64
  cb_success_threshold :: u64
  cb_reset_timeout :: duration
  cb_opened_at :: "instant option lock"

definition CircuitBreaker_new :: "u64 \<Rightarrow> u64 \<Rightarrow> duration \<Rightarrow> CircuitBreaker" where
  "CircuitBreaker_new failure_threshold success_threshold reset_timeout =
     \<lparr>cb_state = new_lock Closed, cb_failure_count = 0, cb_success_count = 0,
      cb_failure_threshold = failure_threshold, cb_success_threshold = success_threshold,
      cb_reset_timeout = reset_timeout, cb_opened_at = new_lock None\<rparr>"

definition CircuitBreaker_default :: CircuitBreaker where
  "CircuitBreaker_default = CircuitBreaker_new 5 3 (from_secs 30)"

definition CircuitBreaker_state :: "CircuitBreaker \<Rightarrow> CircuitState exec" where
  "CircuitBreaker_state b = (if poisoned (cb_state b) then Panic else Done (contents (cb_state b)))"

definition transition_to_open :: "instant \<Rightarrow> CircuitBreaker \<Rightarrow> CircuitBreaker exec" where
  "transition_to_open now b =
     (if poisoned (cb_state b) \<or> poisoned (cb_opened_at b) then Panic
      else Done (b\<lparr>cb_state := (cb_state b)\<lparr>contents := Open\<rparr>,
                   cb_opened_at := (cb_opened_at b)\<lparr>contents := Some now\<rparr>,
                   cb_success_count := 0\<rparr>))"

definition transition_to_half_open :: "CircuitBreaker \<Rightarrow> CircuitBreaker exec" where
  "transition_to_half_open b =
     (if poisoned (cb_state b) then Panic
      else Done (b\<lparr>cb_state := (cb_state b)\<lparr>contents := HalfOpen\<rparr>,
                   cb_success_count := 0, cb_failure_count := 0\<rparr>))"

definition transition_to_closed :: "CircuitBreaker \<Rightarrow> CircuitBreaker exec" where
  "transition_to_closed b =
     (if poisoned (cb_state b) \<or> poisoned (cb_opened_at b) then Panic
      else Done (b\<lparr>cb_state := (cb_state b)\<lparr>contents := Closed\<rparr>,
                   cb_opened_at := (cb_opened_at b)\<lparr>contents := None\<rparr>,
                   cb_failure_count := 0, cb_success_count := 0\<rparr>))"

definition CircuitBreaker_allows_execution ::
  "instant \<Rightarrow> CircuitBreaker \<Rightarrow> (bool \<times> CircuitBreaker) exec" where
  "CircuitBreaker_allows_execution now b =
     (if poisoned (cb_state b) then Panic
      else case contents (cb_state b) of
        Closed \<Rightarrow> Done (True, b)
      | HalfOpen \<Rightarrow> Done (True, b)
      | Open \<Rightarrow>
          if poisoned (cb_opened_at b) then Panic
          else case contents (cb_opened_at b) of
            None \<Rightarrow> Done (False, b)
          | Some opened \<Rightarrow>
              if cb_reset_timeout b \<le> elapsed now opened
              then exec_bind (transition_to_half_open b) (\<lambda>b'. Done (True, b'))
              else Done (False, b))"

definition CircuitBreaker_record_success :: "CircuitBreaker \<Rightarrow> CircuitBreaker exec" where
  "CircuitBreaker_record_success b =
     (if poisoned (cb_state b) then Panic
      else case contents (cb_state b) of
        Closed \<Rightarrow> Done (b\<lparr>cb_failure_count := 0\<rparr>)
      | HalfOpen \<Rightarrow>
          let count = cb_success_count b + 1;
              b1 = b\<lparr>cb_success_count := count\<rparr>
          in if cb_success_threshold b \<le> count then transition_to_closed b1 else Done b1
      | Open \<Rightarrow> Done b)"

definition CircuitBreaker_record_failure :: "instant \<Rightarrow> CircuitBreaker \<Rightarrow> CircuitBreaker exec" where
  "CircuitBreaker_record_failure now b =
     (if poisoned (cb_state b) then Panic
      else case contents (cb_state b) of
        Closed \<Rightarrow>
          let count = cb_failure_count b + 1;
              b1 = b\<lparr>cb_failure_count := count\<rparr>
          in if cb_failure_threshold b \<le> count then transition_to_open now b1 else Done b1
      | HalfOpen \<Rightarrow> transition_to_open now b
      | Open \<Rightarrow> Done b)"

definition CircuitBreaker_reset :: "CircuitBreaker \<Rightarrow> CircuitBreaker exec" where
  "CircuitBreaker_reset b = transition_to_closed b"

end
