(* ===== verification/Pepita_Resilience.thy ===== *)
theory Pepita_Resilience
  imports Pepita_Fault
begin

text \<open>
  Correctness of fault tolerance: the backoff schedule, the failure detector as a function of the
  age of the last heartbeat, and the circuit breaker as a state machine whose invariant holds in
  every reachable state.
\<close>

section \<open>Backoff\<close>

lemma unat_as_millis: "unat (as_millis_u64 d) = (d div 1000000) mod 2 ^ 64"
  by (simp add: as_millis_u64_def unat_of_nat)

lemma unat_pow: "unat ((b :: 'a::len word) ^ n) = unat b ^ n mod 2 ^ LENGTH('a)"
proof (induction n)
  case (Suc n)
  then show ?case by (simp add: unat_word_ariths mod_mult_right_eq)
qed (simp add: unat_word_ariths)

lemma delay_in_ms:
  assumes "attempt \<noteq> 0"
  shows "RetryPolicy_delay_for_attempt p attempt =
    min (min (unat (as_millis_u64 (rp_initial_delay p))
               * (unat (rp_backoff_factor p) ^ (unat attempt - 1) mod 2 ^ 32)) (2 ^ 64 - 1))
        (unat (as_millis_u64 (rp_max_delay p))) * 1000000"
proof -
  have "unat (min a b) = min (unat a) (unat b)" for a b :: u64
    by (simp add: min_def word_le_nat_alt)
  then show ?thesis
    using assms
    by (simp add: RetryPolicy_delay_for_attempt_def Let_def from_millis_def unat_saturating_mul
        unat_saturating_sub unsigned_ucast_eq take_bit_eq_mod unat_pow)
qed

section \<open>Failure detection\<close>

text \<open>The status of a worker after an update, as a function of its record.\<close>

definition aged :: "instant \<Rightarrow> duration \<Rightarrow> u32 \<Rightarrow> WorkerHealth \<Rightarrow> WorkerHealth" where
  "aged now T th h = h\<lparr>wh_status :=
     (if th \<le> wh_consecutive_failures h then FailedStatus
      else case wh_last_heartbeat h of
        None \<Rightarrow> wh_status h
      | Some t \<Rightarrow> if T * 3 < now - t then FailedStatus else if T < now - t then Suspected else wh_status h)\<rparr>"

lemma update_status_aged:
  "T * 3 \<le> DURATION_MAX \<Longrightarrow> WorkerHealth_update_status now h T th = Done (aged now T th h)"
  by (auto simp: WorkerHealth_update_status_def duration_mul_def aged_def elapsed_def split: option.splits)

lemma update_statuses_aged:
  "T * 3 \<le> DURATION_MAX \<Longrightarrow> update_statuses now T th ws = Done (map (\<lambda>(i, h). (i, aged (now i) T th h)) ws)"
  by (induction ws) (auto simp: update_status_aged)

lemma aged_fields [simp]:
  "wh_last_heartbeat (aged now T th h) = wh_last_heartbeat h"
  "wh_consecutive_failures (aged now T th h) = wh_consecutive_failures h"
  "wh_worker_id (aged now T th h) = wh_worker_id h"
  by (simp_all add: aged_def)

definition fd_health :: "FailureDetector \<Rightarrow> WorkerId \<Rightarrow> WorkerHealth option" where
  "fd_health fd w = map_of (contents (fd_workers fd)) w"

definition fd_ok :: "FailureDetector \<Rightarrow> bool" where
  "fd_ok fd \<longleftrightarrow> \<not> poisoned (fd_workers fd) \<and> fd_heartbeat_timeout fd * 3 \<le> DURATION_MAX"

lemma get_status_health:
  "\<not> poisoned (fd_workers fd) \<Longrightarrow>
   FailureDetector_get_status fd w = Done (case fd_health fd w of None \<Rightarrow> Unknown | Some h \<Rightarrow> wh_status h)"
  by (simp add: FailureDetector_get_status_def fd_health_def)

text \<open>Status by the age of the last heartbeat.\<close>

definition status_at :: "instant \<Rightarrow> duration \<Rightarrow> instant \<Rightarrow> HealthStatus" where
  "status_at t0 T now =
     (if T * 3 < now - t0 then FailedStatus else if T < now - t0 then Suspected else Healthy)"

lemma aged_status_at:
  assumes "wh_last_heartbeat h = Some t0" and "wh_consecutive_failures h < th"
    and "wh_status h = status_at t0 T t" and "t \<le> t'"
  shows "wh_status (aged t' T th h) = status_at t0 T t'"
  using assms by (auto simp: aged_def status_at_def split: if_splits)

text \<open>
  The calls that change a detector; a heartbeat and an update carry the clock readings they make.
\<close>

datatype detector_call =
    Register WorkerId
  | Deregister WorkerId
  | Heartbeat instant WorkerId
  | Task_result WorkerId bool
  | Update "WorkerId \<Rightarrow> instant"

fun detector_do :: "detector_call \<Rightarrow> FailureDetector \<Rightarrow> FailureDetector exec" where
  "detector_do (Register w) fd = FailureDetector_register_worker fd w"
| "detector_do (Deregister w) fd = FailureDetector_deregister_worker fd w"
| "detector_do (Heartbeat now w) fd = FailureDetector_record_heartbeat now fd w"
| "detector_do (Task_result w success) fd = FailureDetector_record_task_result fd w success"
| "detector_do (Update now) fd = FailureDetector_update_all_statuses now fd"

text \<open>What a call does to the record of one worker.\<close>

fun health_after :: "WorkerId \<Rightarrow> duration \<Rightarrow> u32 \<Rightarrow> detector_call \<Rightarrow> WorkerHealth option \<Rightarrow> WorkerHealth option" where
  "health_after w T th (Register v) h = (if v = w then Some (WorkerHealth_new w) else h)"
| "health_after w T th (Deregister v) h = (if v = w then None else h)"
| "health_after w T th (Heartbeat now v) h =
     (if v = w then Some (WorkerHealth_record_heartbeat now (case h of Some x \<Rightarrow> x | None \<Rightarrow> WorkerHealth_new w)) else h)"
| "health_after w T th (Task_result v success) h =
     (if v = w then map_option (\<lambda>x. WorkerHealth_record_task_completion x success) h else h)"
| "health_after w T th (Update now) h = map_option (aged (now w) T th) h"

lemma detector_do_health:
  assumes "fd_ok fd"
  shows "\<exists>fd'. detector_do c fd = Done fd' \<and> fd_ok fd'
     \<and> fd_heartbeat_timeout fd' = fd_heartbeat_timeout fd \<and> fd_failure_threshold fd' = fd_failure_threshold fd
     \<and> fd_health fd' w = health_after w (fd_heartbeat_timeout fd) (fd_failure_threshold fd) c (fd_health fd w)"
proof (cases c)
  case (Update now)
  have "map_of (map (\<lambda>(i, h). (i, aged (now i) T th h)) ws) w = map_option (aged (now w) T th) (map_of ws w)" for T th ws
    by (induction ws) auto
  with assms Update show ?thesis
    by (simp add: FailureDetector_update_all_statuses_def with_workers_def fd_ok_def update_statuses_aged fd_health_def)
qed (use assms in \<open>auto simp: FailureDetector_register_worker_def FailureDetector_deregister_worker_def
    FailureDetector_record_heartbeat_def FailureDetector_record_task_result_def with_workers_def fd_ok_def fd_health_def
    update_conv' delete_conv' split: option.splits\<close>)

lemma detector_calls_health:
  assumes "fd_ok fd"
  shows "\<exists>fd'. exec_fold detector_do cs fd = Done fd' \<and> fd_ok fd'
     \<and> fd_health fd' w = fold (health_after w (fd_heartbeat_timeout fd) (fd_failure_threshold fd)) cs (fd_health fd w)"
  using assms
proof (induction cs arbitrary: fd)
  case (Cons c cs)
  from detector_do_health [OF Cons.prems, of c w] obtain fd1 where "detector_do c fd = Done fd1" "fd_ok fd1"
    "fd_heartbeat_timeout fd1 = fd_heartbeat_timeout fd" "fd_failure_threshold fd1 = fd_failure_threshold fd"
    "fd_health fd1 w = health_after w (fd_heartbeat_timeout fd) (fd_failure_threshold fd) c (fd_health fd w)" by blast
  with Cons.IH [of fd1] show ?case by simp
qed simp

text \<open>The calls that interfere with the status of a worker, and the clock readings of the updates for it.\<close>

fun concerns :: "WorkerId \<Rightarrow> detector_call \<Rightarrow> bool" where
  "concerns w (Register v) = (v = w)"
| "concerns w (Deregister v) = (v = w)"
| "concerns w (Heartbeat now v) = (v = w)"
| "concerns w (Task_result v success) = (v = w \<and> \<not> success)"
| "concerns w (Update now) = False"

fun update_times :: "WorkerId \<Rightarrow> detector_call list \<Rightarrow> instant list" where
  "update_times w [] = []"
| "update_times w (Update now # cs) = now w # update_times w cs"
| "update_times w (_ # cs) = update_times w cs"

lemma quiet_status:
  assumes "wh_last_heartbeat h = Some t0" and "wh_consecutive_failures h < th"
    and "wh_status h = status_at t0 T t" and "sorted (t # update_times w cs)" and "\<forall>c \<in> set cs. \<not> concerns w c"
  shows "\<exists>h'. fold (health_after w T th) cs (Some h) = Some h' \<and> wh_status h' = status_at t0 T (last (t # update_times w cs))"
  using assms
proof (induction cs arbitrary: h t)
  case (Cons c cs)
  show ?case
  proof (cases c)
    case (Update now)
    have "wh_status (aged (now w) T th h) = status_at t0 T (now w)"
      using Cons.prems Update by (intro aged_status_at) auto
    with Cons.IH [of "aged (now w) T th h" "now w"] Cons.prems Update show ?thesis by simp
  next
    case (Task_result v success)
    have "0 < th" using Cons.prems(2) by (metis le_less_trans word_zero_le)
    with Cons.IH [of "WorkerHealth_record_task_completion h True" t] Cons.IH [of h t] Cons.prems Task_result
    show ?thesis by (auto simp: WorkerHealth_record_task_completion_def)
  qed (use Cons in auto)
qed simp

lemma quiet_unheard:
  assumes "wh_last_heartbeat h = None" and "wh_consecutive_failures h < th" and "wh_status h = Unknown"
    and "\<forall>c \<in> set cs. \<not> concerns w c"
  shows "\<exists>h'. fold (health_after w T th) cs (Some h) = Some h' \<and> wh_status h' = Unknown"
  using assms
proof (induction cs arbitrary: h)
  case (Cons c cs)
  show ?case
  proof (cases c)
    case (Update now)
    have "wh_status (aged (now w) T th h) = Unknown" using Cons.prems by (simp add: aged_def)
    with Cons.IH [of "aged (now w) T th h"] Cons.prems Update show ?thesis by simp
  next
    case (Task_result v success)
    have "0 < th" using Cons.prems(2) by (metis le_less_trans word_zero_le)
    with Cons.IH [of "WorkerHealth_record_task_completion h True"] Cons.IH [of h] Cons.prems Task_result
    show ?thesis by (auto simp: WorkerHealth_record_task_completion_def)
  qed (use Cons in auto)
qed simp

text \<open>A run of calls on a new detector.\<close>

lemma detector_run:
  assumes "timeout * 3 \<le> DURATION_MAX"
  obtains fd h where "exec_fold detector_do (before @ c # after) (FailureDetector_with_config interval timeout threshold) = Done fd"
    and "\<not> poisoned (fd_workers fd)"
    and "fd_health fd w = fold (health_after w timeout threshold) after (health_after w timeout threshold c h)"
proof -
  let ?fd0 = "FailureDetector_with_config interval timeout threshold"
  have "fd_ok ?fd0" "fd_heartbeat_timeout ?fd0 = timeout" "fd_failure_threshold ?fd0 = threshold"
    using assms by (auto simp: fd_ok_def FailureDetector_with_config_def)
  with detector_calls_health [of ?fd0 "before @ c # after" w] that show thesis
    by (auto simp: fd_ok_def)
qed

section \<open>The circuit breaker as a state machine\<close>

text \<open>A breaker with the current time; each step is the passing of time or one call.\<close>

inductive cb_step :: "CircuitBreaker \<times> instant \<Rightarrow> CircuitBreaker \<times> instant \<Rightarrow> bool" where
  wait: "t \<le> t' \<Longrightarrow> cb_step (b, t) (b, t')"
| ask: "CircuitBreaker_allows_execution t b = Done (r, b') \<Longrightarrow> cb_step (b, t) (b', t)"
| success: "CircuitBreaker_record_success b = Done b' \<Longrightarrow> cb_step (b, t) (b', t)"
| failure: "CircuitBreaker_record_failure t b = Done b' \<Longrightarrow> cb_step (b, t) (b', t)"
| reset: "CircuitBreaker_reset b = Done b' \<Longrightarrow> cb_step (b, t) (b', t)"

inductive_cases cb_step_cases: "cb_step s s'"

definition cb_phase :: "CircuitBreaker \<Rightarrow> CircuitState" where
  "cb_phase b = contents (cb_state b)"

definition cb_locks :: "CircuitBreaker \<Rightarrow> bool" where
  "cb_locks b \<longleftrightarrow> \<not> poisoned (cb_state b) \<and> \<not> poisoned (cb_opened_at b)"

fun cb_init :: "CircuitBreaker \<times> instant \<Rightarrow> bool" where
  "cb_init (b, t) \<longleftrightarrow> (\<exists>f s r. b = CircuitBreaker_new f s r)"

fun cb_inv :: "CircuitBreaker \<times> instant \<Rightarrow> bool" where
  "cb_inv (b, t) \<longleftrightarrow> cb_locks b \<and>
     (case cb_phase b of
        Closed \<Rightarrow> contents (cb_opened_at b) = None \<and> cb_success_count b = 0
          \<and> (cb_failure_count b = 0 \<or> cb_failure_count b < cb_failure_threshold b)
      | Open \<Rightarrow> (\<exists>t0 \<le> t. contents (cb_opened_at b) = Some t0) \<and> cb_success_count b = 0
      | HalfOpen \<Rightarrow> cb_failure_count b = 0
          \<and> (cb_success_count b = 0 \<or> cb_success_count b < cb_success_threshold b))"

lemmas cb_defs = CircuitBreaker_allows_execution_def CircuitBreaker_record_success_def
  CircuitBreaker_record_failure_def CircuitBreaker_reset_def transition_to_open_def
  transition_to_half_open_def transition_to_closed_def cb_phase_def cb_locks_def Let_def

interpretation breaker: step_system cb_init cb_step cb_inv
proof
  fix s assume "cb_init s"
  then show "cb_inv s" by (cases s) (auto simp: CircuitBreaker_new_def cb_defs)
next
  fix s s' assume inv: "cb_inv s" and "cb_step s s'"
  from this(2) show "cb_inv s'"
  proof cases
    case wait with inv show ?thesis by (auto split: CircuitState.splits)
  next
    case ask with inv show ?thesis by (auto simp: cb_defs split: CircuitState.splits option.splits if_splits)
  next
    case success
    with inv show ?thesis
      by (auto simp: cb_defs not_le split: CircuitState.splits if_splits)
  next
    case failure
    with inv show ?thesis
      by (auto simp: cb_defs not_le split: CircuitState.splits if_splits)
  next
    case reset with inv show ?thesis by (auto simp: cb_defs split: if_splits)
  qed
qed

lemma reachable_locks: "cb_step\<^sup>*\<^sup>* (CircuitBreaker_new f s r, t0) (b, t) \<Longrightarrow> cb_locks b"
  using breaker.inv_reachable [of "(CircuitBreaker_new f s r, t0)" "(b, t)"] by auto

lemma no_panic:
  assumes "cb_locks b"
  shows "\<exists>r b'. CircuitBreaker_allows_execution t b = Done (r, b')"
    and "\<exists>b'. CircuitBreaker_record_success b = Done b'"
    and "\<exists>b'. CircuitBreaker_record_failure t b = Done b'"
    and "\<exists>b'. CircuitBreaker_reset b = Done b'"
  using assms by (auto simp: cb_defs split: CircuitState.splits option.splits)

lemma unat_less_Suc: "(a :: u64) < b \<Longrightarrow> unat (a + 1) = unat a + 1"
  by (simp add: unat_plus_one_small word_less_nat_alt)
     (metis One_nat_def Suc_eq_plus1 less_trans_Suc unat_bound unat_plus_one_small)

text \<open>Failures in a row while the circuit is closed: the threshold opens it, at that failure's time.\<close>

lemma failures_closed:
  assumes "cb_locks b" and "cb_phase b = Closed" and "unat (cb_failure_count b) + length ts < unat (cb_failure_threshold b)"
  shows "\<exists>b'. exec_fold CircuitBreaker_record_failure ts b = Done b' \<and> cb_locks b' \<and> cb_phase b' = Closed
     \<and> unat (cb_failure_count b') = unat (cb_failure_count b) + length ts
     \<and> cb_failure_threshold b' = cb_failure_threshold b \<and> cb_opened_at b' = cb_opened_at b"
  using assms
proof (induction ts arbitrary: b)
  case (Cons t ts)
  have c: "cb_failure_count b < cb_failure_threshold b"
    using Cons.prems(3) by (simp add: word_less_nat_alt)
  let ?b = "b\<lparr>cb_failure_count := cb_failure_count b + 1\<rparr>"
  have "\<not> cb_failure_threshold b \<le> cb_failure_count b + 1"
    using Cons.prems(3) unat_less_Suc [OF c] by (simp add: word_le_nat_alt)
  then have "CircuitBreaker_record_failure t b = Done ?b"
    using Cons.prems by (simp add: cb_defs)
  then show ?case
    using Cons.IH [of ?b] Cons.prems unat_less_Suc [OF c] by (simp add: cb_locks_def cb_phase_def)
qed simp

lemma failure_opens:
  assumes "cb_locks b" and "cb_phase b = Closed" and "unat (cb_failure_threshold b) = unat (cb_failure_count b) + 1"
  shows "\<exists>b'. CircuitBreaker_record_failure t b = Done b' \<and> cb_locks b' \<and> cb_phase b' = Open
     \<and> contents (cb_opened_at b') = Some t"
proof -
  have "cb_failure_count b < cb_failure_threshold b"
    using assms(3) by (simp add: word_less_nat_alt)
  from unat_less_Suc [OF this] assms show ?thesis
    by (simp add: cb_defs word_le_nat_alt)
qed

lemma failures_open:
  "cb_locks b \<Longrightarrow> cb_phase b = Open \<Longrightarrow> exec_fold CircuitBreaker_record_failure ts b = Done b"
  by (induction ts) (simp_all add: cb_defs)

lemma successes_half_open:
  assumes "cb_locks b" and "cb_phase b = HalfOpen" and "unat (cb_success_count b) + n < unat (cb_success_threshold b)"
  shows "\<exists>b'. exec_fold (\<lambda>_. CircuitBreaker_record_success) [0..<n] b = Done b' \<and> cb_locks b' \<and> cb_phase b' = HalfOpen
     \<and> unat (cb_success_count b') = unat (cb_success_count b) + n
     \<and> cb_success_threshold b' = cb_success_threshold b"
  using assms(3)
proof (induction n)
  case (Suc n)
  then obtain b' where b': "exec_fold (\<lambda>_. CircuitBreaker_record_success) [0..<n] b = Done b'" "cb_locks b'"
    "cb_phase b' = HalfOpen" "unat (cb_success_count b') = unat (cb_success_count b) + n"
    "cb_success_threshold b' = cb_success_threshold b" by auto
  have c: "cb_success_count b' < cb_success_threshold b'"
    using Suc.prems b'(4,5) by (simp add: word_less_nat_alt)
  have "\<not> cb_success_threshold b' \<le> cb_success_count b' + 1"
    using Suc.prems b'(4,5) unat_less_Suc [OF c] by (simp add: word_le_nat_alt)
  then have "CircuitBreaker_record_success b' = Done (b'\<lparr>cb_success_count := cb_success_count b' + 1\<rparr>)"
    using b'(2,3) by (simp add: cb_defs)
  then show ?case
    using b' unat_less_Suc [OF c] by (simp add: exec_fold_append cb_locks_def cb_phase_def)
qed (use assms in auto)

lemma success_closes:
  assumes "cb_locks b" and "cb_phase b = HalfOpen" and "unat (cb_success_threshold b) = unat (cb_success_count b) + 1"
  shows "\<exists>b'. CircuitBreaker_record_success b = Done b' \<and> cb_locks b' \<and> cb_phase b' = Closed"
proof -
  have "cb_success_count b < cb_success_threshold b"
    using assms(3) by (simp add: word_less_nat_alt)
  from unat_less_Suc [OF this] assms show ?thesis
    by (simp add: cb_defs word_le_nat_alt)
qed

lemma successes_closed:
  "cb_locks b \<Longrightarrow> cb_phase b = Closed \<Longrightarrow>
   \<exists>b'. exec_fold (\<lambda>_. CircuitBreaker_record_success) ns b = Done b' \<and> cb_phase b' = Closed"
proof (induction ns arbitrary: b)
  case (Cons n ns)
  then have "CircuitBreaker_record_success b = Done (b\<lparr>cb_failure_count := 0\<rparr>)"
    by (simp add: cb_defs)
  then show ?case
    using Cons.IH [of "b\<lparr>cb_failure_count := 0\<rparr>"] Cons.prems by (simp add: cb_locks_def cb_phase_def)
qed simp

section \<open>Properties\<close>

text \<open>The backoff collapses to zero. With a backoff factor of 2 (the factor of every built-in policy),
  from attempt 33 on the 32-bit power wraps to 0 and the delay is zero, whatever the initial and the
  maximal delay are.\<close>

lemma retry_delay_wraps_to_zero:
  assumes "rp_backoff_factor p = 2" and "33 \<le> attempt"
  shows "RetryPolicy_delay_for_attempt p attempt = 0"
proof -
  have "32 \<le> unat attempt - 1" using assms(2) by (simp add: word_le_nat_alt)
  then have "(2 :: nat) ^ (unat attempt - 1) mod 2 ^ 32 = 0"
    by (metis dvd_imp_mod_0 le_imp_power_dvd)
  moreover have "attempt \<noteq> 0" using assms(2) by auto
  ultimately show ?thesis
    using assms(1) by (simp add: delay_in_ms)
qed

text \<open>C24: Backoff schedule. For every attempt, and delays whose milliseconds fit into 64 bits, the delay is
  the initial delay times the factor \<open>backoff_factor ^ (attempt - 1)\<close>, capped at the maximal delay, in
  whole milliseconds. The product saturates instead of wrapping, but the factor itself is a 32-bit
  power that wraps: with a backoff factor of 2, that of every built-in policy, the delay is zero from
  attempt 33 on.\<close>

theorem retry_delay_exponential:
  assumes "attempt \<noteq> 0" and "rp_initial_delay p div 1000000 < 2 ^ 64" and "rp_max_delay p div 1000000 < 2 ^ 64"
  shows "RetryPolicy_delay_for_attempt p attempt =
      min (rp_initial_delay p div 1000000 * (unat (rp_backoff_factor p) ^ (unat attempt - 1) mod 2 ^ 32))
          (rp_max_delay p div 1000000) * 1000000
    \<and> (rp_backoff_factor p = 2 \<and> 33 \<le> attempt \<longrightarrow> RetryPolicy_delay_for_attempt p attempt = 0)"
  using assms retry_delay_wraps_to_zero [of p attempt] by (simp add: delay_in_ms unat_as_millis min.assoc)

theorem retry_delay_exponential_witness:
  "RetryPolicy_delay_for_attempt RetryPolicy_default 3 = 400 * 1000000
   \<and> RetryPolicy_delay_for_attempt RetryPolicy_default 33 = 0"
  using retry_delay_exponential [of 3 RetryPolicy_default] retry_delay_exponential [of 33 RetryPolicy_default]
  by (simp add: RetryPolicy_default_def from_millis_def from_secs_def)

text \<open>The backoff never exceeds the policy's maximal delay, for every policy and every attempt, also
  where the power wraps or the product saturates.\<close>

lemma retry_delay_capped: "RetryPolicy_delay_for_attempt p attempt \<le> rp_max_delay p"
proof (cases "attempt = 0")
  case False
  have "RetryPolicy_delay_for_attempt p attempt \<le> unat (as_millis_u64 (rp_max_delay p)) * 1000000"
    using delay_in_ms [OF False, of p] by simp
  also have "\<dots> \<le> rp_max_delay p div 1000000 * 1000000"
    by (intro mult_le_mono1) (simp add: unat_as_millis)
  also have "\<dots> \<le> rp_max_delay p" by simp
  finally show ?thesis .
qed (simp add: RetryPolicy_delay_for_attempt_def)

text \<open>C23: Failure detection. Take any calls on a new detector, then a heartbeat of worker \<open>w\<close> at time \<open>t0\<close>, then
  any calls among which there is no other heartbeat, registration, removal or failed task of \<open>w\<close>, the clock
  not running backwards for \<open>w\<close>. No call panics, and \<open>w\<close> is Healthy while the last update is at most the
  heartbeat timeout after \<open>t0\<close> (or there is none), Suspected up to three timeouts, and Failed beyond. But a worker
  that is registered and never heard of again stays Unknown, which counts as available, however late the
  updates are. (The timeout is one whose triple is a valid duration, and the failure threshold is positive.)\<close>

theorem detector_status_by_heartbeat_age:
  assumes "timeout * 3 \<le> DURATION_MAX" and "0 < threshold" and "\<forall>c \<in> set after. \<not> concerns w c"
    and "sorted (t0 # update_times w after)"
  shows "(\<exists>fd. exec_fold detector_do (before @ Heartbeat t0 w # after) (FailureDetector_with_config interval timeout threshold) = Done fd
       \<and> FailureDetector_get_status fd w =
           Done (let age = last (t0 # update_times w after) - t0
                 in if timeout * 3 < age then FailedStatus else if timeout < age then Suspected else Healthy))
    \<and> (\<exists>fd. exec_fold detector_do (before @ Register w # after) (FailureDetector_with_config interval timeout threshold) = Done fd
       \<and> FailureDetector_get_status fd w = Done Unknown \<and> FailureDetector_is_available fd w = Done True)"
proof (intro conjI)
  obtain fd h where fd: "exec_fold detector_do (before @ Heartbeat t0 w # after)
      (FailureDetector_with_config interval timeout threshold) = Done fd" "\<not> poisoned (fd_workers fd)"
    "fd_health fd w = fold (health_after w timeout threshold) after (health_after w timeout threshold (Heartbeat t0 w) h)"
    by (rule detector_run [OF assms(1)])
  let ?h = "WorkerHealth_record_heartbeat t0 (case h of Some x \<Rightarrow> x | None \<Rightarrow> WorkerHealth_new w)"
  obtain h' where "fold (health_after w timeout threshold) after (Some ?h) = Some h'"
    "wh_status h' = status_at t0 timeout (last (t0 # update_times w after))"
    using quiet_status [of ?h t0 threshold timeout t0 w after] assms(2,3,4)
    by (auto simp: WorkerHealth_record_heartbeat_def status_at_def)
  with fd show "\<exists>fd. exec_fold detector_do (before @ Heartbeat t0 w # after) (FailureDetector_with_config interval timeout threshold) = Done fd
       \<and> FailureDetector_get_status fd w =
           Done (let age = last (t0 # update_times w after) - t0
                 in if timeout * 3 < age then FailedStatus else if timeout < age then Suspected else Healthy)"
    by (simp add: get_status_health status_at_def Let_def)
next
  obtain fd h where fd: "exec_fold detector_do (before @ Register w # after)
      (FailureDetector_with_config interval timeout threshold) = Done fd" "\<not> poisoned (fd_workers fd)"
    "fd_health fd w = fold (health_after w timeout threshold) after (health_after w timeout threshold (Register w) h)"
    by (rule detector_run [OF assms(1)])
  obtain h' where "fold (health_after w timeout threshold) after (Some (WorkerHealth_new w)) = Some h'" "wh_status h' = Unknown"
    using quiet_unheard [of "WorkerHealth_new w" threshold after w timeout] assms(2,3) by (auto simp: WorkerHealth_new_def)
  with fd show "\<exists>fd. exec_fold detector_do (before @ Register w # after) (FailureDetector_with_config interval timeout threshold) = Done fd
       \<and> FailureDetector_get_status fd w = Done Unknown \<and> FailureDetector_is_available fd w = Done True"
    by (simp add: get_status_health FailureDetector_is_available_def HealthStatus_is_available_def)
qed

text \<open>The worker was heard of at time 1, failed a task, and was heard of again at time 5.\<close>

theorem detector_status_by_heartbeat_age_witness:
  "\<exists>fd. exec_fold detector_do
      ([Heartbeat 1 (WorkerId 4), Task_result (WorkerId 4) False] @ Heartbeat 5 (WorkerId 4)
        # [Update (\<lambda>_. 6), Heartbeat 8 (WorkerId 2), Update (\<lambda>_. 10)]) (FailureDetector_with_config 1 3 2) = Done fd
     \<and> FailureDetector_get_status fd (WorkerId 4) = Done Suspected"
  using detector_status_by_heartbeat_age [of 3 2 "[Update (\<lambda>_. 6), Heartbeat 8 (WorkerId 2), Update (\<lambda>_. 10)]" "WorkerId 4" 5
      "[Heartbeat 1 (WorkerId 4), Task_result (WorkerId 4) False]" 1]
  by (simp add: DURATION_MAX_def del: exec_fold.simps append.simps)

text \<open>C10: Circuit-breaker invariant. In every state reachable from a new breaker by passing time and any
  calls, no call panics; when the circuit is closed fewer failures than the threshold are counted and
  no opening time is kept, when it is open an opening time not later than now is kept, and when it is
  half-open fewer successes than needed are counted.\<close>

theorem breaker_reachable_invariant:
  assumes "cb_step\<^sup>*\<^sup>* (CircuitBreaker_new f s r, t0) (b, t)"
  shows "(\<exists>a b1 b2 b3 b4. CircuitBreaker_allows_execution t b = Done (a, b1) \<and> CircuitBreaker_record_success b = Done b2
        \<and> CircuitBreaker_record_failure t b = Done b3 \<and> CircuitBreaker_reset b = Done b4)
     \<and> (case contents (cb_state b) of
          Closed \<Rightarrow> contents (cb_opened_at b) = None \<and> (cb_failure_count b = 0 \<or> cb_failure_count b < cb_failure_threshold b)
        | Open \<Rightarrow> \<exists>t1 \<le> t. contents (cb_opened_at b) = Some t1
        | HalfOpen \<Rightarrow> cb_success_count b = 0 \<or> cb_success_count b < cb_success_threshold b)"
proof -
  have inv: "cb_inv (b, t)"
    using breaker.inv_reachable [OF _ assms] by auto
  then have "cb_locks b" by simp
  from no_panic [OF this] inv show ?thesis
    by (auto simp: cb_phase_def split: CircuitState.splits)
qed

theorem breaker_reachable_invariant_witness:
  "\<exists>b. CircuitBreaker_record_failure 7 (CircuitBreaker_new 1 1 10) = Done b \<and> contents (cb_state b) = Open
     \<and> (\<exists>t1 \<le> 7. contents (cb_opened_at b) = Some t1)"
proof -
  obtain b where b: "CircuitBreaker_record_failure 7 (CircuitBreaker_new 1 1 10) = Done b" "contents (cb_state b) = Open"
    by (simp add: cb_defs CircuitBreaker_new_def)
  then have "cb_step\<^sup>*\<^sup>* (CircuitBreaker_new 1 1 10, 7) (b, 7)"
    by (auto intro: cb_step.failure)
  from breaker_reachable_invariant [OF this] b show ?thesis by auto
qed

text \<open>C29: When the circuit opens. After consecutive failures at times \<open>ts\<close>, a new breaker with a positive
  failure threshold is open exactly when there were at least that many, and it keeps the time of the
  failure that reached the threshold; later failures do not move it.\<close>

theorem breaker_opens_at_threshold:
  assumes "0 < f"
  shows "\<exists>b. exec_fold CircuitBreaker_record_failure ts (CircuitBreaker_new f s r) = Done b
     \<and> contents (cb_state b) = (if unat f \<le> length ts then Open else Closed)
     \<and> contents (cb_opened_at b) = (if unat f \<le> length ts then Some (ts ! (unat f - 1)) else None)"
proof -
  let ?b0 = "CircuitBreaker_new f s r"
  have b0: "cb_locks ?b0" "cb_phase ?b0 = Closed" "unat (cb_failure_count ?b0) = 0" "cb_failure_threshold ?b0 = f"
    by (simp_all add: CircuitBreaker_new_def cb_locks_def cb_phase_def)
  have f: "0 < unat f" using assms by (simp add: word_less_nat_alt)
  show ?thesis
  proof (cases "unat f \<le> length ts")
    case True
    let ?n = "unat f - 1"
    have split: "ts = take ?n ts @ (ts ! ?n) # drop (unat f) ts"
      using True f by (metis Suc_diff_1 Suc_le_eq id_take_nth_drop)
    have len: "length (take ?n ts) = ?n" using True by simp
    obtain b1 where b1: "exec_fold CircuitBreaker_record_failure (take ?n ts) ?b0 = Done b1" "cb_locks b1"
      "cb_phase b1 = Closed" "unat (cb_failure_count b1) = ?n" "cb_failure_threshold b1 = f"
      using failures_closed [OF b0(1,2), of "take ?n ts"] b0(3,4) len f by auto
    then obtain b2 where b2: "CircuitBreaker_record_failure (ts ! ?n) b1 = Done b2" "cb_locks b2"
      "cb_phase b2 = Open" "contents (cb_opened_at b2) = Some (ts ! ?n)"
      using failure_opens [of b1 "ts ! ?n"] f by auto
    have "exec_fold CircuitBreaker_record_failure ts ?b0 = Done b2"
      using b1(1) b2(1) failures_open [OF b2(2,3)] by (subst split) (simp add: exec_fold_append)
    with b2 True show ?thesis by (simp add: cb_phase_def)
  next
    case False
    then show ?thesis
      using failures_closed [OF b0(1,2), of ts] b0(3,4) by (auto simp: cb_phase_def CircuitBreaker_new_def)
  qed
qed

theorem breaker_opens_at_threshold_witness:
  "\<exists>b. exec_fold CircuitBreaker_record_failure [10, 20, 30, 40] (CircuitBreaker_new 3 1 5) = Done b
     \<and> contents (cb_state b) = Open \<and> contents (cb_opened_at b) = Some 30"
  using breaker_opens_at_threshold [of 3 "[10, 20, 30, 40]" 1 5] by simp

text \<open>C39: Failing fast and recovering. Whenever a reachable breaker is open since time \<open>t1\<close>, a request at
  time \<open>now\<close> is refused, without any effect, until the reset timeout has elapsed, and then admitted with
  the circuit half-open; from there, \<open>n\<close> consecutive successes close the circuit exactly when \<open>n\<close> reaches
  the (positive) success threshold, and a failure opens it again as of its own time.\<close>

theorem breaker_recovers:
  assumes "cb_step\<^sup>*\<^sup>* (CircuitBreaker_new f s r, t0) (b, t)" and "contents (cb_state b) = Open"
    and "contents (cb_opened_at b) = Some t1" and "0 < cb_success_threshold b"
  shows "if now - t1 < cb_reset_timeout b then CircuitBreaker_allows_execution now b = Done (False, b)
     else \<exists>b'. CircuitBreaker_allows_execution now b = Done (True, b') \<and> contents (cb_state b') = HalfOpen
        \<and> (\<exists>b''. exec_fold (\<lambda>_. CircuitBreaker_record_success) [0..<n] b' = Done b''
              \<and> contents (cb_state b'') = (if unat (cb_success_threshold b) \<le> n then Closed else HalfOpen))
        \<and> (\<exists>b''. CircuitBreaker_record_failure t2 b' = Done b'' \<and> contents (cb_state b'') = Open
              \<and> contents (cb_opened_at b'') = Some t2)"
proof (cases "now - t1 < cb_reset_timeout b")
  case True
  have "cb_locks b" using assms(1) by (rule reachable_locks)
  with True assms(2,3) show ?thesis by (simp add: cb_defs elapsed_def)
next
  case False
  let ?b = "b\<lparr>cb_state := (cb_state b)\<lparr>contents := HalfOpen\<rparr>, cb_success_count := 0, cb_failure_count := 0\<rparr>"
  let ?s = "unat (cb_success_threshold b)"
  have l: "cb_locks b" using assms(1) by (rule reachable_locks)
  have b: "cb_locks ?b" "cb_phase ?b = HalfOpen" "unat (cb_success_count ?b) = 0" "cb_success_threshold ?b = cb_success_threshold b"
    using l by (simp_all add: cb_locks_def cb_phase_def)
  have s: "0 < ?s" using assms(4) by (simp add: word_less_nat_alt)
  have "CircuitBreaker_allows_execution now b = Done (True, ?b)"
    using False l assms(2,3) by (simp add: cb_defs elapsed_def)
  moreover have "\<exists>b''. exec_fold (\<lambda>_. CircuitBreaker_record_success) [0..<n] ?b = Done b''
      \<and> cb_phase b'' = (if ?s \<le> n then Closed else HalfOpen)"
  proof (cases "?s \<le> n")
    case True
    then have split: "[0..<n] = [0..<?s - 1] @ (?s - 1) # [?s..<n]"
      using s upt_add_eq_append [of 0 "?s - 1" "n - (?s - 1)"] by (simp add: upt_conv_Cons)
    obtain b1 where b1: "exec_fold (\<lambda>_. CircuitBreaker_record_success) [0..<?s - 1] ?b = Done b1" "cb_locks b1"
      "cb_phase b1 = HalfOpen" "unat (cb_success_count b1) = ?s - 1" "cb_success_threshold b1 = cb_success_threshold b"
      using successes_half_open [OF b(1,2), of "?s - 1"] b(3,4) s by auto
    then obtain b2 where "CircuitBreaker_record_success b1 = Done b2" "cb_locks b2" "cb_phase b2 = Closed"
      using success_closes [of b1] s by auto
    then show ?thesis
      using b1(1) successes_closed [of b2 "[?s..<n]"] True by (simp only: split exec_fold_append) simp
  next
    case False
    then show ?thesis using successes_half_open [OF b(1,2), of n] b(3,4) by auto
  qed
  moreover have "\<exists>b''. CircuitBreaker_record_failure t2 ?b = Done b'' \<and> contents (cb_state b'') = Open
      \<and> contents (cb_opened_at b'') = Some t2"
    using l by (simp add: cb_defs)
  ultimately show ?thesis using False by (simp add: cb_phase_def)
qed

theorem breaker_recovers_witness:
  "\<exists>b b'. CircuitBreaker_record_failure 7 (CircuitBreaker_new 1 2 10) = Done b
     \<and> CircuitBreaker_allows_execution 16 b = Done (False, b)
     \<and> CircuitBreaker_allows_execution 17 b = Done (True, b') \<and> contents (cb_state b') = HalfOpen"
proof -
  obtain b where b: "CircuitBreaker_record_failure 7 (CircuitBreaker_new 1 2 10) = Done b" "contents (cb_state b) = Open"
    "contents (cb_opened_at b) = Some 7" "cb_success_threshold b = 2" "cb_reset_timeout b = 10"
    by (simp add: cb_defs CircuitBreaker_new_def)
  then have r: "cb_step\<^sup>*\<^sup>* (CircuitBreaker_new 1 2 10, 7) (b, 7)"
    by (auto intro: cb_step.failure)
  from breaker_recovers [OF r b(2,3), of 16] breaker_recovers [OF r b(2,3), of 17] b show ?thesis by auto
qed

end
