(* ===== verification/Pepita_Concurrent_Breaker.thy ===== *)
theory Pepita_Concurrent_Breaker
  imports Pepita_Resilience Pepita_Threads
begin

text \<open>
  The circuit breaker of \<^verbatim>\<open>src/src/fault.rs\<close> under concurrent calls.  Its methods take \<^verbatim>\<open>&self\<close>: they read the
  state, release its lock, and act on what they read, while other threads may change it.  A transition
  holds the write lock on the state, and takes the lock on the opening time inside it.

  The model makes every access a step: reading the state, taking a lock, each atomic operation on the two
  counters, reading the opening time, releasing a lock.  The locks are a writer flag for the state, whose readers
  release it within the same statement, and a writer flag and a number of readers for the opening time.  No
  thread panics while it holds a lock, so that none is ever poisoned.
\<close>

section \<open>Program points and accesses\<close>

record breaker_shared =
  bs_breaker :: CircuitBreaker
  bs_state_writer :: bool
  bs_opened_writer :: bool
  bs_opened_readers :: nat
  bs_now :: instant

datatype breaker_pc =
    Returned "bool option"
  | Allow_state | Allow_opened | Allow_check
  | Success_state | Success_clear | Success_count
  | Failure_state | Failure_count
  | Open_state | Open_opened | Open_success | Open_drop_opened | Open_drop_state
  | Half_state | Half_success | Half_failure | Half_drop_state
  | Closed_state | Closed_opened | Closed_failure | Closed_success | Closed_drop_opened | Closed_drop_state

text \<open>Writing the contents of the two locks.\<close>

definition write_state :: "CircuitState \<Rightarrow> CircuitBreaker \<Rightarrow> CircuitBreaker" where
  "write_state st b = b\<lparr>cb_state := (cb_state b)\<lparr>contents := st\<rparr>\<rparr>"

definition write_opened :: "instant option \<Rightarrow> CircuitBreaker \<Rightarrow> CircuitBreaker" where
  "write_opened t b = b\<lparr>cb_opened_at := (cb_opened_at b)\<lparr>contents := t\<rparr>\<rparr>"

definition set_breaker :: "CircuitBreaker \<Rightarrow> breaker_shared \<Rightarrow> breaker_shared" where
  "set_breaker b s = s\<lparr>bs_breaker := b\<rparr>"

text \<open>\<^verbatim>\<open>self.state.write()\<close> followed by the assignment to the state, and \<^verbatim>\<open>self.opened_at.write()\<close> likewise.\<close>

definition lock_state :: "CircuitState \<Rightarrow> breaker_shared \<Rightarrow> breaker_pc \<Rightarrow> (breaker_shared \<times> breaker_pc) option" where
  "lock_state st s p =
     (if bs_state_writer s then None
      else Some (s\<lparr>bs_state_writer := True, bs_breaker := write_state st (bs_breaker s)\<rparr>, p))"

definition lock_opened :: "instant option \<Rightarrow> breaker_shared \<Rightarrow> breaker_pc \<Rightarrow> (breaker_shared \<times> breaker_pc) option" where
  "lock_opened t s p =
     (if bs_opened_writer s \<or> bs_opened_readers s \<noteq> 0 then None
      else Some (s\<lparr>bs_opened_writer := True, bs_breaker := write_opened t (bs_breaker s)\<rparr>, p))"

text \<open>\<^verbatim>\<open>allows_execution\<close>, \<^verbatim>\<open>record_success\<close> and \<^verbatim>\<open>record_failure\<close> up to their transitions.\<close>

fun breaker_call :: "breaker_shared \<Rightarrow> breaker_pc \<Rightarrow> (breaker_shared \<times> breaker_pc) option" where
  "breaker_call s Allow_state =
     (if bs_state_writer s then None
      else Some (s, case contents (cb_state (bs_breaker s)) of
          Closed \<Rightarrow> Returned (Some True) | HalfOpen \<Rightarrow> Returned (Some True) | Open \<Rightarrow> Allow_opened))"
| "breaker_call s Allow_opened =
     (if bs_opened_writer s then None
      else Some (s\<lparr>bs_opened_readers := bs_opened_readers s + 1\<rparr>, Allow_check))"
| "breaker_call s Allow_check =
     Some (s\<lparr>bs_opened_readers := bs_opened_readers s - 1\<rparr>,
       case contents (cb_opened_at (bs_breaker s)) of
         None \<Rightarrow> Returned (Some False)
       | Some opened \<Rightarrow>
           if cb_reset_timeout (bs_breaker s) \<le> elapsed (bs_now s) opened then Half_state
           else Returned (Some False))"
| "breaker_call s Success_state =
     (if bs_state_writer s then None
      else Some (s, case contents (cb_state (bs_breaker s)) of
          Closed \<Rightarrow> Success_clear | HalfOpen \<Rightarrow> Success_count | Open \<Rightarrow> Returned None))"
| "breaker_call s Success_clear = Some (set_breaker ((bs_breaker s)\<lparr>cb_failure_count := 0\<rparr>) s, Returned None)"
| "breaker_call s Success_count =
     (let count = cb_success_count (bs_breaker s) + 1
      in Some (set_breaker ((bs_breaker s)\<lparr>cb_success_count := count\<rparr>) s,
               if cb_success_threshold (bs_breaker s) \<le> count then Closed_state else Returned None))"
| "breaker_call s Failure_state =
     (if bs_state_writer s then None
      else Some (s, case contents (cb_state (bs_breaker s)) of
          Closed \<Rightarrow> Failure_count | HalfOpen \<Rightarrow> Open_state | Open \<Rightarrow> Returned None))"
| "breaker_call s Failure_count =
     (let count = cb_failure_count (bs_breaker s) + 1
      in Some (set_breaker ((bs_breaker s)\<lparr>cb_failure_count := count\<rparr>) s,
               if cb_failure_threshold (bs_breaker s) \<le> count then Open_state else Returned None))"
| "breaker_call s _ = None"

text \<open>The three transitions; guards are dropped in the reverse order of their declaration.\<close>

fun breaker_transition :: "breaker_shared \<Rightarrow> breaker_pc \<Rightarrow> (breaker_shared \<times> breaker_pc) option" where
  "breaker_transition s Open_state = lock_state Open s Open_opened"
| "breaker_transition s Open_opened = lock_opened (Some (bs_now s)) s Open_success"
| "breaker_transition s Open_success =
     Some (set_breaker ((bs_breaker s)\<lparr>cb_success_count := 0\<rparr>) s, Open_drop_opened)"
| "breaker_transition s Open_drop_opened = Some (s\<lparr>bs_opened_writer := False\<rparr>, Open_drop_state)"
| "breaker_transition s Open_drop_state = Some (s\<lparr>bs_state_writer := False\<rparr>, Returned None)"
| "breaker_transition s Half_state = lock_state HalfOpen s Half_success"
| "breaker_transition s Half_success =
     Some (set_breaker ((bs_breaker s)\<lparr>cb_success_count := 0\<rparr>) s, Half_failure)"
| "breaker_transition s Half_failure =
     Some (set_breaker ((bs_breaker s)\<lparr>cb_failure_count := 0\<rparr>) s, Half_drop_state)"
| "breaker_transition s Half_drop_state = Some (s\<lparr>bs_state_writer := False\<rparr>, Returned (Some True))"
| "breaker_transition s Closed_state = lock_state Closed s Closed_opened"
| "breaker_transition s Closed_opened = lock_opened None s Closed_failure"
| "breaker_transition s Closed_failure =
     Some (set_breaker ((bs_breaker s)\<lparr>cb_failure_count := 0\<rparr>) s, Closed_success)"
| "breaker_transition s Closed_success =
     Some (set_breaker ((bs_breaker s)\<lparr>cb_success_count := 0\<rparr>) s, Closed_drop_opened)"
| "breaker_transition s Closed_drop_opened = Some (s\<lparr>bs_opened_writer := False\<rparr>, Closed_drop_state)"
| "breaker_transition s Closed_drop_state = Some (s\<lparr>bs_state_writer := False\<rparr>, Returned None)"
| "breaker_transition s _ = None"

definition breaker_access :: "breaker_shared \<Rightarrow> breaker_pc \<Rightarrow> (breaker_shared \<times> breaker_pc) option" where
  "breaker_access s p =
     (case breaker_call s p of None \<Rightarrow> breaker_transition s p | Some r \<Rightarrow> Some r)"

text \<open>The first accesses of \<^verbatim>\<open>allows_execution\<close>, \<^verbatim>\<open>record_success\<close>, \<^verbatim>\<open>record_failure\<close> and \<^verbatim>\<open>reset\<close>.\<close>

definition breaker_starts :: "breaker_pc \<Rightarrow> bool" where
  "breaker_starts p \<longleftrightarrow> List.member [Allow_state, Success_state, Failure_state, Closed_state] p"

fun breaker_idle :: "breaker_pc \<Rightarrow> bool" where
  "breaker_idle (Returned _) = True"
| "breaker_idle _ = False"

text \<open>The clock advances.\<close>

definition breaker_tick :: "nat \<Rightarrow> breaker_shared \<Rightarrow> breaker_shared" where
  "breaker_tick d s = s\<lparr>bs_now := bs_now s + d\<rparr>"

abbreviation "breaker_step \<equiv> interleave breaker_access breaker_idle breaker_starts breaker_tick"
abbreviation "breaker_play \<equiv> play breaker_access breaker_idle breaker_starts breaker_tick"

definition breaker_start :: "CircuitBreaker \<Rightarrow> instant \<Rightarrow> nat \<Rightarrow> breaker_shared \<times> breaker_pc list" where
  "breaker_start b now k =
     (\<lparr>bs_breaker = b, bs_state_writer = False, bs_opened_writer = False, bs_opened_readers = 0, bs_now = now\<rparr>,
      replicate k (Returned None))"

section \<open>The invariant\<close>

fun holds_state :: "breaker_pc \<Rightarrow> bool" where
  "holds_state Open_opened = True"
| "holds_state Open_success = True"
| "holds_state Open_drop_opened = True"
| "holds_state Open_drop_state = True"
| "holds_state Half_success = True"
| "holds_state Half_failure = True"
| "holds_state Half_drop_state = True"
| "holds_state Closed_opened = True"
| "holds_state Closed_failure = True"
| "holds_state Closed_success = True"
| "holds_state Closed_drop_opened = True"
| "holds_state Closed_drop_state = True"
| "holds_state _ = False"

fun holds_opened :: "breaker_pc \<Rightarrow> bool" where
  "holds_opened Open_success = True"
| "holds_opened Open_drop_opened = True"
| "holds_opened Closed_failure = True"
| "holds_opened Closed_success = True"
| "holds_opened Closed_drop_opened = True"
| "holds_opened _ = False"

fun reads_opened :: "breaker_pc \<Rightarrow> bool" where
  "reads_opened Allow_check = True"
| "reads_opened _ = False"

text \<open>What a thread inside a transition knows of the state and of the opening time.\<close>

fun transition_view :: "CircuitState \<Rightarrow> instant option \<Rightarrow> breaker_pc \<Rightarrow> bool" where
  "transition_view st t Open_opened \<longleftrightarrow> st = Open"
| "transition_view st t Open_success \<longleftrightarrow> st = Open \<and> t \<noteq> None"
| "transition_view st t Open_drop_opened \<longleftrightarrow> st = Open \<and> t \<noteq> None"
| "transition_view st t Open_drop_state \<longleftrightarrow> st = Open \<and> t \<noteq> None"
| "transition_view st t Half_success \<longleftrightarrow> st = HalfOpen"
| "transition_view st t Half_failure \<longleftrightarrow> st = HalfOpen"
| "transition_view st t Half_drop_state \<longleftrightarrow> st = HalfOpen"
| "transition_view st t Closed_opened \<longleftrightarrow> st = Closed"
| "transition_view st t Closed_failure \<longleftrightarrow> st = Closed \<and> t = None"
| "transition_view st t Closed_success \<longleftrightarrow> st = Closed \<and> t = None"
| "transition_view st t Closed_drop_opened \<longleftrightarrow> st = Closed \<and> t = None"
| "transition_view st t Closed_drop_state \<longleftrightarrow> st = Closed \<and> t = None"
| "transition_view st t _ \<longleftrightarrow> True"

definition opened_of :: "CircuitBreaker \<Rightarrow> instant option" where
  "opened_of b = contents (cb_opened_at b)"

text \<open>An open circuit has an opening time, and a closed one has none.\<close>

definition stamped :: "CircuitBreaker \<Rightarrow> bool" where
  "stamped b \<longleftrightarrow> (cb_phase b = Open \<longrightarrow> opened_of b \<noteq> None) \<and> (cb_phase b = Closed \<longrightarrow> opened_of b = None)"

fun breaker_inv :: "breaker_shared \<times> breaker_pc list \<Rightarrow> bool" where
  "breaker_inv (s, ps) \<longleftrightarrow> cb_locks (bs_breaker s)
     \<and> at holds_state ps = of_bool (bs_state_writer s) \<and> at holds_opened ps = of_bool (bs_opened_writer s)
     \<and> at reads_opened ps = bs_opened_readers s \<and> (bs_opened_writer s \<longrightarrow> bs_opened_readers s = 0)
     \<and> (\<forall>p \<in> set ps. transition_view (cb_phase (bs_breaker s)) (opened_of (bs_breaker s)) p)
     \<and> (\<not> bs_state_writer s \<longrightarrow> stamped (bs_breaker s))
     \<and> (\<forall>t. opened_of (bs_breaker s) = Some t \<longrightarrow> t \<le> bs_now s)"

lemma view_outside: "\<not> holds_state p \<Longrightarrow> transition_view st t p"
  by (cases p) simp_all

lemma opened_holder: "holds_opened p \<Longrightarrow> holds_state p"
  by (cases p) simp_all

lemmas breaker_defs = breaker_access_def lock_state_def lock_opened_def write_state_def write_opened_def
  set_breaker_def stamped_def opened_of_def cb_phase_def cb_locks_def Let_def

text \<open>What one access does to the locks, and when it writes the state or the opening time.\<close>

lemma access_locks:
  assumes "breaker_access s p = Some (s', p')" and "holds_state p \<Longrightarrow> bs_state_writer s"
    and "holds_opened p \<Longrightarrow> bs_opened_writer s" and "reads_opened p \<Longrightarrow> 0 < bs_opened_readers s"
    and "bs_opened_writer s \<longrightarrow> bs_opened_readers s = 0"
  shows "of_bool (bs_state_writer s') + of_bool (holds_state p) = (of_bool (bs_state_writer s) + of_bool (holds_state p') :: nat)"
    and "of_bool (bs_opened_writer s') + of_bool (holds_opened p) = (of_bool (bs_opened_writer s) + of_bool (holds_opened p') :: nat)"
    and "bs_opened_readers s' + of_bool (reads_opened p) = bs_opened_readers s + of_bool (reads_opened p')"
    and "bs_opened_writer s' \<longrightarrow> bs_opened_readers s' = 0"
  using assms
  by (cases p; auto simp: breaker_defs split: CircuitState.splits option.splits if_splits)+

lemma access_view:
  assumes "breaker_access s p = Some (s', p')" and "holds_state p \<Longrightarrow> bs_state_writer s"
    and "cb_locks (bs_breaker s)" and "transition_view (cb_phase (bs_breaker s)) (opened_of (bs_breaker s)) p"
    and "\<not> bs_state_writer s \<longrightarrow> stamped (bs_breaker s)"
    and "\<forall>t. opened_of (bs_breaker s) = Some t \<longrightarrow> t \<le> bs_now s"
  shows "cb_locks (bs_breaker s')"
    and "transition_view (cb_phase (bs_breaker s')) (opened_of (bs_breaker s')) p'"
    and "\<not> bs_state_writer s' \<longrightarrow> stamped (bs_breaker s')"
    and "\<forall>t. opened_of (bs_breaker s') = Some t \<longrightarrow> t \<le> bs_now s'"
    and "\<not> holds_state p \<and> bs_state_writer s \<longrightarrow>
           cb_phase (bs_breaker s') = cb_phase (bs_breaker s) \<and> opened_of (bs_breaker s') = opened_of (bs_breaker s)"
  using assms
  by (cases p; auto simp: breaker_defs split: CircuitState.splits option.splits if_splits)+

text \<open>A bound on the accesses a call still has to make.\<close>

fun breaker_remaining :: "breaker_pc \<Rightarrow> nat" where
  "breaker_remaining (Returned _) = 0"
| "breaker_remaining Allow_state = 7" | "breaker_remaining Allow_opened = 6" | "breaker_remaining Allow_check = 5"
| "breaker_remaining Success_state = 8" | "breaker_remaining Success_clear = 1" | "breaker_remaining Success_count = 7"
| "breaker_remaining Failure_state = 7" | "breaker_remaining Failure_count = 6"
| "breaker_remaining Open_state = 5" | "breaker_remaining Open_opened = 4" | "breaker_remaining Open_success = 3"
| "breaker_remaining Open_drop_opened = 2" | "breaker_remaining Open_drop_state = 1"
| "breaker_remaining Half_state = 4" | "breaker_remaining Half_success = 3" | "breaker_remaining Half_failure = 2"
| "breaker_remaining Half_drop_state = 1"
| "breaker_remaining Closed_state = 6" | "breaker_remaining Closed_opened = 5" | "breaker_remaining Closed_failure = 4"
| "breaker_remaining Closed_success = 3" | "breaker_remaining Closed_drop_opened = 2"
| "breaker_remaining Closed_drop_state = 1"

lemma access_remaining:
  "breaker_access s p = Some (s', p') \<Longrightarrow> breaker_remaining p' < breaker_remaining p"
  by (cases p) (auto simp: breaker_access_def lock_state_def lock_opened_def Let_def
      split: CircuitState.splits option.splits if_splits)

text \<open>When an access has to wait.\<close>

lemma access_waits:
  "breaker_access s p = None \<Longrightarrow> breaker_idle p
     \<or> bs_state_writer s \<and> \<not> holds_state p \<and> \<not> reads_opened p
     \<or> bs_opened_writer s \<and> \<not> holds_opened p \<and> \<not> reads_opened p
     \<or> bs_opened_readers s \<noteq> 0 \<and> \<not> holds_opened p \<and> \<not> reads_opened p"
  by (cases p) (auto simp: breaker_access_def lock_state_def lock_opened_def Let_def split: if_splits)

lemma view_update:
  assumes "at holds_state ps \<le> 1" and "t < length ps" and "\<forall>q \<in> set ps. transition_view st o1 q"
    and "transition_view st' o2 p'" and "holds_state (ps ! t) \<or> at holds_state ps = 0 \<or> (st' = st \<and> o2 = o1)"
  shows "\<forall>q \<in> set (ps[t := p']). transition_view st' o2 q"
proof
  fix q assume "q \<in> set (ps[t := p'])"
  then obtain u where u: "u < length ps" "q = ps[t := p'] ! u" by (auto simp: in_set_conv_nth)
  show "transition_view st' o2 q"
  proof (cases "u = t \<or> (st' = st \<and> o2 = o1)")
    case True
    then show ?thesis using u assms(2-4) by (auto simp: nth_list_update)
  next
    case False
    have "at holds_state (ps[t := Returned None]) = 0"
      using at_update [OF assms(2), of holds_state "Returned None"] assms(1,5) False by auto
    then have "\<not> holds_state (ps ! u)"
      using at_pos [of u "ps[t := Returned None]" holds_state] u False by auto
    then show ?thesis using u False by (simp add: view_outside)
  qed
qed

lemma breaker_turn_inv:
  assumes inv: "breaker_inv (s, ps)" and t: "t < length ps" and a: "breaker_access s (ps ! t) = Some (s', p')"
  shows "breaker_inv (s', ps[t := p'])"
proof -
  have st: "holds_state (ps ! t) \<Longrightarrow> bs_state_writer s" and op: "holds_opened (ps ! t) \<Longrightarrow> bs_opened_writer s"
    and rd: "reads_opened (ps ! t) \<Longrightarrow> 0 < bs_opened_readers s"
    using inv at_pos [OF t] by (fastforce split: if_splits)+
  note l = access_locks [OF a st op rd]
  note v = access_view [OF a st]
  have ex: "bs_opened_writer s \<longrightarrow> bs_opened_readers s = 0" using inv by simp
  have view: "transition_view (cb_phase (bs_breaker s)) (opened_of (bs_breaker s)) (ps ! t)"
    using inv t by simp
  have rest: "cb_locks (bs_breaker s)" "\<not> bs_state_writer s \<longrightarrow> stamped (bs_breaker s)"
    "\<forall>t. opened_of (bs_breaker s) = Some t \<longrightarrow> t \<le> bs_now s" using inv by simp_all
  have "\<forall>q \<in> set (ps[t := p']). transition_view (cb_phase (bs_breaker s')) (opened_of (bs_breaker s')) q"
    using inv v(5) [OF _ rest(1) view rest(2,3)] v(2) [OF _ rest(1) view rest(2,3)] st
    by (intro view_update [OF _ t]) auto
  moreover have "at holds_state (ps[t := p']) = of_bool (bs_state_writer s')"
    "at holds_opened (ps[t := p']) = of_bool (bs_opened_writer s')"
    "at reads_opened (ps[t := p']) = bs_opened_readers s'"
    using at_update [OF t, of holds_state p'] at_update [OF t, of holds_opened p']
      at_update [OF t, of reads_opened p'] l [OF _ _ _ ex] inv st op rd by simp_all
  ultimately show ?thesis
    using l(4) [OF _ _ _ ex] v(1,3,4) [OF _ rest(1) view rest(2,3)] st op rd by simp
qed

lemma breaker_not_stuck:
  assumes inv: "breaker_inv (s, ps)" and wait: "\<exists>p \<in> set ps. \<not> breaker_idle p"
  shows "\<exists>t < length ps. breaker_access s (ps ! t) \<noteq> None"
proof -
  have busy: "holds_opened p \<or> reads_opened p \<or> holds_state p \<Longrightarrow> \<not> breaker_idle p" for p by (cases p) simp_all
  consider "0 < at holds_opened ps" | "\<not> bs_opened_writer s" "0 < at reads_opened ps"
    | "\<not> bs_opened_writer s" "bs_opened_readers s = 0" "0 < at holds_state ps"
    | "\<not> bs_opened_writer s" "bs_opened_readers s = 0" "\<not> bs_state_writer s"
    using inv by fastforce
  then obtain t where t: "t < length ps" "\<not> breaker_idle (ps ! t)"
    "bs_state_writer s \<longrightarrow> holds_state (ps ! t) \<or> reads_opened (ps ! t)"
    "bs_opened_writer s \<or> bs_opened_readers s \<noteq> 0 \<longrightarrow> holds_opened (ps ! t) \<or> reads_opened (ps ! t)"
  proof cases
    case 1
    then show ?thesis using at_some [of holds_opened ps] busy opened_holder that by blast
  next
    case 2
    then show ?thesis using at_some [of reads_opened ps] busy that by blast
  next
    case 3
    then show ?thesis using at_some [of holds_state ps] busy that by blast
  next
    case 4
    then show ?thesis using wait that by (auto simp: in_set_conv_nth)
  qed
  with access_waits [of s "ps ! t"] show ?thesis by blast
qed

definition breaker_init :: "breaker_shared \<times> breaker_pc list \<Rightarrow> bool" where
  "breaker_init c \<longleftrightarrow> (\<exists>f n r now k. c = breaker_start (CircuitBreaker_new f n r) now k)"

interpretation concurrent_breaker: thread_progress breaker_access breaker_idle breaker_starts breaker_tick
  breaker_init breaker_inv "\<lambda>_. breaker_remaining"
proof
  fix c assume "breaker_init c"
  then show "breaker_inv c"
    by (auto simp: breaker_init_def breaker_start_def CircuitBreaker_new_def stamped_def cb_defs opened_of_def)
next
  fix s ps t p assume "breaker_inv (s, ps)" "t < length ps" "breaker_idle (ps ! t)" "breaker_starts p"
  moreover from this have "\<not> holds_state p" "\<not> holds_opened p" "\<not> reads_opened p"
    "\<not> holds_state (ps ! t)" "\<not> holds_opened (ps ! t)" "\<not> reads_opened (ps ! t)"
    by (auto simp: breaker_starts_def elim: breaker_idle.elims)
  ultimately show "breaker_inv (s, ps[t := p])"
    using at_update [of t ps holds_state p] at_update [of t ps holds_opened p] at_update [of t ps reads_opened p]
    by (auto simp: view_outside dest!: subsetD [OF set_update_subset_insert])
next
  fix s ps and d :: nat assume "breaker_inv (s, ps)"
  then show "breaker_inv (breaker_tick d s, ps)" by (auto simp: breaker_tick_def intro: trans_le_add1)
qed (use breaker_turn_inv breaker_not_stuck access_remaining in blast)+

text \<open>Undisturbed, on free locks: the transitions first, then the calls that lead to them.\<close>

definition unlocked :: "CircuitBreaker \<Rightarrow> instant \<Rightarrow> breaker_shared" where
  "unlocked b now = \<lparr>bs_breaker = b, bs_state_writer = False, bs_opened_writer = False, bs_opened_readers = 0, bs_now = now\<rparr>"

lemma alone_returned [simp]: "alone breaker_access n s (Returned r) = (s, Returned r)"
  by (cases n) (simp_all add: breaker_access_def)

lemma alone_more:
  assumes "alone breaker_access m s p = (s', Returned r)" and "m \<le> n"
  shows "alone breaker_access n s p = (s', Returned r)"
  using alone_add [of breaker_access m "n - m" s p] assms by simp

lemmas alone_simps = alone_numeral unlocked_def breaker_access_def lock_state_def lock_opened_def write_state_def
  write_opened_def set_breaker_def

lemma alone_transitions:
  assumes "cb_locks b"
  shows "\<exists>b'. transition_to_open now b = Done b' \<and> alone breaker_access 5 (unlocked b now) Open_state = (unlocked b' now, Returned None)"
    and "\<exists>b'. transition_to_half_open b = Done b' \<and> alone breaker_access 4 (unlocked b now) Half_state = (unlocked b' now, Returned (Some True))"
    and "\<exists>b'. transition_to_closed b = Done b' \<and> alone breaker_access 6 (unlocked b now) Closed_state = (unlocked b' now, Returned None)"
  using assms
  by (simp_all add: alone_simps transition_to_open_def transition_to_half_open_def transition_to_closed_def cb_locks_def)

lemma alone_allow:
  assumes "cb_locks b"
  shows "\<exists>a b'. CircuitBreaker_allows_execution now b = Done (a, b')
     \<and> alone breaker_access 7 (unlocked b now) Allow_state = (unlocked b' now, Returned (Some a))"
proof (cases "contents (cb_state b)")
  case Open
  have "alone breaker_access 3 (unlocked b now) Allow_state = (unlocked b now,
      (case contents (cb_opened_at b) of None \<Rightarrow> Returned (Some False)
       | Some t \<Rightarrow> if cb_reset_timeout b \<le> elapsed now t then Half_state else Returned (Some False)))"
    using Open by (simp add: alone_numeral unlocked_def breaker_access_def split: option.split)
  then show ?thesis
    using Open assms alone_transitions(2) [OF assms, of now] alone_add [of breaker_access 3 4]
    by (auto simp: CircuitBreaker_allows_execution_def cb_locks_def split: option.split)
qed (use assms in \<open>auto simp: alone_numeral unlocked_def breaker_access_def CircuitBreaker_allows_execution_def cb_locks_def\<close>)

lemma alone_success:
  assumes "cb_locks b"
  shows "\<exists>b'. CircuitBreaker_record_success b = Done b'
     \<and> alone breaker_access 8 (unlocked b now) Success_state = (unlocked b' now, Returned None)"
proof (cases "contents (cb_state b)")
  case HalfOpen
  let ?b = "b\<lparr>cb_success_count := cb_success_count b + 1\<rparr>"
  have "alone breaker_access 2 (unlocked b now) Success_state = (unlocked ?b now,
      if cb_success_threshold b \<le> cb_success_count b + 1 then Closed_state else Returned None)"
    using HalfOpen by (simp add: alone_numeral unlocked_def breaker_access_def set_breaker_def Let_def)
  moreover have "cb_locks ?b" using assms by (simp add: cb_locks_def)
  ultimately show ?thesis
    using HalfOpen assms alone_transitions(3) [of ?b now] alone_add [of breaker_access 2 6]
    by (auto simp: CircuitBreaker_record_success_def cb_locks_def Let_def)
qed (use assms in \<open>simp_all add: alone_numeral unlocked_def breaker_access_def set_breaker_def
      CircuitBreaker_record_success_def cb_locks_def\<close>)

lemma alone_failure:
  assumes "cb_locks b"
  shows "\<exists>b'. CircuitBreaker_record_failure now b = Done b'
     \<and> alone breaker_access 7 (unlocked b now) Failure_state = (unlocked b' now, Returned None)"
proof (cases "contents (cb_state b)")
  case Closed
  let ?b = "b\<lparr>cb_failure_count := cb_failure_count b + 1\<rparr>"
  have "alone breaker_access 2 (unlocked b now) Failure_state = (unlocked ?b now,
      if cb_failure_threshold b \<le> cb_failure_count b + 1 then Open_state else Returned None)"
    using Closed by (simp add: alone_numeral unlocked_def breaker_access_def set_breaker_def Let_def)
  moreover have "cb_locks ?b" using assms by (simp add: cb_locks_def)
  ultimately show ?thesis
    using Closed assms alone_transitions(1) [of ?b now] alone_add [of breaker_access 2 5]
    by (auto simp: CircuitBreaker_record_failure_def cb_locks_def Let_def)
next
  case HalfOpen
  have "alone breaker_access 1 (unlocked b now) Failure_state = (unlocked b now, Open_state)"
    using HalfOpen by (simp add: unlocked_def breaker_access_def)
  then show ?thesis
    using HalfOpen assms alone_transitions(1) [OF assms, of now] alone_more [of 5 _ _ _ _ 6]
      alone_add [of breaker_access 1 6]
    by (fastforce simp: CircuitBreaker_record_failure_def cb_locks_def)
qed (use assms in \<open>simp_all add: alone_numeral unlocked_def breaker_access_def
      CircuitBreaker_record_failure_def cb_locks_def\<close>)

lemma breaker_reachable_inv:
  "breaker_step\<^sup>*\<^sup>* (breaker_start (CircuitBreaker_new f n r) now k) c \<Longrightarrow> breaker_inv c"
  by (rule concurrent_breaker.inv_reachable) (unfold breaker_init_def, blast)

section \<open>Properties\<close>

text \<open>C5: Concurrent calls keep the breaker consistent. In every state reachable by any interleaving of the
  accesses of any number of threads that ask for permission, record successes and failures and reset, with
  the clock running: at most one thread is inside a transition, and while none is, an open circuit has
  an opening time that is not in the future and a closed one has none; so an open circuit is never stuck: a
  request made once the timeout has passed since that time is allowed.\<close>

theorem breaker_concurrent_safe:
  assumes "breaker_step\<^sup>*\<^sup>* (breaker_start (CircuitBreaker_new f n r) now k) (s, ps)"
  shows "at holds_state ps \<le> 1
     \<and> (at holds_state ps = 0 \<longrightarrow>
          (cb_phase (bs_breaker s) = Closed \<longrightarrow> opened_of (bs_breaker s) = None)
        \<and> (cb_phase (bs_breaker s) = Open \<longrightarrow>
             (\<exists>t \<le> bs_now s. opened_of (bs_breaker s) = Some t
                \<and> (\<forall>later \<ge> t + cb_reset_timeout (bs_breaker s).
                     \<exists>b. CircuitBreaker_allows_execution later (bs_breaker s) = Done (True, b) \<and> cb_phase b = HalfOpen))))"
proof -
  have "breaker_inv (s, ps)" using assms by (rule breaker_reachable_inv)
  then show ?thesis
    by (auto simp: stamped_def opened_of_def cb_defs elapsed_def le_diff_conv2)
qed

text \<open>Threshold one, timeout 100.  A failure opens the circuit; after the timeout a request half-opens it; a thread
  that records a success reads the state and stops; a failure opens the circuit again; then the success
  is counted and closes it, at the very time at which it was opened.\<close>

definition early_close :: "breaker_shared \<times> breaker_pc list" where
  "early_close = fold breaker_play
     (Begin 0 Failure_state # replicate 7 (Turn 0) @ Outside 100 # Begin 0 Allow_state # replicate 7 (Turn 0)
      @ [Begin 1 Success_state, Turn 1] @ Begin 0 Failure_state # replicate 7 (Turn 0))
     (breaker_start (CircuitBreaker_new 1 1 100) 0 2)"

definition early_closed :: "breaker_shared \<times> breaker_pc list" where
  "early_closed = fold breaker_play (replicate 7 (Turn 1)) early_close"

lemma early_close_reachable: "breaker_step\<^sup>*\<^sup>* (breaker_start (CircuitBreaker_new 1 1 100) 0 2) early_close"
  unfolding early_close_def by (rule plays_reachable)

lemma early_close_facts:
  "cb_phase (bs_breaker (fst early_close)) = Open \<and> bs_now (fst early_close) = 100
   \<and> opened_of (bs_breaker (fst early_close)) = Some 100 \<and> snd early_close = [Returned None, Success_count]
   \<and> cb_phase (bs_breaker (fst early_closed)) = Closed \<and> bs_now (fst early_closed) = 100
   \<and> cb_reset_timeout (bs_breaker (fst early_close)) = 100"
  by (intro conjI; code_simp)

theorem breaker_concurrent_safe_witness:
  "(\<exists>b. CircuitBreaker_allows_execution 200 (bs_breaker (fst early_close)) = Done (True, b))
   \<and> cb_phase (bs_breaker (fst early_close)) = Open \<and> bs_now (fst early_close) = 100
   \<and> cb_phase (bs_breaker (fst early_closed)) = Closed \<and> bs_now (fst early_closed) = 100"
proof -
  have "breaker_step\<^sup>*\<^sup>* (breaker_start (CircuitBreaker_new 1 1 100) 0 2) (fst early_close, snd early_close)"
    using early_close_reachable by simp
  from breaker_concurrent_safe [OF this] show ?thesis
    using early_close_facts by (auto simp: at_def)
qed

text \<open>C18: No deadlock. From every reachable state, if no new calls start, the accesses of the threads come to an end
  after at most eight per thread, whatever their order; and they only end when every call has returned, although the
  transitions take one lock inside another.\<close>

theorem breaker_calls_return:
  assumes "breaker_step\<^sup>*\<^sup>* (breaker_start (CircuitBreaker_new f n r) now k) (s, ps)"
  shows "(\<forall>m c. (turn breaker_access ^^ m) (s, ps) c \<longrightarrow> m \<le> 8 * length ps)
     \<and> (\<forall>c. (turn breaker_access)\<^sup>*\<^sup>* (s, ps) c \<and> (\<nexists>c'. turn breaker_access c c') \<longrightarrow> (\<forall>p \<in> set (snd c). breaker_idle p))
     \<and> (\<exists>c. (turn breaker_access)\<^sup>*\<^sup>* (s, ps) c \<and> (\<forall>p \<in> set (snd c). breaker_idle p))"
proof -
  have inv: "breaker_inv (s, ps)" using assms by (rule breaker_reachable_inv)
  have "breaker_remaining p \<le> 8" for p by (cases p) simp_all
  then have "m \<le> 8 * length ps" if "(turn breaker_access ^^ m) (s, ps) c" for m c
    using concurrent_breaker.turns_bounded [OF that inv] concurrent_breaker.all_remaining_le [where ps = ps and s = s and b = 8]
    by (meson order_trans)
  moreover have "\<forall>p \<in> set (snd c). breaker_idle p"
    if "(turn breaker_access)\<^sup>*\<^sup>* (s, ps) c" "\<nexists>c'. turn breaker_access c c'" for c
    using that(2) by (rule concurrent_breaker.no_turn_idle [OF concurrent_breaker.turns_inv [OF that(1) inv]])
  ultimately show ?thesis
    using concurrent_breaker.all_return [OF inv] by blast
qed

theorem breaker_calls_return_witness:
  "\<exists>c. (turn breaker_access)\<^sup>*\<^sup>* early_close c \<and> (\<forall>p \<in> set (snd c). breaker_idle p)"
proof -
  have "breaker_step\<^sup>*\<^sup>* (breaker_start (CircuitBreaker_new 1 1 100) 0 2) (fst early_close, snd early_close)"
    using early_close_reachable by simp
  from breaker_calls_return [OF this] show ?thesis by simp
qed

text \<open>An undisturbed call is atomic. The accesses of one call that no other call interrupts, on a breaker whose
  locks are free, have exactly the effect and the answer of the method as one step, and free the locks again.\<close>

theorem breaker_undisturbed_calls_atomic:
  assumes "cb_locks b"
  shows "(\<exists>a b'. CircuitBreaker_allows_execution now b = Done (a, b')
           \<and> alone breaker_access 7 (unlocked b now) Allow_state = (unlocked b' now, Returned (Some a)))
     \<and> (\<exists>b'. CircuitBreaker_record_success b = Done b'
           \<and> alone breaker_access 8 (unlocked b now) Success_state = (unlocked b' now, Returned None))
     \<and> (\<exists>b'. CircuitBreaker_record_failure now b = Done b'
           \<and> alone breaker_access 7 (unlocked b now) Failure_state = (unlocked b' now, Returned None))
     \<and> (\<exists>b'. CircuitBreaker_reset b = Done b'
           \<and> alone breaker_access 6 (unlocked b now) Closed_state = (unlocked b' now, Returned None))"
  using alone_allow [OF assms] alone_success [OF assms] alone_failure [OF assms] alone_transitions(3) [OF assms]
  by (simp add: CircuitBreaker_reset_def)

theorem breaker_undisturbed_calls_atomic_witness:
  "\<exists>a b'. CircuitBreaker_allows_execution 3 CircuitBreaker_default = Done (a, b')
     \<and> alone breaker_access 7 (unlocked CircuitBreaker_default 3) Allow_state = (unlocked b' 3, Returned (Some a))"
proof -
  have "cb_locks CircuitBreaker_default"
    by (simp add: CircuitBreaker_default_def CircuitBreaker_new_def cb_locks_def)
  from breaker_undisturbed_calls_atomic [OF this, of 3] show ?thesis by blast
qed

end
