(* ===== verification/Pepita_Text.thy ===== *)
theory Pepita_Text
  imports Pepita_Prelude
begin

text \<open>
  Texts.  A \<^verbatim>\<open>String\<close> is its UTF-8 bytes.  This theory holds what the program uses of the standard library on them:
  formatting of integers, the check of \<^verbatim>\<open>String::from_utf8\<close>, and \<^verbatim>\<open>String::from_utf8_lossy\<close>, which replaces
  every maximal prefix of a character that cannot be completed by U+FFFD.
\<close>

type_synonym str = bytes

section \<open>Formatting\<close>

fun decimal :: "nat \<Rightarrow> bytes" where
  "decimal n = (if n < 10 then [] else decimal (n div 10)) @ [word_of_nat (48 + n mod 10)]"

declare decimal.simps [simp del]

definition ascii :: "string \<Rightarrow> bytes" where
  "ascii s = map of_char s"

definition decimal_i32 :: "i32 \<Rightarrow> bytes" where
  "decimal_i32 v = (if sint v < 0 then 45 # decimal (nat (- sint v)) else decimal (nat (sint v)))"

text \<open>\<open>n\<close> lower-case hexadecimal digits.\<close>

definition hex_digit :: "nat \<Rightarrow> u8" where
  "hex_digit d = word_of_nat (if d < 10 then 48 + d else 87 + d)"

fun hex :: "nat \<Rightarrow> nat \<Rightarrow> bytes" where
  "hex 0 x = []"
| "hex (Suc n) x = hex n (x div 16) @ [hex_digit (x mod 16)]"

section \<open>UTF-8\<close>

definition cont_byte :: "u8 \<Rightarrow> bool" where
  "cont_byte b \<longleftrightarrow> 0x80 \<le> b \<and> b \<le> 0xBF"

text \<open>Table 3-7 of the Unicode standard.\<close>

fun utf8_valid :: "bytes \<Rightarrow> bool" where
  "utf8_valid [] = True"
| "utf8_valid (a # s) =
     (if a < 0x80 then utf8_valid s
      else if 0xC2 \<le> a \<and> a \<le> 0xDF then
        (case s of b # s' \<Rightarrow> cont_byte b \<and> utf8_valid s' | _ \<Rightarrow> False)
      else if 0xE0 \<le> a \<and> a \<le> 0xEF then
        (case s of b # c # s' \<Rightarrow> cont_byte b \<and> cont_byte c
           \<and> (a = 0xE0 \<longrightarrow> 0xA0 \<le> b) \<and> (a = 0xED \<longrightarrow> b \<le> 0x9F) \<and> utf8_valid s' | _ \<Rightarrow> False)
      else if 0xF0 \<le> a \<and> a \<le> 0xF4 then
        (case s of b # c # d # s' \<Rightarrow> cont_byte b \<and> cont_byte c \<and> cont_byte d
           \<and> (a = 0xF0 \<longrightarrow> 0x90 \<le> b) \<and> (a = 0xF4 \<longrightarrow> b \<le> 0x8F) \<and> utf8_valid s' | _ \<Rightarrow> False)
      else False)"

text \<open>The length of a character by its first byte; 0 for a byte that starts none.\<close>

definition char_width :: "u8 \<Rightarrow> nat" where
  "char_width a =
     (if a < 0x80 then 1 else if 0xC2 \<le> a \<and> a \<le> 0xDF then 2
      else if 0xE0 \<le> a \<and> a \<le> 0xEF then 3 else if 0xF0 \<le> a \<and> a \<le> 0xF4 then 4 else 0)"

definition second_byte :: "u8 \<Rightarrow> u8 \<Rightarrow> bool" where
  "second_byte a b \<longleftrightarrow> cont_byte b \<and> (a = 0xE0 \<longrightarrow> 0xA0 \<le> b) \<and> (a = 0xED \<longrightarrow> b \<le> 0x9F)
     \<and> (a = 0xF0 \<longrightarrow> 0x90 \<le> b) \<and> (a = 0xF4 \<longrightarrow> b \<le> 0x8F)"

text \<open>The next character, or the longest prefix of one that cannot be completed, and its length.\<close>

definition utf8_next :: "bytes \<Rightarrow> bool \<times> nat" where
  "utf8_next bs =
     (case bs of [] \<Rightarrow> (True, 0)
      | a # s \<Rightarrow>
          if char_width a = 1 then (True, 1) else if char_width a = 0 then (False, 1)
          else (case s of [] \<Rightarrow> (False, 1)
            | b # s1 \<Rightarrow>
                if \<not> second_byte a b then (False, 1) else if char_width a = 2 then (True, 2)
                else (case s1 of [] \<Rightarrow> (False, 2)
                  | c # s2 \<Rightarrow>
                      if \<not> cont_byte c then (False, 2) else if char_width a = 3 then (True, 3)
                      else (case s2 of [] \<Rightarrow> (False, 3)
                        | d # _ \<Rightarrow> if cont_byte d then (True, 4) else (False, 3)))))"

lemma utf8_next_pos: "bs \<noteq> [] \<Longrightarrow> 0 < snd (utf8_next bs)"
  by (cases bs) (auto simp: utf8_next_def split: list.split)

definition replacement :: bytes where
  "replacement = [0xEF, 0xBF, 0xBD]"

function from_utf8_lossy :: "bytes \<Rightarrow> str" where
  "from_utf8_lossy bs =
     (if bs = [] then []
      else let (ok, n) = utf8_next bs
           in (if ok then take n bs else replacement) @ from_utf8_lossy (drop n bs))"
  by pat_completeness auto
termination
proof (relation "measure length")
  fix bs :: bytes and x ok n assume bs: "bs \<noteq> []" and "x = utf8_next bs" "(ok, n) = x"
  then have "utf8_next bs = (ok, n)" by simp
  with utf8_next_pos [OF bs] bs show "(drop n bs, bs) \<in> measure length" by simp
qed simp

declare from_utf8_lossy.simps [simp del]

section \<open>Lossy conversion\<close>

lemma char_width_range: "char_width a \<in> {0, 1, 2, 3, 4}"
  by (simp add: char_width_def)

lemma char_width_cases:
  "char_width a = 0 \<longleftrightarrow> \<not> a < 0x80 \<and> \<not> (0xC2 \<le> a \<and> a \<le> 0xDF) \<and> \<not> (0xE0 \<le> a \<and> a \<le> 0xEF) \<and> \<not> (0xF0 \<le> a \<and> a \<le> 0xF4)"
  "char_width a = 1 \<longleftrightarrow> a < 0x80"
  "char_width a = 2 \<longleftrightarrow> \<not> a < 0x80 \<and> 0xC2 \<le> a \<and> a \<le> 0xDF"
  "char_width a = 3 \<longleftrightarrow> \<not> a < 0x80 \<and> \<not> (0xC2 \<le> a \<and> a \<le> 0xDF) \<and> 0xE0 \<le> a \<and> a \<le> 0xEF"
  "char_width a = 4 \<longleftrightarrow> \<not> a < 0x80 \<and> \<not> (0xC2 \<le> a \<and> a \<le> 0xDF) \<and> \<not> (0xE0 \<le> a \<and> a \<le> 0xEF) \<and> 0xF0 \<le> a \<and> a \<le> 0xF4"
  by (simp_all add: char_width_def)

text \<open>The restrictions on the second byte only concern four first bytes.\<close>

lemma second_byte_width:
  "char_width a = 2 \<Longrightarrow> second_byte a b = cont_byte b"
  "char_width a = 3 \<Longrightarrow> second_byte a b \<longleftrightarrow> cont_byte b \<and> (a = 0xE0 \<longrightarrow> 0xA0 \<le> b) \<and> (a = 0xED \<longrightarrow> b \<le> 0x9F)"
  "char_width a = 4 \<Longrightarrow> second_byte a b \<longleftrightarrow> cont_byte b \<and> (a = 0xF0 \<longrightarrow> 0x90 \<le> b) \<and> (a = 0xF4 \<longrightarrow> b \<le> 0x8F)"
  by (auto simp: second_byte_def char_width_def split: if_splits)

lemma utf8_valid_width:
  "char_width a = 0 \<Longrightarrow> \<not> utf8_valid (a # s)"
  "char_width a = 1 \<Longrightarrow> utf8_valid (a # s) = utf8_valid s"
  "char_width a = 2 \<Longrightarrow> utf8_valid (a # s) = (case s of b # s1 \<Rightarrow> second_byte a b \<and> utf8_valid s1 | _ \<Rightarrow> False)"
  "char_width a = 3 \<Longrightarrow> utf8_valid (a # s) =
     (case s of b # c # s2 \<Rightarrow> second_byte a b \<and> cont_byte c \<and> utf8_valid s2 | _ \<Rightarrow> False)"
  "char_width a = 4 \<Longrightarrow> utf8_valid (a # s) =
     (case s of b # c # d # s3 \<Rightarrow> second_byte a b \<and> cont_byte c \<and> cont_byte d \<and> utf8_valid s3 | _ \<Rightarrow> False)"
proof -
  assume w: "char_width a = 3"
  note c = w [unfolded char_width_cases]
  show "utf8_valid (a # s) = (case s of b # c # s2 \<Rightarrow> second_byte a b \<and> cont_byte c \<and> utf8_valid s2 | _ \<Rightarrow> False)"
    by (simp only: utf8_valid.simps(2) c simp_thms if_False if_True second_byte_width(2) [OF w])
       (auto split: list.split)
next
  assume w: "char_width a = 4"
  note c = w [unfolded char_width_cases]
  show "utf8_valid (a # s) =
      (case s of b # c # d # s3 \<Rightarrow> second_byte a b \<and> cont_byte c \<and> cont_byte d \<and> utf8_valid s3 | _ \<Rightarrow> False)"
    by (simp only: utf8_valid.simps(2) c simp_thms if_False if_True second_byte_width(3) [OF w])
       (auto split: list.split)
next
  assume w: "char_width a = 2"
  note c = w [unfolded char_width_cases]
  show "utf8_valid (a # s) = (case s of b # s1 \<Rightarrow> second_byte a b \<and> utf8_valid s1 | _ \<Rightarrow> False)"
    by (simp only: utf8_valid.simps(2) c simp_thms if_False if_True second_byte_width(1) [OF w])
next
  assume w: "char_width a = 0"
  note c = w [unfolded char_width_cases]
  show "\<not> utf8_valid (a # s)"
    by (simp only: utf8_valid.simps(2) c simp_thms if_False if_True)
next
  assume w: "char_width a = 1"
  note c = w [unfolded char_width_cases]
  show "utf8_valid (a # s) = utf8_valid s"
    by (simp only: utf8_valid.simps(2) c simp_thms if_False if_True)
qed

declare utf8_valid.simps(2) [simp del]

lemma utf8_valid_next:
  "bs \<noteq> [] \<Longrightarrow> utf8_valid bs \<longleftrightarrow> fst (utf8_next bs) \<and> utf8_valid (drop (snd (utf8_next bs)) bs)"
  using char_width_range [of "hd bs"]
  by (cases bs) (auto simp: utf8_next_def utf8_valid_width split: list.split)

lemma utf8_valid_char:
  "bs \<noteq> [] \<Longrightarrow> fst (utf8_next bs) \<Longrightarrow> utf8_valid (take (snd (utf8_next bs)) bs @ t) = utf8_valid t"
  using char_width_range [of "hd bs"]
  by (cases bs) (auto simp: utf8_next_def utf8_valid_width eval_nat_numeral split: list.splits if_splits)

lemma utf8_valid_replacement: "utf8_valid (replacement @ t) = utf8_valid t"
  by (simp add: replacement_def cont_byte_def utf8_valid.simps(2))

declare utf8_valid.simps(2) [simp]

lemma lossy_valid: "utf8_valid (from_utf8_lossy bs)"
proof (induction bs rule: from_utf8_lossy.induct)
  case (1 bs)
  show ?case
  proof (cases "bs = []")
    case False
    obtain ok n where n: "utf8_next bs = (ok, n)" by fastforce
    with 1 False have "utf8_valid (from_utf8_lossy (drop n bs))" by auto
    then show ?thesis
      using False n utf8_valid_char [OF False, of "from_utf8_lossy (drop n bs)"]
      by (subst from_utf8_lossy.simps) (simp add: utf8_valid_replacement)
  qed (simp add: from_utf8_lossy.simps)
qed

lemma lossy_id: "utf8_valid bs \<Longrightarrow> from_utf8_lossy bs = bs"
proof (induction bs rule: from_utf8_lossy.induct)
  case (1 bs)
  show ?case
  proof (cases "bs = []")
    case False
    obtain ok n where n: "utf8_next bs = (ok, n)" by fastforce
    have "ok" "utf8_valid (drop n bs)" using utf8_valid_next [OF False] "1.prems" n by auto
    with 1 False n show ?thesis by (subst from_utf8_lossy.simps) simp
  qed (simp add: from_utf8_lossy.simps)
qed

end
