(* ===== verification/Pepita_Task.thy ===== *)
theory Pepita_Task
  imports Pepita_Scheduler Pepita_Text "HOL-Library.AList"
begin

text \<open>
  Tasks, their builder and execution results: \<^verbatim>\<open>src/src/task.rs\<close>.  A \<^verbatim>\<open>String\<close> or \<^verbatim>\<open>PathBuf\<close> is its
  sequence of bytes, a \<^verbatim>\<open>HashMap<String, String>\<close> an association list with distinct keys.
\<close>

type_synonym str_map = "(str \<times> str) list"

section \<open>Priority, affinity, state and backend\<close>

datatype TaskPriority = LowPriority | NormalPriority | HighPriority | CriticalPriority

definition TaskPriority_default :: TaskPriority where
  "TaskPriority_default = NormalPriority"

fun TaskPriority_as_u8 :: "TaskPriority \<Rightarrow> u8" where
  "TaskPriority_as_u8 LowPriority = 0"
| "TaskPriority_as_u8 NormalPriority = 1"
| "TaskPriority_as_u8 HighPriority = 2"
| "TaskPriority_as_u8 CriticalPriority = 3"

definition TaskPriority_from_u8 :: "u8 \<Rightarrow> TaskPriority option" where
  "TaskPriority_from_u8 value =
     (if value = 0 then Some LowPriority
      else if value = 1 then Some NormalPriority
      else if value = 2 then Some HighPriority
      else if value = 3 then Some CriticalPriority
      else None)"

text \<open>The derived order of the enum: by discriminant.\<close>

definition TaskPriority_le :: "TaskPriority \<Rightarrow> TaskPriority \<Rightarrow> bool" where
  "TaskPriority_le p q \<longleftrightarrow> TaskPriority_as_u8 p \<le> TaskPriority_as_u8 q"

instantiation TaskPriority :: linorder
begin

definition less_eq_TaskPriority :: "TaskPriority \<Rightarrow> TaskPriority \<Rightarrow> bool" where
  "less_eq_TaskPriority p q \<longleftrightarrow> TaskPriority_le p q"

definition less_TaskPriority :: "TaskPriority \<Rightarrow> TaskPriority \<Rightarrow> bool" where
  "less_TaskPriority p q \<longleftrightarrow> TaskPriority_le p q \<and> \<not> TaskPriority_le q p"

instance
proof
  fix p q r :: TaskPriority
  show "p \<le> q \<or> q \<le> p" by (auto simp: less_eq_TaskPriority_def TaskPriority_le_def)
  show "p \<le> q \<Longrightarrow> q \<le> p \<Longrightarrow> p = q"
    by (cases p; cases q) (simp_all add: less_eq_TaskPriority_def TaskPriority_le_def word_le_nat_alt)
qed (auto simp: less_eq_TaskPriority_def less_TaskPriority_def TaskPriority_le_def)

end

datatype CpuAffinity = AnyCore | Core usize | Cores "usize list" | NumaNode i32

definition CpuAffinity_default :: CpuAffinity where
  "CpuAffinity_default = AnyCore"

fun CpuAffinity_allows_core :: "CpuAffinity \<Rightarrow> usize \<Rightarrow> bool" where
  "CpuAffinity_allows_core AnyCore core \<longleftrightarrow> True"
| "CpuAffinity_allows_core (Core c) core \<longleftrightarrow> c = core"
| "CpuAffinity_allows_core (Cores cores) core \<longleftrightarrow> List.member cores core"
| "CpuAffinity_allows_core (NumaNode n) core \<longleftrightarrow> True"

datatype TaskState = Pending | Queued | Running | Completed | Failed | Cancelled | TimedOut

definition TaskState_default :: TaskState where
  "TaskState_default = Pending"

definition TaskState_is_terminal :: "TaskState \<Rightarrow> bool" where
  "TaskState_is_terminal s \<longleftrightarrow>
     (case s of Completed \<Rightarrow> True | Failed \<Rightarrow> True | Cancelled \<Rightarrow> True | TimedOut \<Rightarrow> True | _ \<Rightarrow> False)"

definition TaskState_is_active :: "TaskState \<Rightarrow> bool" where
  "TaskState_is_active s \<longleftrightarrow>
     (case s of Pending \<Rightarrow> True | Queued \<Rightarrow> True | Running \<Rightarrow> True | _ \<Rightarrow> False)"

datatype Backend = Cpu | Gpu | Remote | AnyBackend

definition Backend_default :: Backend where
  "Backend_default = Cpu"

definition Backend_is_local :: "Backend \<Rightarrow> bool" where
  "Backend_is_local b \<longleftrightarrow> (case b of Cpu \<Rightarrow> True | Gpu \<Rightarrow> True | _ \<Rightarrow> False)"

section \<open>Kinds of tasks\<close>

record BinaryTask =
  bt_path :: str
  bt_args :: "str list"
  bt_env :: str_map
  bt_working_dir :: "str option"
  bt_stdin :: "bytes option"

definition BinaryTask_new :: "str \<Rightarrow> BinaryTask" where
  "BinaryTask_new path =
     \<lparr>bt_path = path, bt_args = [], bt_env = [], bt_working_dir = None, bt_stdin = None\<rparr>"

definition BinaryTask_with_args :: "BinaryTask \<Rightarrow> str list \<Rightarrow> BinaryTask" where
  "BinaryTask_with_args t args = t\<lparr>bt_args := args\<rparr>"

definition BinaryTask_with_env :: "BinaryTask \<Rightarrow> str_map \<Rightarrow> BinaryTask" where
  "BinaryTask_with_env t env = t\<lparr>bt_env := env\<rparr>"

definition BinaryTask_with_working_dir :: "BinaryTask \<Rightarrow> str \<Rightarrow> BinaryTask" where
  "BinaryTask_with_working_dir t dir = t\<lparr>bt_working_dir := Some dir\<rparr>"

definition BinaryTask_with_stdin :: "BinaryTask \<Rightarrow> bytes \<Rightarrow> BinaryTask" where
  "BinaryTask_with_stdin t stdin = t\<lparr>bt_stdin := Some stdin\<rparr>"

record ShaderTask =
  st_shader_binary :: bytes
  st_input_sizes :: "usize list"
  st_output_sizes :: "usize list"
  st_workgroups :: "u32 \<times> u32 \<times> u32"
  st_push_constants :: "bytes option"

definition ShaderTask_new :: "bytes \<Rightarrow> ShaderTask" where
  "ShaderTask_new shader_binary =
     \<lparr>st_shader_binary = shader_binary, st_input_sizes = [], st_output_sizes = [],
      st_workgroups = (1, 1, 1), st_push_constants = None\<rparr>"

definition ShaderTask_with_inputs :: "ShaderTask \<Rightarrow> usize list \<Rightarrow> ShaderTask" where
  "ShaderTask_with_inputs t sizes = t\<lparr>st_input_sizes := sizes\<rparr>"

definition ShaderTask_with_outputs :: "ShaderTask \<Rightarrow> usize list \<Rightarrow> ShaderTask" where
  "ShaderTask_with_outputs t sizes = t\<lparr>st_output_sizes := sizes\<rparr>"

definition ShaderTask_with_workgroups :: "ShaderTask \<Rightarrow> u32 \<Rightarrow> u32 \<Rightarrow> u32 \<Rightarrow> ShaderTask" where
  "ShaderTask_with_workgroups t x y z = t\<lparr>st_workgroups := (x, y, z)\<rparr>"

definition ShaderTask_with_push_constants :: "ShaderTask \<Rightarrow> bytes \<Rightarrow> ShaderTask" where
  "ShaderTask_with_push_constants t constants = t\<lparr>st_push_constants := Some constants\<rparr>"

definition ShaderTask_total_workgroups :: "ShaderTask \<Rightarrow> u64" where
  "ShaderTask_total_workgroups t =
     (case st_workgroups t of (x, y, z) \<Rightarrow> ucast x * ucast y * ucast z)"

record PipelineTask =
  pt_stages :: "BinaryTask list"
  pt_pipe_output :: bool

definition PipelineTask_new :: PipelineTask where
  "PipelineTask_new = \<lparr>pt_stages = [], pt_pipe_output = True\<rparr>"

definition PipelineTask_default :: PipelineTask where
  "PipelineTask_default = PipelineTask_new"

definition PipelineTask_add_stage :: "PipelineTask \<Rightarrow> BinaryTask \<Rightarrow> PipelineTask" where
  "PipelineTask_add_stage p t = p\<lparr>pt_stages := pt_stages p @ [t]\<rparr>"

definition PipelineTask_with_pipe_output :: "PipelineTask \<Rightarrow> bool \<Rightarrow> PipelineTask" where
  "PipelineTask_with_pipe_output p pipe = p\<lparr>pt_pipe_output := pipe\<rparr>"

definition PipelineTask_num_stages :: "PipelineTask \<Rightarrow> nat" where
  "PipelineTask_num_stages p = length (pt_stages p)"

definition PipelineTask_is_empty :: "PipelineTask \<Rightarrow> bool" where
  "PipelineTask_is_empty p \<longleftrightarrow> pt_stages p = []"

datatype TaskKind = Binary BinaryTask | Shader ShaderTask | Pipeline PipelineTask

section \<open>Tasks and their builder\<close>

record Task =
  task_id :: "TaskId option"
  task_kind :: TaskKind
  task_backend :: Backend
  task_priority :: TaskPriority
  task_affinity :: CpuAffinity
  task_state :: TaskState
  task_timeout :: "duration option"
  task_max_retries :: u32
  task_retry_count :: u32
  task_metadata :: str_map

record TaskBuilder =
  tb_kind :: TaskKind
  tb_backend :: Backend
  tb_priority :: TaskPriority
  tb_affinity :: CpuAffinity
  tb_timeout :: "duration option"
  tb_max_retries :: u32
  tb_metadata :: str_map

definition TaskBuilder_new :: "TaskKind \<Rightarrow> TaskBuilder" where
  "TaskBuilder_new kind =
     \<lparr>tb_kind = kind, tb_backend = Backend_default, tb_priority = TaskPriority_default,
      tb_affinity = CpuAffinity_default, tb_timeout = None, tb_max_retries = 3, tb_metadata = []\<rparr>"

definition TaskBuilder_args :: "TaskBuilder \<Rightarrow> str list \<Rightarrow> TaskBuilder" where
  "TaskBuilder_args b args =
     (case tb_kind b of Binary t \<Rightarrow> b\<lparr>tb_kind := Binary (t\<lparr>bt_args := args\<rparr>)\<rparr> | _ \<Rightarrow> b)"

definition TaskBuilder_env :: "TaskBuilder \<Rightarrow> str_map \<Rightarrow> TaskBuilder" where
  "TaskBuilder_env b env =
     (case tb_kind b of Binary t \<Rightarrow> b\<lparr>tb_kind := Binary (t\<lparr>bt_env := env\<rparr>)\<rparr> | _ \<Rightarrow> b)"

definition TaskBuilder_add_stage :: "TaskBuilder \<Rightarrow> BinaryTask \<Rightarrow> TaskBuilder" where
  "TaskBuilder_add_stage b stage =
     (case tb_kind b of
        Pipeline p \<Rightarrow> b\<lparr>tb_kind := Pipeline (p\<lparr>pt_stages := pt_stages p @ [stage]\<rparr>)\<rparr>
      | _ \<Rightarrow> b)"

definition TaskBuilder_backend :: "TaskBuilder \<Rightarrow> Backend \<Rightarrow> TaskBuilder" where
  "TaskBuilder_backend b backend = b\<lparr>tb_backend := backend\<rparr>"

definition TaskBuilder_priority :: "TaskBuilder \<Rightarrow> TaskPriority \<Rightarrow> TaskBuilder" where
  "TaskBuilder_priority b priority = b\<lparr>tb_priority := priority\<rparr>"

definition TaskBuilder_affinity :: "TaskBuilder \<Rightarrow> CpuAffinity \<Rightarrow> TaskBuilder" where
  "TaskBuilder_affinity b affinity = b\<lparr>tb_affinity := affinity\<rparr>"

definition TaskBuilder_timeout :: "TaskBuilder \<Rightarrow> duration \<Rightarrow> TaskBuilder" where
  "TaskBuilder_timeout b timeout = b\<lparr>tb_timeout := Some timeout\<rparr>"

definition TaskBuilder_max_retries :: "TaskBuilder \<Rightarrow> u32 \<Rightarrow> TaskBuilder" where
  "TaskBuilder_max_retries b retries = b\<lparr>tb_max_retries := retries\<rparr>"

definition TaskBuilder_metadata :: "TaskBuilder \<Rightarrow> str \<Rightarrow> str \<Rightarrow> TaskBuilder" where
  "TaskBuilder_metadata b key value = b\<lparr>tb_metadata := AList.update key value (tb_metadata b)\<rparr>"

definition TaskBuilder_build :: "TaskBuilder \<Rightarrow> Task" where
  "TaskBuilder_build b =
     \<lparr>task_id = None, task_kind = tb_kind b, task_backend = tb_backend b,
      task_priority = tb_priority b, task_affinity = tb_affinity b, task_state = Pending,
      task_timeout = tb_timeout b, task_max_retries = tb_max_retries b, task_retry_count = 0,
      task_metadata = tb_metadata b\<rparr>"

definition Task_binary :: "str \<Rightarrow> TaskBuilder" where
  "Task_binary path = TaskBuilder_new (Binary (BinaryTask_new path))"

definition Task_shader :: "bytes \<Rightarrow> TaskBuilder" where
  "Task_shader shader_binary = TaskBuilder_new (Shader (ShaderTask_new shader_binary))"

definition Task_pipeline :: TaskBuilder where
  "Task_pipeline = TaskBuilder_new (Pipeline PipelineTask_new)"

definition Task_as_binary :: "Task \<Rightarrow> BinaryTask option" where
  "Task_as_binary t = (case task_kind t of Binary b \<Rightarrow> Some b | _ \<Rightarrow> None)"

definition Task_as_shader :: "Task \<Rightarrow> ShaderTask option" where
  "Task_as_shader t = (case task_kind t of Shader b \<Rightarrow> Some b | _ \<Rightarrow> None)"

definition Task_as_pipeline :: "Task \<Rightarrow> PipelineTask option" where
  "Task_as_pipeline t = (case task_kind t of Pipeline b \<Rightarrow> Some b | _ \<Rightarrow> None)"

definition Task_is_binary :: "Task \<Rightarrow> bool" where
  "Task_is_binary t \<longleftrightarrow> (case task_kind t of Binary _ \<Rightarrow> True | _ \<Rightarrow> False)"

definition Task_is_shader :: "Task \<Rightarrow> bool" where
  "Task_is_shader t \<longleftrightarrow> (case task_kind t of Shader _ \<Rightarrow> True | _ \<Rightarrow> False)"

definition Task_is_pipeline :: "Task \<Rightarrow> bool" where
  "Task_is_pipeline t \<longleftrightarrow> (case task_kind t of Pipeline _ \<Rightarrow> True | _ \<Rightarrow> False)"

definition Task_can_retry :: "Task \<Rightarrow> bool" where
  "Task_can_retry t \<longleftrightarrow> task_retry_count t < task_max_retries t"

definition Task_increment_retry :: "Task \<Rightarrow> Task" where
  "Task_increment_retry t = t\<lparr>task_retry_count := task_retry_count t + 1\<rparr>"

section \<open>Execution results\<close>

record ExecutionResult =
  er_task_id :: TaskId
  er_exit_code :: "i32 option"
  er_stdout :: bytes
  er_stderr :: bytes
  er_output_buffers :: "bytes list"
  er_duration :: duration
  er_state :: TaskState
  er_error :: "str option"

definition ExecutionResult_success :: "TaskId \<Rightarrow> duration \<Rightarrow> ExecutionResult" where
  "ExecutionResult_success i d =
     \<lparr>er_task_id = i, er_exit_code = Some 0, er_stdout = [], er_stderr = [], er_output_buffers = [],
      er_duration = d, er_state = Completed, er_error = None\<rparr>"

definition ExecutionResult_failure :: "TaskId \<Rightarrow> str \<Rightarrow> duration \<Rightarrow> ExecutionResult" where
  "ExecutionResult_failure i error d =
     \<lparr>er_task_id = i, er_exit_code = None, er_stdout = [], er_stderr = [], er_output_buffers = [],
      er_duration = d, er_state = Failed, er_error = Some error\<rparr>"

definition ExecutionResult_is_success :: "ExecutionResult \<Rightarrow> bool" where
  "ExecutionResult_is_success r \<longleftrightarrow> (case er_state r of Completed \<Rightarrow> True | _ \<Rightarrow> False)"

definition ExecutionResult_is_failure :: "ExecutionResult \<Rightarrow> bool" where
  "ExecutionResult_is_failure r \<longleftrightarrow> (case er_state r of Failed \<Rightarrow> True | _ \<Rightarrow> False)"

definition ExecutionResult_stdout_string :: "ExecutionResult \<Rightarrow> str" where
  "ExecutionResult_stdout_string r = from_utf8_lossy (er_stdout r)"

definition ExecutionResult_stderr_string :: "ExecutionResult \<Rightarrow> str" where
  "ExecutionResult_stderr_string r = from_utf8_lossy (er_stderr r)"

section \<open>Lemmas\<close>

lemma priority_roundtrip [simp]: "TaskPriority_from_u8 (TaskPriority_as_u8 p) = Some p"
  by (cases p) (simp_all add: TaskPriority_from_u8_def)

lemma priority_from_u8_total: "TaskPriority_from_u8 v = None \<longleftrightarrow> 3 < v"
proof -
  have "v = 0 \<or> v = 1 \<or> v = 2 \<or> v = 3" if "v \<le> 3"
    using that by (auto simp: word_le_nat_alt word_unat_eq_iff)
  then show ?thesis
    by (auto simp: TaskPriority_from_u8_def simp flip: not_le split: if_splits)
qed

lemma state_active_or_terminal: "TaskState_is_active s \<noteq> TaskState_is_terminal s"
  by (cases s) (simp_all add: TaskState_is_active_def TaskState_is_terminal_def)

lemma success_failure_results [simp]:
  "ExecutionResult_is_success (ExecutionResult_success i d)"
  "ExecutionResult_is_failure (ExecutionResult_failure i e d)"
  by (simp_all add: ExecutionResult_is_success_def ExecutionResult_is_failure_def
      ExecutionResult_success_def ExecutionResult_failure_def)

text \<open>A product of three 32-bit counts wraps modulo \<open>2 ^ 64\<close>.\<close>

lemma unat_total_workgroups:
  "unat (ShaderTask_total_workgroups (ShaderTask_with_workgroups t x y z)) = (unat x * unat y * unat z) mod 2 ^ 64"
  by (simp add: ShaderTask_total_workgroups_def ShaderTask_with_workgroups_def unat_word_ariths
      unsigned_ucast_eq take_bit_eq_mod mod_simps)

end
