(* ===== verification/Pepita_Executor.thy ===== *)
theory Pepita_Executor
  imports Pepita_Task
begin

text \<open>
  Executors: \<^verbatim>\<open>src/src/executor.rs\<close>.  The operating system is a parameter: spawning a process, writing to
  its standard input, polling, waiting and killing, the clock, sleeping and the number of CPUs are the
  fields of a record over an abstract world \<open>'w\<close> that every call threads.  A call may fail to return (a
  child is waited for that never exits, a write blocks for ever): that is the value \<open>None\<close>.  A call that
  returns either panics or has a result: \<open>Some Panic\<close> and \<open>Some (Done _)\<close>.
\<close>

section \<open>The operating system\<close>

datatype spawn_error = NotFound | OtherError

text \<open>\<^verbatim>\<open>Child::try_wait\<close>: an exit status (its code, if any), still running, or an error.\<close>

datatype poll = Exited "i32 option" | StillRunning | PollError

text \<open>\<^verbatim>\<open>Child::wait_with_output\<close>, when it returns: an error, or the exit code, output and error output.\<close>

datatype waited = WaitFailed | Finished "i32 option" bytes bytes

text \<open>The handle of a spawned process.\<close>

type_synonym child = nat

text \<open>
  \<open>os_write_stdin\<close> is \<^verbatim>\<open>write_all\<close> followed by closing the pipe, its error being dropped by the program;
  it blocks while the pipe is full, for ever if the child neither reads nor exits.  \<open>os_last_instant\<close> is
  the last \<^verbatim>\<open>Instant\<close> that can be represented.
\<close>

record 'w os =
  os_spawn :: "BinaryTask \<Rightarrow> 'w \<Rightarrow> (spawn_error + child) \<times> 'w"
  os_write_stdin :: "child \<Rightarrow> bytes \<Rightarrow> 'w \<Rightarrow> 'w option"
  os_try_wait :: "child \<Rightarrow> 'w \<Rightarrow> poll \<times> 'w"
  os_wait_with_output :: "child \<Rightarrow> 'w \<Rightarrow> (waited \<times> 'w) option"
  os_kill :: "child \<Rightarrow> 'w \<Rightarrow> 'w"
  os_now :: "'w \<Rightarrow> instant"
  os_sleep :: "duration \<Rightarrow> 'w \<Rightarrow> 'w"
  os_last_instant :: instant
  os_parallelism :: "usize option"

text \<open>\<^verbatim>\<open>Instant + Duration\<close> panics when the sum is not representable.\<close>

definition instant_add :: "'w os \<Rightarrow> instant \<Rightarrow> duration \<Rightarrow> instant exec" where
  "instant_add os t d = (if t + d \<le> os_last_instant os then Done (t + d) else Panic)"

text \<open>\<^verbatim>\<open>ExitStatus::success\<close>: the exit code is zero.\<close>

definition status_success :: "i32 option \<Rightarrow> bool" where
  "status_success code \<longleftrightarrow> code = Some 0"

text \<open>\<^verbatim>\<open>format!("Exit code: {exit_code:?}")\<close>.\<close>

definition exit_code_text :: "i32 option \<Rightarrow> bytes" where
  "exit_code_text code = ascii ''Exit code: '' @
     (case code of None \<Rightarrow> ascii ''None'' | Some v \<Rightarrow> ascii ''Some('' @ decimal_i32 v @ ascii '')'')"

section \<open>The CPU executor\<close>

record CpuExecutor =
  ce_num_workers :: usize
  ce_max_memory :: "usize option"
  ce_max_cpu_time :: "duration option"
  ce_running_tasks :: usize
  ce_running :: bool

definition CpuExecutor_new :: "usize \<Rightarrow> CpuExecutor" where
  "CpuExecutor_new num_workers =
     \<lparr>ce_num_workers = max num_workers 1, ce_max_memory = None, ce_max_cpu_time = None,
      ce_running_tasks = 0, ce_running = True\<rparr>"

definition CpuExecutor_default_workers :: "'w os \<Rightarrow> CpuExecutor" where
  "CpuExecutor_default_workers os =
     CpuExecutor_new (case os_parallelism os of Some p \<Rightarrow> p | None \<Rightarrow> 4)"

definition CpuExecutor_default :: "'w os \<Rightarrow> CpuExecutor" where
  "CpuExecutor_default os = CpuExecutor_default_workers os"

definition CpuExecutor_with_max_memory :: "CpuExecutor \<Rightarrow> usize \<Rightarrow> CpuExecutor" where
  "CpuExecutor_with_max_memory e n = e\<lparr>ce_max_memory := Some n\<rparr>"

definition CpuExecutor_with_max_cpu_time :: "CpuExecutor \<Rightarrow> duration \<Rightarrow> CpuExecutor" where
  "CpuExecutor_with_max_cpu_time e d = e\<lparr>ce_max_cpu_time := Some d\<rparr>"

definition CpuExecutor_running_tasks :: "CpuExecutor \<Rightarrow> usize" where
  "CpuExecutor_running_tasks e = ce_running_tasks e"

definition CpuExecutor_build_result ::
  "TaskId \<Rightarrow> i32 option \<Rightarrow> bytes \<Rightarrow> bytes \<Rightarrow> duration \<Rightarrow> bool \<Rightarrow> ExecutionResult" where
  "CpuExecutor_build_result i exit_code stdout stderr d success =
     \<lparr>er_task_id = i, er_exit_code = exit_code, er_stdout = stdout, er_stderr = stderr,
      er_output_buffers = [], er_duration = d, er_state = (if success then Completed else Failed),
      er_error = (if success then None else Some (exit_code_text exit_code))\<rparr>"

definition timed_out_result :: "TaskId \<Rightarrow> duration \<Rightarrow> ExecutionResult" where
  "timed_out_result i d =
     \<lparr>er_task_id = i, er_exit_code = None, er_stdout = [], er_stderr = [], er_output_buffers = [],
      er_duration = d, er_state = TimedOut, er_error = Some (ascii ''Task timed out'')\<rparr>"

text \<open>Writing the input of a task to the child, if it has one.\<close>

definition feed_stdin :: "'w os \<Rightarrow> child \<Rightarrow> BinaryTask \<Rightarrow> 'w \<Rightarrow> 'w option" where
  "feed_stdin os ch task w =
     (case bt_stdin task of None \<Rightarrow> Some w | Some stdin_data \<Rightarrow> os_write_stdin os ch stdin_data w)"

text \<open>The polling loop of a task with a timeout.\<close>

partial_function (option) poll_loop ::
  "'w os \<Rightarrow> child \<Rightarrow> TaskId \<Rightarrow> instant \<Rightarrow> instant \<Rightarrow> 'w \<Rightarrow> (ExecutionResult result \<times> 'w) option" where
  "poll_loop os ch i start deadline w =
     (case os_try_wait os ch w of
        (Exited code, w1) \<Rightarrow>
          (case os_wait_with_output os ch w1 of
             None \<Rightarrow> None
           | Some (WaitFailed, w2) \<Rightarrow> Some (Inl IoTimeout, w2)
           | Some (Finished _ out err, w2) \<Rightarrow>
               Some (Inr (CpuExecutor_build_result i code out err (elapsed (os_now os w2) start)
                            (status_success code)), w2))
      | (StillRunning, w1) \<Rightarrow>
          if deadline < os_now os w1
          then let w2 = os_kill os ch w1
               in Some (Inr (timed_out_result i (elapsed (os_now os w2) start)), w2)
          else poll_loop os ch i start deadline (os_sleep os (from_millis 10) w1)
      | (PollError, w1) \<Rightarrow> Some (Inl IoTimeout, w1))"

text \<open>\<^verbatim>\<open>timeout.or(self.max_cpu_time)\<close>.\<close>

definition effective_timeout :: "CpuExecutor \<Rightarrow> duration option \<Rightarrow> duration option" where
  "effective_timeout e timeout = (case timeout of None \<Rightarrow> ce_max_cpu_time e | Some d \<Rightarrow> Some d)"

definition CpuExecutor_run_binary_internal ::
  "'w os \<Rightarrow> CpuExecutor \<Rightarrow> BinaryTask \<Rightarrow> duration option \<Rightarrow> TaskId \<Rightarrow> instant \<Rightarrow> 'w
     \<Rightarrow> (ExecutionResult result \<times> 'w) exec option" where
  "CpuExecutor_run_binary_internal os e task timeout i start w =
     (case os_spawn os task w of
        (Inl err, w1) \<Rightarrow>
          Some (Done (Inl (if err = NotFound then UblkDeviceNotFound else InvalidRequest), w1))
      | (Inr ch, w1) \<Rightarrow>
          (case feed_stdin os ch task w1 of
             None \<Rightarrow> None
           | Some w2 \<Rightarrow>
               (case effective_timeout e timeout of
                  Some timeout_duration \<Rightarrow>
                    (case instant_add os start timeout_duration of
                       Panic \<Rightarrow> Some Panic
                     | Done deadline \<Rightarrow> map_option Done (poll_loop os ch i start deadline w2))
                | None \<Rightarrow>
                    (case os_wait_with_output os ch w2 of
                       None \<Rightarrow> None
                     | Some (WaitFailed, w3) \<Rightarrow> Some (Done (Inl IoTimeout, w3))
                     | Some (Finished code out err, w3) \<Rightarrow>
                         Some (Done (Inr (CpuExecutor_build_result i code out err
                                           (elapsed (os_now os w3) start) (status_success code)), w3))))))"

definition CpuExecutor_execute_binary ::
  "'w os \<Rightarrow> CpuExecutor \<Rightarrow> BinaryTask \<Rightarrow> duration option \<Rightarrow> 'w
     \<Rightarrow> (ExecutionResult result \<times> CpuExecutor \<times> 'w) exec option" where
  "CpuExecutor_execute_binary os e task timeout w =
     (let start = os_now os w;
          e1 = e\<lparr>ce_running_tasks := ce_running_tasks e + 1\<rparr>
      in map_option (map_exec (\<lambda>(r, w'). (r, e1\<lparr>ce_running_tasks := ce_running_tasks e1 - 1\<rparr>, w')))
           (CpuExecutor_run_binary_internal os e1 task timeout (TaskId_new 0) start w))"

definition CpuExecutor_backend :: "CpuExecutor \<Rightarrow> Backend" where
  [simp]: "CpuExecutor_backend e = Cpu"

definition CpuExecutor_can_execute :: "CpuExecutor \<Rightarrow> Task \<Rightarrow> bool" where
  "CpuExecutor_can_execute e task \<longleftrightarrow>
     (case task_kind task of Binary _ \<Rightarrow> True | Pipeline _ \<Rightarrow> True | _ \<Rightarrow> False)
     \<and> (task_backend task = Cpu \<or> task_backend task = AnyBackend) \<and> ce_running e"

definition stage_failed_result :: "ExecutionResult \<Rightarrow> duration \<Rightarrow> nat \<Rightarrow> ExecutionResult" where
  "stage_failed_result r d idx =
     \<lparr>er_task_id = TaskId_new 0, er_exit_code = er_exit_code r, er_stdout = er_stdout r,
      er_stderr = er_stderr r, er_output_buffers = [], er_duration = d, er_state = Failed,
      er_error = Some (ascii ''Pipeline stage '' @ decimal idx @ ascii '' failed'')\<rparr>"

definition pipeline_result :: "bytes option \<Rightarrow> duration \<Rightarrow> ExecutionResult" where
  "pipeline_result last_output d =
     \<lparr>er_task_id = TaskId_new 0, er_exit_code = Some 0,
      er_stdout = (case last_output of None \<Rightarrow> [] | Some b \<Rightarrow> b), er_stderr = [],
      er_output_buffers = [], er_duration = d, er_state = Completed, er_error = None\<rparr>"

text \<open>The loop over the stages of a pipeline; \<open>idx\<close> is the number of the next stage.\<close>

fun run_stages ::
  "'w os \<Rightarrow> CpuExecutor \<Rightarrow> bool \<Rightarrow> duration option \<Rightarrow> instant \<Rightarrow> nat \<Rightarrow> BinaryTask list \<Rightarrow> bytes option
     \<Rightarrow> 'w \<Rightarrow> (ExecutionResult result \<times> CpuExecutor \<times> 'w) exec option" where
  "run_stages os e pipe timeout start idx [] last_output w =
     Some (Done (Inr (pipeline_result last_output (elapsed (os_now os w) start)), e, w))"
| "run_stages os e pipe timeout start idx (stage # stages) last_output w =
     (let stage_task = (if pipe \<and> 0 < idx then stage\<lparr>bt_stdin := last_output\<rparr> else stage)
      in case CpuExecutor_execute_binary os e stage_task timeout w of
           None \<Rightarrow> None
         | Some Panic \<Rightarrow> Some Panic
         | Some (Done (Inl err, e', w')) \<Rightarrow> Some (Done (Inl err, e', w'))
         | Some (Done (Inr r, e', w')) \<Rightarrow>
             if \<not> ExecutionResult_is_success r
             then Some (Done (Inr (stage_failed_result r (elapsed (os_now os w') start) idx), e', w'))
             else run_stages os e' pipe timeout start (Suc idx) stages (Some (er_stdout r)) w')"

definition CpuExecutor_execute_sync ::
  "'w os \<Rightarrow> CpuExecutor \<Rightarrow> Task \<Rightarrow> 'w \<Rightarrow> (ExecutionResult result \<times> CpuExecutor \<times> 'w) exec option" where
  "CpuExecutor_execute_sync os e task w =
     (if \<not> ce_running e then Some (Done (Inl DeviceNotReady, e, w))
      else case task_kind task of
        Binary b \<Rightarrow> CpuExecutor_execute_binary os e b (task_timeout task) w
      | Pipeline p \<Rightarrow>
          run_stages os e (pt_pipe_output p) (task_timeout task) (os_now os w) 0 (pt_stages p) None w
      | Shader _ \<Rightarrow> Some (Done (Inl NotSupported, e, w)))"

definition CpuExecutor_num_workers :: "CpuExecutor \<Rightarrow> usize" where
  [simp]: "CpuExecutor_num_workers e = ce_num_workers e"

definition CpuExecutor_is_healthy :: "CpuExecutor \<Rightarrow> bool" where
  [simp]: "CpuExecutor_is_healthy e \<longleftrightarrow> ce_running e"

definition CpuExecutor_shutdown :: "CpuExecutor \<Rightarrow> CpuExecutor" where
  "CpuExecutor_shutdown e = e\<lparr>ce_running := False\<rparr>"

section \<open>The GPU and remote executors\<close>

record GpuExecutor =
  ge_num_devices :: usize
  ge_running :: bool

definition GpuExecutor_new :: GpuExecutor where
  "GpuExecutor_new = \<lparr>ge_num_devices = 0, ge_running = True\<rparr>"

definition GpuExecutor_is_available :: bool where
  "GpuExecutor_is_available = False"

definition GpuExecutor_backend :: "GpuExecutor \<Rightarrow> Backend" where
  [simp]: "GpuExecutor_backend e = Gpu"

definition GpuExecutor_can_execute :: "GpuExecutor \<Rightarrow> Task \<Rightarrow> bool" where
  "GpuExecutor_can_execute e task \<longleftrightarrow>
     (case task_kind task of Shader _ \<Rightarrow> True | _ \<Rightarrow> False)
     \<and> (task_backend task = Gpu \<or> task_backend task = AnyBackend) \<and> ge_running e \<and> 0 < ge_num_devices e"

definition GpuExecutor_execute_sync :: "GpuExecutor \<Rightarrow> Task \<Rightarrow> ExecutionResult result" where
  "GpuExecutor_execute_sync e task = Inl NotSupported"

definition GpuExecutor_num_workers :: "GpuExecutor \<Rightarrow> usize" where
  [simp]: "GpuExecutor_num_workers e = ge_num_devices e"

definition GpuExecutor_is_healthy :: "GpuExecutor \<Rightarrow> bool" where
  "GpuExecutor_is_healthy e \<longleftrightarrow> ge_running e \<and> 0 < ge_num_devices e"

definition GpuExecutor_shutdown :: "GpuExecutor \<Rightarrow> GpuExecutor" where
  "GpuExecutor_shutdown e = e\<lparr>ge_running := False\<rparr>"

record RemoteExecutor =
  re_workers :: "str list"
  re_connected :: bool

definition RemoteExecutor_new :: RemoteExecutor where
  "RemoteExecutor_new = \<lparr>re_workers = [], re_connected = False\<rparr>"

definition RemoteExecutor_add_worker :: "RemoteExecutor \<Rightarrow> str \<Rightarrow> RemoteExecutor" where
  "RemoteExecutor_add_worker e address = e\<lparr>re_workers := re_workers e @ [address]\<rparr>"

definition RemoteExecutor_connect :: "RemoteExecutor \<Rightarrow> unit result \<times> RemoteExecutor" where
  "RemoteExecutor_connect e = (Inr (), e\<lparr>re_connected := True\<rparr>)"

definition RemoteExecutor_backend :: "RemoteExecutor \<Rightarrow> Backend" where
  [simp]: "RemoteExecutor_backend e = Remote"

definition RemoteExecutor_can_execute :: "RemoteExecutor \<Rightarrow> Task \<Rightarrow> bool" where
  "RemoteExecutor_can_execute e task \<longleftrightarrow>
     (case task_kind task of Binary _ \<Rightarrow> True | _ \<Rightarrow> False)
     \<and> (task_backend task = Remote \<or> task_backend task = AnyBackend)
     \<and> re_connected e \<and> re_workers e \<noteq> []"

definition RemoteExecutor_execute_sync :: "RemoteExecutor \<Rightarrow> Task \<Rightarrow> ExecutionResult result" where
  "RemoteExecutor_execute_sync e task = Inl NotSupported"

definition RemoteExecutor_num_workers :: "RemoteExecutor \<Rightarrow> usize" where
  [simp]: "RemoteExecutor_num_workers e = word_of_nat (length (re_workers e))"

definition RemoteExecutor_is_healthy :: "RemoteExecutor \<Rightarrow> bool" where
  "RemoteExecutor_is_healthy e \<longleftrightarrow> re_connected e \<and> re_workers e \<noteq> []"

definition RemoteExecutor_shutdown :: "RemoteExecutor \<Rightarrow> RemoteExecutor" where
  "RemoteExecutor_shutdown e = e\<lparr>re_connected := False\<rparr>"

section \<open>Trait objects and the registry\<close>

text \<open>\<^verbatim>\<open>Arc<dyn Executor>\<close>: one of the implementations of the crate, dispatched on.\<close>

datatype Executor = CpuE CpuExecutor | GpuE GpuExecutor | RemoteE RemoteExecutor

fun Executor_backend :: "Executor \<Rightarrow> Backend" where
  "Executor_backend (CpuE e) = CpuExecutor_backend e"
| "Executor_backend (GpuE e) = GpuExecutor_backend e"
| "Executor_backend (RemoteE e) = RemoteExecutor_backend e"

fun Executor_can_execute :: "Executor \<Rightarrow> Task \<Rightarrow> bool" where
  "Executor_can_execute (CpuE e) task = CpuExecutor_can_execute e task"
| "Executor_can_execute (GpuE e) task = GpuExecutor_can_execute e task"
| "Executor_can_execute (RemoteE e) task = RemoteExecutor_can_execute e task"

fun Executor_execute_sync ::
  "'w os \<Rightarrow> Executor \<Rightarrow> Task \<Rightarrow> 'w \<Rightarrow> (ExecutionResult result \<times> Executor \<times> 'w) exec option" where
  "Executor_execute_sync os (CpuE e) task w =
     map_option (map_exec (\<lambda>(r, e', w'). (r, CpuE e', w'))) (CpuExecutor_execute_sync os e task w)"
| "Executor_execute_sync os (GpuE e) task w = Some (Done (GpuExecutor_execute_sync e task, GpuE e, w))"
| "Executor_execute_sync os (RemoteE e) task w = Some (Done (RemoteExecutor_execute_sync e task, RemoteE e, w))"

fun Executor_num_workers :: "Executor \<Rightarrow> usize" where
  "Executor_num_workers (CpuE e) = CpuExecutor_num_workers e"
| "Executor_num_workers (GpuE e) = GpuExecutor_num_workers e"
| "Executor_num_workers (RemoteE e) = RemoteExecutor_num_workers e"

fun Executor_is_healthy :: "Executor \<Rightarrow> bool" where
  "Executor_is_healthy (CpuE e) = CpuExecutor_is_healthy e"
| "Executor_is_healthy (GpuE e) = GpuExecutor_is_healthy e"
| "Executor_is_healthy (RemoteE e) = RemoteExecutor_is_healthy e"

fun Executor_shutdown :: "Executor \<Rightarrow> Executor" where
  "Executor_shutdown (CpuE e) = CpuE (CpuExecutor_shutdown e)"
| "Executor_shutdown (GpuE e) = GpuE (GpuExecutor_shutdown e)"
| "Executor_shutdown (RemoteE e) = RemoteE (RemoteExecutor_shutdown e)"

record ExecutorRegistry =
  reg_executors :: "Executor list"

definition ExecutorRegistry_new :: ExecutorRegistry where
  "ExecutorRegistry_new = \<lparr>reg_executors = []\<rparr>"

definition ExecutorRegistry_register :: "ExecutorRegistry \<Rightarrow> Executor \<Rightarrow> ExecutorRegistry" where
  "ExecutorRegistry_register g e = g\<lparr>reg_executors := reg_executors g @ [e]\<rparr>"

text \<open>The position of the first executor that can execute the task.\<close>

definition ExecutorRegistry_find_executor :: "ExecutorRegistry \<Rightarrow> Task \<Rightarrow> nat option" where
  "ExecutorRegistry_find_executor g task =
     List.find (\<lambda>i. Executor_can_execute (reg_executors g ! i) task) [0..<length (reg_executors g)]"

definition ExecutorRegistry_execute ::
  "'w os \<Rightarrow> ExecutorRegistry \<Rightarrow> Task \<Rightarrow> 'w
     \<Rightarrow> (ExecutionResult result \<times> ExecutorRegistry \<times> 'w) exec option" where
  "ExecutorRegistry_execute os g task w =
     (case ExecutorRegistry_find_executor g task of
        None \<Rightarrow> Some (Done (Inl NotSupported, g, w))
      | Some i \<Rightarrow>
          map_option (map_exec (\<lambda>(r, e', w'). (r, g\<lparr>reg_executors := (reg_executors g)[i := e']\<rparr>, w')))
            (Executor_execute_sync os (reg_executors g ! i) task w))"

definition ExecutorRegistry_total_workers :: "ExecutorRegistry \<Rightarrow> usize" where
  "ExecutorRegistry_total_workers g = sum_list (map Executor_num_workers (reg_executors g))"

definition ExecutorRegistry_shutdown :: "ExecutorRegistry \<Rightarrow> ExecutorRegistry" where
  "ExecutorRegistry_shutdown g = g\<lparr>reg_executors := map Executor_shutdown (reg_executors g)\<rparr>"

end
