(* ===== verification/Pepita_Pool.thy ===== *)
theory Pepita_Pool
  imports Pepita_Executor Pepita_Fault
begin

text \<open>
  The execution pool of \<^verbatim>\<open>src/src/pool.rs\<close>: configuration and builder, the pool that owns the
  scheduler, the executor registry and the failure detector, and its submission with retries.  The
  operating system is the parameter of \<open>Pepita_Executor\<close>; as there, a submission that never returns is
  \<open>None\<close> and one that panics \<open>Some Panic\<close>.
\<close>

record PoolConfig =
  pc_cpu_workers :: usize
  pc_enable_gpu :: bool
  pc_remote_workers :: "str list"
  pc_queue_capacity :: usize
  pc_retry_policy :: RetryPolicy
  pc_default_timeout :: "duration option"

definition PoolConfig_default :: PoolConfig where
  "PoolConfig_default =
     \<lparr>pc_cpu_workers = 0, pc_enable_gpu = False, pc_remote_workers = [], pc_queue_capacity = 1024,
      pc_retry_policy = RetryPolicy_default, pc_default_timeout = None\<rparr>"

record PoolBuilder =
  pb_config :: PoolConfig

definition PoolBuilder_new :: PoolBuilder where
  "PoolBuilder_new = \<lparr>pb_config = PoolConfig_default\<rparr>"

definition PoolBuilder_cpu_workers :: "PoolBuilder \<Rightarrow> usize \<Rightarrow> PoolBuilder" where
  "PoolBuilder_cpu_workers b n = b\<lparr>pb_config := (pb_config b)\<lparr>pc_cpu_workers := n\<rparr>\<rparr>"

definition PoolBuilder_enable_gpu :: "PoolBuilder \<Rightarrow> bool \<Rightarrow> PoolBuilder" where
  "PoolBuilder_enable_gpu b enable = b\<lparr>pb_config := (pb_config b)\<lparr>pc_enable_gpu := enable\<rparr>\<rparr>"

definition PoolBuilder_remote_workers :: "PoolBuilder \<Rightarrow> str list \<Rightarrow> PoolBuilder" where
  "PoolBuilder_remote_workers b addresses = b\<lparr>pb_config := (pb_config b)\<lparr>pc_remote_workers := addresses\<rparr>\<rparr>"

definition PoolBuilder_queue_capacity :: "PoolBuilder \<Rightarrow> usize \<Rightarrow> PoolBuilder" where
  "PoolBuilder_queue_capacity b capacity = b\<lparr>pb_config := (pb_config b)\<lparr>pc_queue_capacity := capacity\<rparr>\<rparr>"

definition PoolBuilder_retry_policy :: "PoolBuilder \<Rightarrow> RetryPolicy \<Rightarrow> PoolBuilder" where
  "PoolBuilder_retry_policy b policy = b\<lparr>pb_config := (pb_config b)\<lparr>pc_retry_policy := policy\<rparr>\<rparr>"

definition PoolBuilder_default_timeout :: "PoolBuilder \<Rightarrow> duration \<Rightarrow> PoolBuilder" where
  "PoolBuilder_default_timeout b timeout = b\<lparr>pb_config := (pb_config b)\<lparr>pc_default_timeout := Some timeout\<rparr>\<rparr>"

record PoolStats =
  ps_tasks_submitted :: u64
  ps_tasks_completed :: u64
  ps_tasks_failed :: u64
  ps_tasks_pending :: u64
  ps_total_retries :: u64

definition PoolStats_success_rate :: "'f f64_ops \<Rightarrow> PoolStats \<Rightarrow> 'f" where
  "PoolStats_success_rate F s =
     ratio_or_one F (ps_tasks_completed s) (ps_tasks_completed s + ps_tasks_failed s)"

record Pool =
  po_config :: PoolConfig
  po_scheduler :: "Task Scheduler"
  po_executors :: ExecutorRegistry
  po_failure_detector :: FailureDetector
  po_tasks_submitted :: u64
  po_tasks_completed :: u64
  po_tasks_failed :: u64
  po_total_retries :: u64
  po_running :: bool

definition Pool_builder :: PoolBuilder where
  "Pool_builder = PoolBuilder_new"

definition Pool_from_config :: "'w os \<Rightarrow> PoolConfig \<Rightarrow> Pool result" where
  "Pool_from_config os config =
     (let cpu_workers = (if pc_cpu_workers config = 0
                         then (case os_parallelism os of Some p \<Rightarrow> p | None \<Rightarrow> 4)
                         else pc_cpu_workers config);
          g0 = ExecutorRegistry_register ExecutorRegistry_new (CpuE (CpuExecutor_new cpu_workers));
          g1 = (if pc_enable_gpu config then ExecutorRegistry_register g0 (GpuE GpuExecutor_new) else g0);
          g2 = (if pc_remote_workers config \<noteq> []
                then ExecutorRegistry_register g1
                       (RemoteE (fold (\<lambda>a e. RemoteExecutor_add_worker e a) (pc_remote_workers config)
                                   RemoteExecutor_new))
                else g1)
      in Inr \<lparr>po_config = config,
              po_scheduler = Scheduler_with_capacity cpu_workers (pc_queue_capacity config),
              po_executors = g2, po_failure_detector = FailureDetector_new,
              po_tasks_submitted = 0, po_tasks_completed = 0, po_tasks_failed = 0,
              po_total_retries = 0, po_running = True\<rparr>)"

definition PoolBuilder_build :: "'w os \<Rightarrow> PoolBuilder \<Rightarrow> Pool result" where
  "PoolBuilder_build os b = Pool_from_config os (pb_config b)"

text \<open>Both retry branches of the loop: count the retry, then sleep for the backoff.\<close>

definition record_retry ::
  "'w os \<Rightarrow> Pool \<Rightarrow> RetryState \<Rightarrow> bytes \<Rightarrow> Task \<Rightarrow> 'w \<Rightarrow> RetryState \<times> Task \<times> Pool \<times> 'w" where
  "record_retry os p rs error task w =
     (let rs' = RetryState_record_failure (os_now os w) rs error;
          p' = p\<lparr>po_total_retries := po_total_retries p + 1\<rparr>;
          task' = Task_increment_retry task;
          delay = RetryState_next_delay rs' (pc_retry_policy (po_config p))
      in (rs', task', p', if 0 < delay then os_sleep os delay w else w))"

text \<open>The loop of \<^verbatim>\<open>submit\<close>.\<close>

partial_function (option) submit_loop ::
  "'w os \<Rightarrow> Pool \<Rightarrow> RetryState \<Rightarrow> Task \<Rightarrow> 'w \<Rightarrow> (ExecutionResult result \<times> Pool \<times> 'w) exec option" where
  "submit_loop os p rs task w =
     (case ExecutorRegistry_execute os (po_executors p) task w of
        None \<Rightarrow> None
      | Some Panic \<Rightarrow> Some Panic
      | Some (Done (Inr r, g, w1)) \<Rightarrow>
          let p1 = p\<lparr>po_executors := g\<rparr> in
          if ExecutionResult_is_success r
          then Some (Done (Inr r, p1\<lparr>po_tasks_completed := po_tasks_completed p1 + 1\<rparr>, w1))
          else if RetryState_should_retry rs (pc_retry_policy (po_config p1))
          then (case record_retry os p1 rs (case er_error r of None \<Rightarrow> [] | Some e \<Rightarrow> e) task w1 of
                  (rs', task', p2, w2) \<Rightarrow> submit_loop os p2 rs' task' w2)
          else Some (Done (Inr r, p1\<lparr>po_tasks_failed := po_tasks_failed p1 + 1\<rparr>, w1))
      | Some (Done (Inl e, g, w1)) \<Rightarrow>
          let p1 = p\<lparr>po_executors := g\<rparr> in
          if KernelError_is_retriable e \<and> RetryState_should_retry rs (pc_retry_policy (po_config p1))
          then (case record_retry os p1 rs (ascii (KernelError_fmt e)) task w1 of
                  (rs', task', p2, w2) \<Rightarrow> submit_loop os p2 rs' task' w2)
          else Some (Done (Inl e, p1\<lparr>po_tasks_failed := po_tasks_failed p1 + 1\<rparr>, w1)))"

definition Pool_submit ::
  "'w os \<Rightarrow> Pool \<Rightarrow> Task \<Rightarrow> 'w \<Rightarrow> (ExecutionResult result \<times> Pool \<times> 'w) exec option" where
  "Pool_submit os p task w =
     (if \<not> po_running p then Some (Done (Inl DeviceNotReady, p, w))
      else submit_loop os (p\<lparr>po_tasks_submitted := po_tasks_submitted p + 1\<rparr>) RetryState_new task w)"

definition Pool_submit_async :: "Pool \<Rightarrow> Task \<Rightarrow> TaskId result \<times> Pool" where
  "Pool_submit_async p task =
     (if \<not> po_running p then (Inl DeviceNotReady, p)
      else let p1 = p\<lparr>po_tasks_submitted := po_tasks_submitted p + 1\<rparr>
        in case Scheduler_submit (po_scheduler p1) task of
             (Some i, s) \<Rightarrow> (Inr i, p1\<lparr>po_scheduler := s\<rparr>)
           | (None, s) \<Rightarrow> (Inl UblkQueueFull, p1\<lparr>po_scheduler := s\<rparr>))"

definition Pool_stats :: "Pool \<Rightarrow> PoolStats" where
  "Pool_stats p =
     \<lparr>ps_tasks_submitted = po_tasks_submitted p, ps_tasks_completed = po_tasks_completed p,
      ps_tasks_failed = po_tasks_failed p, ps_tasks_pending = Scheduler_pending_tasks (po_scheduler p),
      ps_total_retries = po_total_retries p\<rparr>"

definition Pool_num_workers :: "Pool \<Rightarrow> usize" where
  "Pool_num_workers p = ExecutorRegistry_total_workers (po_executors p)"

definition Pool_pending_tasks :: "Pool \<Rightarrow> usize" where
  "Pool_pending_tasks p = Scheduler_pending_tasks (po_scheduler p)"

definition Pool_is_running :: "Pool \<Rightarrow> bool" where
  "Pool_is_running p = po_running p"

definition Pool_shutdown :: "Pool \<Rightarrow> Pool" where
  "Pool_shutdown p =
     p\<lparr>po_running := False, po_scheduler := Scheduler_stop (po_scheduler p),
       po_executors := ExecutorRegistry_shutdown (po_executors p),
       po_failure_detector := FailureDetector_stop (po_failure_detector p)\<rparr>"

definition Pool_worker_loads :: "Pool \<Rightarrow> usize list" where
  "Pool_worker_loads p = Scheduler_worker_loads (po_scheduler p)"

end
