(* ===== verification/Pepita_Execution.thy ===== *)
theory Pepita_Execution
  imports Pepita_Pool
begin

text \<open>
  Correctness of task execution.  The interface \<open>executor_backend\<close> is the contract of the trait
  \<^verbatim>\<open>Executor\<close>; it is interpreted on the three executors and on their trait object.  The retry loop of
  the pool is shown to refine a reference that recurses on the number of retries left.
\<close>

section \<open>What the program relies on\<close>

text \<open>
  The clock (\<^verbatim>\<open>Instant\<close> is monotone): no call to the operating system turns it back, and sleeping
  advances it by at least the given duration.
\<close>

definition clock_laws :: "'w os \<Rightarrow> bool" where
  "clock_laws os \<longleftrightarrow>
     (\<forall>d w. os_now os w + d \<le> os_now os (os_sleep os d w))
   \<and> (\<forall>b w. os_now os w \<le> os_now os (snd (os_spawn os b w)))
   \<and> (\<forall>ch data w w'. os_write_stdin os ch data w = Some w' \<longrightarrow> os_now os w \<le> os_now os w')
   \<and> (\<forall>ch w. os_now os w \<le> os_now os (snd (os_try_wait os ch w)))
   \<and> (\<forall>ch w x w'. os_wait_with_output os ch w = Some (x, w') \<longrightarrow> os_now os w \<le> os_now os w')
   \<and> (\<forall>ch w. os_now os w \<le> os_now os (os_kill os ch w))"

text \<open>
  A responsive operating system: besides, no write to a child blocks for ever and every child that is
  waited for exits.  Polls need not ever see a child exit.
\<close>

definition responsive :: "'w os \<Rightarrow> bool" where
  "responsive os \<longleftrightarrow> clock_laws os \<and> (\<forall>ch data w. os_write_stdin os ch data w \<noteq> None)
     \<and> (\<forall>ch w. os_wait_with_output os ch w \<noteq> None)"

lemma clock_sleep: "clock_laws os \<Longrightarrow> os_now os w + d \<le> os_now os (os_sleep os d w)"
  by (simp add: clock_laws_def)

lemma clock_spawn: "clock_laws os \<Longrightarrow> os_spawn os b w = (x, w') \<Longrightarrow> os_now os w \<le> os_now os w'"
  unfolding clock_laws_def by (metis snd_conv)

lemma clock_try_wait: "clock_laws os \<Longrightarrow> os_try_wait os ch w = (x, w') \<Longrightarrow> os_now os w \<le> os_now os w'"
  unfolding clock_laws_def by (metis snd_conv)

lemma clock_wait: "clock_laws os \<Longrightarrow> os_wait_with_output os ch w = Some (x, w') \<Longrightarrow> os_now os w \<le> os_now os w'"
  by (simp add: clock_laws_def)

lemma clock_kill: "clock_laws os \<Longrightarrow> os_now os w \<le> os_now os (os_kill os ch w)"
  by (simp add: clock_laws_def)

lemma clock_feed: "clock_laws os \<Longrightarrow> feed_stdin os ch b w = Some w' \<Longrightarrow> os_now os w \<le> os_now os w'"
  by (auto simp: clock_laws_def feed_stdin_def split: option.splits)

lemma responsive_clock: "responsive os \<Longrightarrow> clock_laws os"
  by (simp add: responsive_def)

lemma responsive_wait:
  assumes "responsive os"
  obtains x w' where "os_wait_with_output os ch w = Some (x, w')" "os_now os w \<le> os_now os w'"
  using assms clock_wait [OF responsive_clock [OF assms]] unfolding responsive_def by fastforce

lemma responsive_feed:
  assumes "responsive os"
  obtains w' where "feed_stdin os ch b w = Some w'" "os_now os w \<le> os_now os w'"
proof -
  have "feed_stdin os ch b w \<noteq> None"
    using assms by (auto simp: responsive_def feed_stdin_def split: option.splits)
  then show ?thesis using that clock_feed [OF responsive_clock [OF assms], of ch b w] by blast
qed

section \<open>Waiting for a child\<close>

text \<open>Each turn of the polling loop that goes on leaves less time to the deadline.\<close>

lemma poll_turn:
  assumes "clock_laws os" and "os_try_wait os ch w = (x, w1)" and "\<not> deadline < os_now os w1"
  shows "Suc deadline - os_now os (os_sleep os (from_millis 10) w1) < Suc deadline - os_now os w"
    and "os_now os w \<le> os_now os (os_sleep os (from_millis 10) w1)"
proof -
  have "os_now os w \<le> os_now os w1" by (rule clock_try_wait [OF assms(1,2)])
  moreover have "os_now os w1 + 10000000 \<le> os_now os (os_sleep os (from_millis 10) w1)"
    using clock_sleep [OF assms(1), of w1 "from_millis 10"] by (simp add: from_millis_def)
  ultimately show "Suc deadline - os_now os (os_sleep os (from_millis 10) w1) < Suc deadline - os_now os w"
    "os_now os w \<le> os_now os (os_sleep os (from_millis 10) w1)"
    using assms(3) by linarith+
qed

lemma poll_loop_returns:
  assumes "responsive os"
  shows "\<exists>r w'. poll_loop os ch i start deadline w = Some (r, w') \<and> os_now os w \<le> os_now os w'"
proof (induction "Suc deadline - os_now os w" arbitrary: w rule: less_induct)
  case less
  note clock = responsive_clock [OF assms]
  obtain x w1 where poll: "os_try_wait os ch w = (x, w1)" by fastforce
  have w1: "os_now os w \<le> os_now os w1" by (rule clock_try_wait [OF clock poll])
  show ?case
  proof (cases x)
    case (Exited code)
    obtain y w2 where "os_wait_with_output os ch w1 = Some (y, w2)" "os_now os w1 \<le> os_now os w2"
      by (rule responsive_wait [OF assms])
    with poll Exited w1 show ?thesis
      by (subst poll_loop.simps) (auto split: waited.splits)
  next
    case StillRunning
    show ?thesis
    proof (cases "deadline < os_now os w1")
      case True
      with poll StillRunning order_trans [OF w1 clock_kill [OF clock]] show ?thesis
        by (subst poll_loop.simps) (simp add: Let_def)
    next
      case False
      from less [OF poll_turn(1) [OF clock poll False]] poll_turn(2) [OF clock poll False]
      obtain r w' where "poll_loop os ch i start deadline (os_sleep os (from_millis 10) w1) = Some (r, w')"
        "os_now os w \<le> os_now os w'" by (auto intro: order_trans)
      with poll StillRunning False show ?thesis by (subst poll_loop.simps) simp
    qed
  next
    case PollError
    with poll w1 show ?thesis by (subst poll_loop.simps) simp
  qed
qed

text \<open>A child that every poll sees running is killed after the deadline.\<close>

lemma poll_loop_kills:
  assumes "clock_laws os" and "\<forall>w. fst (os_try_wait os ch w) = StillRunning"
  shows "\<exists>wk. poll_loop os ch i start deadline w =
      Some (Inr (timed_out_result i (elapsed (os_now os (os_kill os ch wk)) start)), os_kill os ch wk)
    \<and> deadline < os_now os wk"
proof (induction "Suc deadline - os_now os w" arbitrary: w rule: less_induct)
  case less
  obtain w1 where poll: "os_try_wait os ch w = (StillRunning, w1)"
    using assms(2) by (metis prod.collapse)
  show ?case
  proof (cases "deadline < os_now os w1")
    case True
    with poll show ?thesis by (subst poll_loop.simps) (auto simp: Let_def)
  next
    case False
    with poll less [OF poll_turn(1) [OF assms(1) poll False]] show ?thesis
      by (subst poll_loop.simps) simp
  qed
qed

lemma poll_loop_errors: "poll_loop os ch i start d w = Some (Inl err, w') \<Longrightarrow> err = IoTimeout"
proof -
  assume *: "poll_loop os ch i start d w = Some (Inl err, w')"
  have "\<forall>x. fst (Inl err :: ExecutionResult result, w') = Inl x \<longrightarrow> x = IoTimeout"
    by (rule poll_loop.raw_induct [where P = "\<lambda>_ _ _ _ _ _ r. \<forall>x. fst r = Inl x \<longrightarrow> x = IoTimeout", OF _ *])
       (auto simp: Let_def split: poll.splits waited.splits if_splits prod.splits option.splits)
  then show ?thesis by simp
qed

section \<open>Executing on the CPU\<close>

text \<open>
  A deadline that lies \<open>d\<close> after some moment from now on is beyond the last instant.
\<close>

definition overruns :: "'w os \<Rightarrow> 'w \<Rightarrow> duration \<Rightarrow> bool" where
  "overruns os w d \<longleftrightarrow> (\<exists>w'. os_now os w \<le> os_now os w' \<and> os_last_instant os < os_now os w' + d)"

text \<open>
  A call answers: it returns, no earlier than it started, and it panics only when it has a time limit
  whose deadline cannot be represented.
\<close>

definition answers :: "'w os \<Rightarrow> duration option \<Rightarrow> 'w \<Rightarrow> ('r \<Rightarrow> 'w) \<Rightarrow> 'r exec option \<Rightarrow> bool" where
  "answers os limit w world out \<longleftrightarrow>
     (case out of
        None \<Rightarrow> False
      | Some (Done x) \<Rightarrow> os_now os w \<le> os_now os (world x)
      | Some Panic \<Rightarrow> (\<exists>d. limit = Some d \<and> overruns os w d))"

lemma answers_later:
  "answers os limit w world out \<Longrightarrow> os_now os w0 \<le> os_now os w \<Longrightarrow> answers os limit w0 world out"
  by (auto simp: answers_def overruns_def intro: order_trans split: option.splits exec.splits)

lemma answers_Done [simp]: "answers os limit w world (Some (Done x)) \<longleftrightarrow> os_now os w \<le> os_now os (world x)"
  by (simp add: answers_def)

lemma answers_Panic [simp]: "answers os limit w world (Some Panic) \<longleftrightarrow> (\<exists>d. limit = Some d \<and> overruns os w d)"
  by (simp add: answers_def)

lemma answers_map:
  "answers os limit w world (map_option (map_exec f) out) \<longleftrightarrow> answers os limit w (world \<circ> f) out"
  by (auto simp: answers_def split: option.splits exec.splits)

lemma answers_cases:
  assumes "answers os limit w world out"
  obtains (Done) x where "out = Some (Done x)" "os_now os w \<le> os_now os (world x)"
    | (Panic) d where "out = Some Panic" "limit = Some d" "overruns os w d"
  using assms by (auto simp: answers_def split: option.splits exec.splits)

lemma run_binary_answers:
  assumes "responsive os"
  shows "answers os (effective_timeout e timeout) w snd
    (CpuExecutor_run_binary_internal os e task timeout i (os_now os w) w)"
proof (cases "os_spawn os task w")
  case (Pair s w1)
  have w1: "os_now os w \<le> os_now os w1" by (rule clock_spawn [OF responsive_clock [OF assms] Pair])
  show ?thesis
  proof (cases s)
    case (Inr ch)
    obtain w2 where w2: "feed_stdin os ch task w1 = Some w2" "os_now os w \<le> os_now os w2"
      using responsive_feed [OF assms, of ch task w1] w1 by (metis order_trans)
    show ?thesis
    proof (cases "effective_timeout e timeout")
      case None
      obtain x w3 where "os_wait_with_output os ch w2 = Some (x, w3)" "os_now os w2 \<le> os_now os w3"
        by (rule responsive_wait [OF assms])
      with None Pair Inr w2 show ?thesis
        by (simp add: CpuExecutor_run_binary_internal_def split: waited.splits)
    next
      case (Some d)
      show ?thesis
      proof (cases "instant_add os (os_now os w) d")
        case Panic
        then have "overruns os w d"
          by (auto simp: overruns_def instant_add_def not_le split: if_splits)
        with Some Pair Inr w2 Panic show ?thesis
          by (simp add: CpuExecutor_run_binary_internal_def answers_def)
      next
        case (Done deadline)
        obtain r w3 where "poll_loop os ch i (os_now os w) deadline w2 = Some (r, w3)" "os_now os w2 \<le> os_now os w3"
          using poll_loop_returns [OF assms] by blast
        with Some Pair Inr w2 Done show ?thesis
          by (simp add: CpuExecutor_run_binary_internal_def)
      qed
    qed
  qed (use Pair w1 in \<open>simp add: CpuExecutor_run_binary_internal_def\<close>)
qed

lemma run_binary_errors:
  "CpuExecutor_run_binary_internal os e task timeout i start w = Some (Done (Inl err, w')) \<Longrightarrow>
   err \<in> {UblkDeviceNotFound, InvalidRequest, IoTimeout}"
proof -
  assume "CpuExecutor_run_binary_internal os e task timeout i start w = Some (Done (Inl err, w'))"
  then show ?thesis
    by (auto simp: CpuExecutor_run_binary_internal_def dest!: poll_loop_errors
        split: prod.splits sum.splits option.splits waited.splits if_splits exec.splits)
qed

lemma map_exec_Done [simp]: "map_exec f r = Done y \<longleftrightarrow> (\<exists>x. r = Done x \<and> y = f x)"
  by (cases r) auto

lemma execute_binary_same:
  "CpuExecutor_execute_binary os e task timeout w = Some (Done (r, e', w')) \<Longrightarrow> e' = e"
  by (auto simp: CpuExecutor_execute_binary_def Let_def)

lemma execute_binary_errors:
  "CpuExecutor_execute_binary os e task timeout w = Some (Done (Inl err, e', w')) \<Longrightarrow>
   err \<in> {UblkDeviceNotFound, InvalidRequest, IoTimeout}"
  by (auto simp: CpuExecutor_execute_binary_def Let_def dest!: run_binary_errors)

lemma execute_binary_answers:
  assumes "responsive os"
  shows "answers os (effective_timeout e timeout) w (\<lambda>x. snd (snd x)) (CpuExecutor_execute_binary os e task timeout w)"
proof -
  let ?e = "e\<lparr>ce_running_tasks := ce_running_tasks e + 1\<rparr>"
  have "effective_timeout ?e timeout = effective_timeout e timeout"
    by (simp add: effective_timeout_def split: option.splits)
  with run_binary_answers [OF assms, of ?e timeout w task "TaskId_new 0"] show ?thesis
    by (simp add: CpuExecutor_execute_binary_def Let_def answers_map comp_def case_prod_beta)
qed

lemma run_stages_same: "run_stages os e pipe timeout start idx stages out w = Some (Done (r, e', w')) \<Longrightarrow> e' = e"
proof (induction stages arbitrary: e idx out w)
  case (Cons stage stages)
  then show ?case
    by (force simp: Let_def dest: execute_binary_same split: option.splits sum.splits if_splits exec.splits)
qed simp

lemma run_stages_errors:
  "run_stages os e pipe timeout start idx stages out w = Some (Done (Inl err, e', w')) \<Longrightarrow>
   err \<in> {UblkDeviceNotFound, InvalidRequest, IoTimeout}"
proof (induction stages arbitrary: e idx out w)
  case (Cons stage stages)
  then show ?case
    by (force simp: Let_def dest: execute_binary_errors split: option.splits sum.splits if_splits exec.splits)
qed simp

lemma run_stages_answers:
  assumes "responsive os"
  shows "answers os (effective_timeout e timeout) w (\<lambda>x. snd (snd x))
    (run_stages os e pipe timeout start idx stages out w)"
proof (induction stages arbitrary: idx out w)
  case (Cons stage stages)
  let ?b = "if pipe \<and> 0 < idx then stage\<lparr>bt_stdin := out\<rparr> else stage"
  from execute_binary_answers [OF assms, of e timeout w ?b] show ?case
  proof (cases rule: answers_cases)
    case (Done x)
    then obtain r w' where r: "CpuExecutor_execute_binary os e ?b timeout w = Some (Done (r, e, w'))"
      "os_now os w \<le> os_now os w'"
      by (cases x) (auto dest: execute_binary_same)
    show ?thesis
    proof (cases r)
      case (Inr y)
      with r answers_later [OF Cons.IH [of w' "Suc idx" "Some (er_stdout y)"] r(2)] show ?thesis
        by (simp add: Let_def)
    qed (use r in \<open>simp add: Let_def\<close>)
  qed (simp add: Let_def)
qed simp

section \<open>The contract of an executor\<close>

text \<open>\<open>limit\<close> is the time limit an executor applies to a task.\<close>

locale executor_backend =
  fixes backend :: "'e \<Rightarrow> Backend"
    and can_execute :: "'e \<Rightarrow> Task \<Rightarrow> bool"
    and execute :: "'w os \<Rightarrow> 'e \<Rightarrow> Task \<Rightarrow> 'w \<Rightarrow> (ExecutionResult result \<times> 'e \<times> 'w) exec option"
    and limit :: "'e \<Rightarrow> Task \<Rightarrow> duration option"
    and healthy :: "'e \<Rightarrow> bool"
    and shutdown :: "'e \<Rightarrow> 'e"
  assumes serves_backend: "can_execute e t \<Longrightarrow> task_backend t = backend e \<or> task_backend t = AnyBackend"
    and needs_health: "can_execute e t \<Longrightarrow> healthy e"
    and shutdown_unhealthy: "\<not> healthy (shutdown e)"
    and execute_same: "execute os e t w = Some (Done (r, e', w')) \<Longrightarrow> e' = e"
    and execute_errors: "execute os e t w = Some (Done (Inl err, e', w')) \<Longrightarrow>
      err \<in> {UblkDeviceNotFound, InvalidRequest, IoTimeout, DeviceNotReady, NotSupported}"
    and execute_answers: "responsive os \<Longrightarrow> answers os (limit e t) w (\<lambda>x. snd (snd x)) (execute os e t w)"
    and can_execute_blind: "can_execute e (t\<lparr>task_retry_count := n, task_max_retries := m\<rparr>) = can_execute e t"
    and execute_blind: "execute os e (t\<lparr>task_retry_count := n, task_max_retries := m\<rparr>) w = execute os e t w"
begin

lemma shutdown_rejects: "\<not> can_execute (shutdown e) t"
  using needs_health shutdown_unhealthy by blast

lemma errors_not_retriable:
  "execute os e t w = Some (Done (Inl err, e', w')) \<Longrightarrow> \<not> KernelError_is_retriable err"
  by (drule execute_errors) (auto simp: KernelError_is_retriable_def)

lemma none_after_shutdown: "List.find (\<lambda>i. can_execute (map shutdown es ! i) t) [0..<length es] = None"
  by (auto simp: find_None_iff shutdown_rejects)

end

text \<open>The time limit of a trait object, and of the executor the registry chooses.\<close>

fun executor_limit :: "Executor \<Rightarrow> Task \<Rightarrow> duration option" where
  "executor_limit (CpuE e) t = effective_timeout e (task_timeout t)"
| "executor_limit _ t = None"


interpretation cpu: executor_backend "\<lambda>_. Cpu" CpuExecutor_can_execute CpuExecutor_execute_sync
  "\<lambda>e t. effective_timeout e (task_timeout t)" ce_running CpuExecutor_shutdown
proof
  fix os :: "'w os" and e t and w :: 'w
  show "responsive os \<Longrightarrow> answers os (effective_timeout e (task_timeout t)) w (\<lambda>x. snd (snd x))
      (CpuExecutor_execute_sync os e t w)"
    by (simp add: CpuExecutor_execute_sync_def execute_binary_answers run_stages_answers split: TaskKind.splits)
qed (auto simp: CpuExecutor_can_execute_def CpuExecutor_shutdown_def CpuExecutor_execute_sync_def
    dest: execute_binary_same run_stages_same execute_binary_errors run_stages_errors
    split: if_splits TaskKind.splits)

interpretation gpu: executor_backend "\<lambda>_. Gpu" GpuExecutor_can_execute
  "\<lambda>os e t w. Some (Done (GpuExecutor_execute_sync e t, e, w))" "\<lambda>_ _. None" GpuExecutor_is_healthy GpuExecutor_shutdown
  by unfold_locales (auto simp: GpuExecutor_can_execute_def GpuExecutor_is_healthy_def GpuExecutor_shutdown_def
      GpuExecutor_execute_sync_def)

interpretation remote: executor_backend "\<lambda>_. Remote" RemoteExecutor_can_execute
  "\<lambda>os e t w. Some (Done (RemoteExecutor_execute_sync e t, e, w))" "\<lambda>_ _. None" RemoteExecutor_is_healthy RemoteExecutor_shutdown
  by unfold_locales (auto simp: RemoteExecutor_can_execute_def RemoteExecutor_is_healthy_def
      RemoteExecutor_shutdown_def RemoteExecutor_execute_sync_def)

interpretation dyn: executor_backend Executor_backend Executor_can_execute Executor_execute_sync
  executor_limit Executor_is_healthy Executor_shutdown
proof
  fix os :: "'w os" and e t and w :: 'w and n m
  show "Executor_can_execute e t \<Longrightarrow> task_backend t = Executor_backend e \<or> task_backend t = AnyBackend"
    using cpu.serves_backend gpu.serves_backend remote.serves_backend by (cases e) auto
  show "Executor_can_execute e t \<Longrightarrow> Executor_is_healthy e"
    using cpu.needs_health gpu.needs_health remote.needs_health by (cases e) auto
  show "\<not> Executor_is_healthy (Executor_shutdown e)"
    using cpu.shutdown_unhealthy gpu.shutdown_unhealthy remote.shutdown_unhealthy by (cases e) auto
  show "answers os (executor_limit e t) w (\<lambda>x. snd (snd x)) (Executor_execute_sync os e t w)" if "responsive os"
  proof (cases e)
    case (CpuE c)
    then show ?thesis
      using cpu.execute_answers [OF that, of c t w] by (simp add: answers_map comp_def case_prod_beta)
  qed auto
  show "Executor_can_execute e (t\<lparr>task_retry_count := n, task_max_retries := m\<rparr>) = Executor_can_execute e t"
    by (cases e) (simp_all add: cpu.can_execute_blind gpu.can_execute_blind remote.can_execute_blind)
  show "Executor_execute_sync os e (t\<lparr>task_retry_count := n, task_max_retries := m\<rparr>) w = Executor_execute_sync os e t w"
    by (cases e) (simp_all add: cpu.execute_blind GpuExecutor_execute_sync_def RemoteExecutor_execute_sync_def)
next
  fix os :: "'w os" and e t w r e' w'
  show "Executor_execute_sync os e t w = Some (Done (r, e', w')) \<Longrightarrow> e' = e"
    by (cases e) (auto dest: cpu.execute_same)
next
  fix os :: "'w os" and e t w err e' w'
  show "Executor_execute_sync os e t w = Some (Done (Inl err, e', w')) \<Longrightarrow>
      err \<in> {UblkDeviceNotFound, InvalidRequest, IoTimeout, DeviceNotReady, NotSupported}"
    by (cases e) (auto simp: GpuExecutor_execute_sync_def RemoteExecutor_execute_sync_def dest!: cpu.execute_errors)
qed

section \<open>The registry\<close>

lemma registry_same: "ExecutorRegistry_execute os g t w = Some (Done (r, g', w')) \<Longrightarrow> g' = g"
  by (auto simp: ExecutorRegistry_execute_def list_update_id dest: dyn.execute_same split: option.splits)

lemma registry_errors:
  "ExecutorRegistry_execute os g t w = Some (Done (Inl err, g', w')) \<Longrightarrow> \<not> KernelError_is_retriable err"
  by (auto simp: ExecutorRegistry_execute_def KernelError_is_retriable_def
      dest: dyn.errors_not_retriable [unfolded KernelError_is_retriable_def] split: option.splits)


lemma registry_retry_blind:
  "ExecutorRegistry_execute os g (t\<lparr>task_retry_count := n, task_max_retries := m\<rparr>) w = ExecutorRegistry_execute os g t w"
  by (simp add: ExecutorRegistry_execute_def ExecutorRegistry_find_executor_def dyn.can_execute_blind
      dyn.execute_blind split: option.splits)

section \<open>Submission with retries\<close>

text \<open>One attempt at a task, and the pause before attempt \<open>k + 1\<close>.\<close>

definition attempt :: "'w os \<Rightarrow> ExecutorRegistry \<Rightarrow> Task \<Rightarrow> 'w \<Rightarrow> (ExecutionResult result \<times> 'w) exec option" where
  "attempt os g task w = map_option (map_exec (\<lambda>(r, _, w'). (r, w'))) (ExecutorRegistry_execute os g task w)"

definition pause :: "'w os \<Rightarrow> RetryPolicy \<Rightarrow> nat \<Rightarrow> 'w \<Rightarrow> 'w" where
  "pause os policy k w =
     (let d = RetryPolicy_delay_for_attempt policy (word_of_nat k) in if 0 < d then os_sleep os d w else w)"

text \<open>The reference: at most \<open>n\<close> more retries after \<open>k\<close> of them; only failed results are retried.\<close>

fun retrying ::
  "('w \<Rightarrow> (ExecutionResult result \<times> 'w) exec option) \<Rightarrow> (nat \<Rightarrow> 'w \<Rightarrow> 'w) \<Rightarrow> nat \<Rightarrow> nat \<Rightarrow> 'w
     \<Rightarrow> (ExecutionResult result \<times> nat \<times> 'w) exec option" where
  "retrying att wait n k w =
     (case att w of
        None \<Rightarrow> None
      | Some Panic \<Rightarrow> Some Panic
      | Some (Done (Inl e, w')) \<Rightarrow> Some (Done (Inl e, k, w'))
      | Some (Done (Inr r, w')) \<Rightarrow>
          if ExecutionResult_is_success r then Some (Done (Inr r, k, w'))
          else case n of 0 \<Rightarrow> Some (Done (Inr r, k, w'))
             | Suc n' \<Rightarrow> retrying att wait n' (Suc k) (wait (Suc k) w'))"

declare retrying.simps [simp del]

definition succeeded :: "ExecutionResult result \<Rightarrow> bool" where
  "succeeded r \<longleftrightarrow> (case r of Inl _ \<Rightarrow> False | Inr x \<Rightarrow> ExecutionResult_is_success x)"

text \<open>The pool's counters after a submission that was retried \<open>k\<close> times.\<close>

definition settle :: "Pool \<Rightarrow> ExecutionResult result \<Rightarrow> nat \<Rightarrow> Pool" where
  "settle p r k =
     (let p1 = p\<lparr>po_total_retries := po_total_retries p + word_of_nat k\<rparr>
      in if succeeded r then p1\<lparr>po_tasks_completed := po_tasks_completed p1 + 1\<rparr>
         else p1\<lparr>po_tasks_failed := po_tasks_failed p1 + 1\<rparr>)"

lemma retrying_count:
  "retrying att wait n k w = Some (Done (r, j, w')) \<Longrightarrow>
   k \<le> j \<and> j \<le> k + n \<and> (\<not> succeeded r \<and> (\<exists>x. r = Inr x) \<longrightarrow> j = k + n)"
proof (induction n arbitrary: k w)
  case (Suc n)
  show ?case
    using Suc.prems Suc.IH [of "Suc k"]
    by (subst (asm) retrying.simps)
       (fastforce simp: succeeded_def split: option.splits sum.splits if_splits exec.splits)
next
  case 0
  then show ?case
    by (subst (asm) retrying.simps) (auto simp: succeeded_def split: option.splits sum.splits if_splits exec.splits)
qed


lemma submit_loop_unfold:
  "submit_loop os p rs task w =
     (case attempt os (po_executors p) task w of
        None \<Rightarrow> None
      | Some Panic \<Rightarrow> Some Panic
      | Some (Done (Inr r, w1)) \<Rightarrow>
          if ExecutionResult_is_success r \<or> \<not> rs_attempts rs < rp_max_retries (pc_retry_policy (po_config p))
          then Some (Done (Inr r, settle p (Inr r) 0, w1))
          else (case record_retry os p rs (case er_error r of None \<Rightarrow> [] | Some e \<Rightarrow> e) task w1 of
                  (rs', task', p2, w2) \<Rightarrow> submit_loop os p2 rs' task' w2)
      | Some (Done (Inl e, w1)) \<Rightarrow> Some (Done (Inl e, settle p (Inl e) 0, w1)))"
proof -
  consider "ExecutorRegistry_execute os (po_executors p) task w = None"
    | "ExecutorRegistry_execute os (po_executors p) task w = Some Panic"
    | r w1 where "ExecutorRegistry_execute os (po_executors p) task w = Some (Done (r, po_executors p, w1))"
  proof (cases "ExecutorRegistry_execute os (po_executors p) task w")
    case (Some x)
    then show ?thesis using that by (cases x) (auto dest: registry_same)
  qed (use that in simp)
  then show ?thesis
  proof cases
    case (3 r w1)
    show ?thesis
    proof (cases r)
      case (Inl e)
      then have "\<not> KernelError_is_retriable e" using 3 by (intro registry_errors) simp
      with 3 Inl show ?thesis
        by (subst submit_loop.simps) (simp add: attempt_def settle_def succeeded_def Let_def)
    next
      case (Inr res)
      with 3 show ?thesis
        by (subst submit_loop.simps)
           (simp add: attempt_def settle_def succeeded_def Let_def RetryState_should_retry_def RetryPolicy_should_retry_def)
    qed
  qed (subst submit_loop.simps, simp add: attempt_def)+
qed

lemma attempt_blind: "attempt os g (t\<lparr>task_retry_count := n, task_max_retries := m\<rparr>) = attempt os g t"
  by (rule ext) (simp add: attempt_def registry_retry_blind)

lemma attempt_increment: "attempt os g (Task_increment_retry t) = attempt os g t"
  using attempt_blind [where t = t and n = "task_retry_count t + 1" and m = "task_max_retries t"]
  by (simp add: Task_increment_retry_def)

lemma settle_Suc: "settle (p\<lparr>po_total_retries := po_total_retries p + 1\<rparr>) r k = settle p r (Suc k)"
  by (simp add: settle_def Let_def ac_simps)

text \<open>The loop of the pool refines the reference.\<close>

lemma submit_loop_refines:
  assumes "unat (rp_max_retries (pc_retry_policy (po_config p))) = k + n" and "rs_attempts rs = word_of_nat k"
  shows "submit_loop os p rs task w =
    map_option (map_exec (\<lambda>(r, j, w'). (r, settle p r (j - k), w')))
      (retrying (attempt os (po_executors p) task) (pause os (pc_retry_policy (po_config p))) n k w)"
  using assms
proof (induction n arbitrary: p rs task w k)
  case 0
  have "\<not> rs_attempts rs < rp_max_retries (pc_retry_policy (po_config p))"
    using 0 unat_bound [of "rp_max_retries (pc_retry_policy (po_config p))"]
    by (simp add: word_less_nat_alt unat_of_nat)
  then show ?case
    by (subst submit_loop_unfold, subst retrying.simps) (auto split: option.splits sum.splits exec.splits)
next
  case (Suc n)
  let ?pol = "pc_retry_policy (po_config p)"
  have lt: "k < 2 ^ 32" using unat_bound [of "rp_max_retries ?pol"] Suc.prems(1) by simp
  have more: "rs_attempts rs < rp_max_retries ?pol"
    using Suc.prems lt by (simp add: word_less_nat_alt unat_of_nat)
  show ?case
  proof (cases "\<exists>res w1. attempt os (po_executors p) task w = Some (Done (Inr res, w1)) \<and> \<not> ExecutionResult_is_success res")
    case False
    then show ?thesis
      by (subst submit_loop_unfold, subst retrying.simps) (auto split: option.splits sum.splits exec.splits)
  next
    case True
    then obtain res w1 where x: "attempt os (po_executors p) task w = Some (Done (Inr res, w1))"
      and res: "\<not> ExecutionResult_is_success res" by auto
    let ?rs = "RetryState_record_failure (os_now os w1) rs (case er_error res of None \<Rightarrow> [] | Some e \<Rightarrow> e)"
    let ?p = "p\<lparr>po_total_retries := po_total_retries p + 1\<rparr>"
    let ?w = "pause os ?pol (Suc k) w1"
    have rs: "rs_attempts ?rs = word_of_nat (Suc k)"
      using Suc.prems(2) by (simp add: RetryState_record_failure_def)
    have "submit_loop os p rs task w = submit_loop os ?p ?rs (Task_increment_retry task) ?w"
      using x res more rs
      by (subst submit_loop_unfold) (simp add: record_retry_def Let_def pause_def RetryState_next_delay_def)
    also have "\<dots> = map_option (map_exec (\<lambda>(r, j, w'). (r, settle ?p r (j - Suc k), w')))
        (retrying (attempt os (po_executors p) task) (pause os ?pol) n (Suc k) ?w)"
      using Suc.IH [of ?p "Suc k" ?rs "Task_increment_retry task" ?w] Suc.prems(1) rs
      by (simp add: attempt_increment)
    also have "\<dots> = map_option (map_exec (\<lambda>(r, j, w'). (r, settle p r (j - k), w')))
        (retrying (attempt os (po_executors p) task) (pause os ?pol) n (Suc k) ?w)"
      by (intro map_option_cong refl exec.map_cong0)
         (auto dest!: retrying_count simp: settle_Suc Suc_diff_Suc elim!: exec.set_cases)
    also have "retrying (attempt os (po_executors p) task) (pause os ?pol) n (Suc k) ?w =
        retrying (attempt os (po_executors p) task) (pause os ?pol) (Suc n) k w"
      using x res by (subst (2) retrying.simps) simp
    finally show ?thesis .
  qed
qed

lemma Pool_submit_reference:
  "Pool_submit os p task w =
     (if po_running p
      then map_option (map_exec (\<lambda>(r, k, w'). (r, settle (p\<lparr>po_tasks_submitted := po_tasks_submitted p + 1\<rparr>) r k, w')))
             (retrying (attempt os (po_executors p) task) (pause os (pc_retry_policy (po_config p)))
                (unat (rp_max_retries (pc_retry_policy (po_config p)))) 0 w)
      else Some (Done (Inl DeviceNotReady, p, w)))"
  using submit_loop_refines [of "p\<lparr>po_tasks_submitted := po_tasks_submitted p + 1\<rparr>" 0 _ RetryState_new os task w]
  by (simp add: Pool_submit_def RetryState_new_def)



section \<open>Pipelines\<close>

text \<open>
  The task stage \<open>i\<close> of a pipeline runs, given the results of the stages before it: with piping, every
  stage but the first gets the previous one's output as its input.
\<close>

definition stage_task :: "PipelineTask \<Rightarrow> ExecutionResult list \<Rightarrow> nat \<Rightarrow> BinaryTask" where
  "stage_task p outs i =
     (if pt_pipe_output p \<and> 0 < i then (pt_stages p ! i)\<lparr>bt_stdin := Some (er_stdout (outs ! (i - 1)))\<rparr>
      else pt_stages p ! i)"

text \<open>The output of the last of the stages that ran.\<close>

definition last_stdout :: "ExecutionResult list \<Rightarrow> bytes option" where
  "last_stdout outs = (if outs = [] then None else Some (er_stdout (last outs)))"

text \<open>
  Stages \<open>outs\<close> succeed one after the other from the worlds \<open>ws\<close>, after the results \<open>before\<close>.
\<close>

definition stages_succeed ::
  "'w os \<Rightarrow> CpuExecutor \<Rightarrow> PipelineTask \<Rightarrow> duration option \<Rightarrow> ExecutionResult list \<Rightarrow> ExecutionResult list \<Rightarrow> 'w list \<Rightarrow> bool" where
  "stages_succeed os e p timeout before outs ws \<longleftrightarrow> length ws = Suc (length outs) \<and>
     (\<forall>i<length outs. CpuExecutor_execute_binary os e (stage_task p (before @ outs) (length before + i)) timeout (ws ! i)
         = Some (Done (Inr (outs ! i), e, ws ! Suc i)) \<and> ExecutionResult_is_success (outs ! i))"

lemma stages_succeed_Cons:
  "CpuExecutor_execute_binary os e (stage_task p (before @ r # outs) (length before)) timeout w
     = Some (Done (Inr r, e, w')) \<Longrightarrow> ExecutionResult_is_success r \<Longrightarrow>
   stages_succeed os e p timeout (before @ [r]) outs ws \<Longrightarrow> ws ! 0 = w' \<Longrightarrow>
   stages_succeed os e p timeout before (r # outs) (w # ws)"
  by (auto simp: stages_succeed_def less_Suc_eq_0_disj)

text \<open>What the loop does when stage \<open>n\<close> is the first that does not succeed.\<close>

definition stopped_by ::
  "'w os \<Rightarrow> CpuExecutor \<Rightarrow> instant \<Rightarrow> nat \<Rightarrow> (ExecutionResult result \<times> CpuExecutor \<times> 'w) exec option
     \<Rightarrow> (ExecutionResult result \<times> CpuExecutor \<times> 'w) exec option \<Rightarrow> bool" where
  "stopped_by os e start n stage res \<longleftrightarrow>
     (case stage of
        None \<Rightarrow> res = None
      | Some Panic \<Rightarrow> res = Some Panic
      | Some (Done (Inl err, _, w')) \<Rightarrow> res = Some (Done (Inl err, e, w'))
      | Some (Done (Inr y, _, w')) \<Rightarrow> \<not> ExecutionResult_is_success y
          \<and> res = Some (Done (Inr (stage_failed_result y (elapsed (os_now os w') start) n), e, w')))"

lemma stage_task_prefix: "i \<le> length xs \<Longrightarrow> stage_task p (xs @ ys) i = stage_task p xs i"
  by (auto simp: stage_task_def nth_append)

lemma run_stages_trace:
  assumes "length before \<le> length (pt_stages p)"
  shows "\<exists>outs ws. length before + length outs \<le> length (pt_stages p)
    \<and> stages_succeed os e p timeout before outs ws \<and> ws ! 0 = w
    \<and> (if length before + length outs = length (pt_stages p)
       then run_stages os e (pt_pipe_output p) timeout start (length before) (drop (length before) (pt_stages p))
              (last_stdout before) w
            = Some (Done (Inr (pipeline_result (last_stdout (before @ outs)) (elapsed (os_now os (last ws)) start)), e, last ws))
       else stopped_by os e start (length before + length outs)
              (CpuExecutor_execute_binary os e (stage_task p (before @ outs) (length before + length outs)) timeout (last ws))
              (run_stages os e (pt_pipe_output p) timeout start (length before) (drop (length before) (pt_stages p))
                (last_stdout before) w))"
    (is "\<exists>outs ws. ?P before w outs ws")
  using assms
proof (induction "length (pt_stages p) - length before" arbitrary: before w)
  case 0
  then have "?P before w [] [w]" by (simp add: stages_succeed_def)
  then show ?case by blast
next
  case (Suc n)
  let ?n = "length before" and ?b = "stage_task p before (length before)"
  let ?run = "\<lambda>before w. run_stages os e (pt_pipe_output p) timeout start (length before)
      (drop (length before) (pt_stages p)) (last_stdout before) w"
  have n: "?n < length (pt_stages p)" using Suc.hyps(2) by simp
  have stages: "drop ?n (pt_stages p) = pt_stages p ! ?n # drop (Suc ?n) (pt_stages p)"
    using n by (simp add: Cons_nth_drop_Suc)
  have b: "(if pt_pipe_output p \<and> 0 < ?n then (pt_stages p ! ?n)\<lparr>bt_stdin := last_stdout before\<rparr>
      else pt_stages p ! ?n) = ?b"
    by (simp add: stage_task_def last_stdout_def last_conv_nth)
  have step: "?run before w = (case CpuExecutor_execute_binary os e ?b timeout w of
           None \<Rightarrow> None
         | Some Panic \<Rightarrow> Some Panic
         | Some (Done (Inl err, e', w')) \<Rightarrow> Some (Done (Inl err, e', w'))
         | Some (Done (Inr r, e', w')) \<Rightarrow>
             if \<not> ExecutionResult_is_success r
             then Some (Done (Inr (stage_failed_result r (elapsed (os_now os w') start) ?n), e', w'))
             else run_stages os e' (pt_pipe_output p) timeout start (Suc ?n) (drop (Suc ?n) (pt_stages p))
                    (Some (er_stdout r)) w')"
    by (simp only: stages run_stages.simps Let_def b)
  show ?case
  proof (cases "\<exists>r e' w'. CpuExecutor_execute_binary os e ?b timeout w = Some (Done (Inr r, e', w')) \<and> ExecutionResult_is_success r")
    case True
    then obtain r w' where r: "CpuExecutor_execute_binary os e ?b timeout w = Some (Done (Inr r, e, w'))"
      "ExecutionResult_is_success r" by (auto dest: execute_binary_same)
    have run: "?run before w = ?run (before @ [r]) w'"
      unfolding step using r by (simp add: last_stdout_def)
    have left: "n = length (pt_stages p) - length (before @ [r])" "length (before @ [r]) \<le> length (pt_stages p)"
      using Suc.hyps(2) n by simp_all
    from Suc.hyps(1) [OF left] obtain outs ws where IH: "?P (before @ [r]) w' outs ws" by blast
    then have ws: "ws \<noteq> []" "ws ! 0 = w'" by (auto simp: stages_succeed_def)
    have "CpuExecutor_execute_binary os e (stage_task p (before @ r # outs) ?n) timeout w = Some (Done (Inr r, e, w'))"
      using r(1) by (simp add: stage_task_prefix)
    from stages_succeed_Cons [OF this r(2) _ ws(2)] IH ws have "?P before w (r # outs) (w # ws)"
      unfolding run by (cases "Suc (length before + length outs) = length (pt_stages p)") simp_all
    then show ?thesis by blast
  next
    case False
    have "stopped_by os e start ?n (CpuExecutor_execute_binary os e ?b timeout w) (?run before w)"
      unfolding step using False
      by (auto simp: stopped_by_def split: option.splits exec.splits sum.splits dest: execute_binary_same)
    then have "?P before w [] [w]" using n by (simp add: stages_succeed_def)
    then show ?thesis by blast
  qed
qed

section \<open>Properties\<close>

text \<open>C7: The retry loop of the pool refines its reference. A running pool's submission is exactly: attempt
  the task; a success or an error is final, a failed result is retried after the policy's backoff as
  long as fewer than \<open>max_retries\<close> retries were made; the counters record one submission, the retries,
  and one completion or one failure; an attempt that panics or does not return ends it. A pool that is not
  running answers \<open>DeviceNotReady\<close> and changes nothing. The submission runs the task itself: contrary to
  the comment on \<^verbatim>\<open>submit\<close>, the task is not queued and the scheduler is not touched.\<close>

theorem pool_submit_refines_retrying:
  "Pool_submit os p task w =
     (if po_running p
      then map_option (map_exec (\<lambda>(r, k, w'). (r, settle (p\<lparr>po_tasks_submitted := po_tasks_submitted p + 1\<rparr>) r k, w')))
             (retrying (attempt os (po_executors p) task) (pause os (pc_retry_policy (po_config p)))
                (unat (rp_max_retries (pc_retry_policy (po_config p)))) 0 w)
      else Some (Done (Inl DeviceNotReady, p, w)))
   \<and> po_scheduler (settle p r k) = po_scheduler p"
  by (rule conjI [OF Pool_submit_reference]) (simp add: settle_def Let_def)


text \<open>A system whose programs fail at once; its world is the clock.\<close>

definition failing_os :: "nat os" where
  "failing_os = \<lparr>os_spawn = (\<lambda>b w. (Inr 0, w)), os_write_stdin = (\<lambda>ch data w. Some w),
     os_try_wait = (\<lambda>ch w. (Exited (Some 1), w)), os_wait_with_output = (\<lambda>ch w. Some (Finished (Some 1) [] [], w)),
     os_kill = (\<lambda>ch w. w), os_now = (\<lambda>w. w), os_sleep = (\<lambda>d w. w + d), os_last_instant = 1000,
     os_parallelism = Some 2\<rparr>"


text \<open>The task's own retry limit is ignored. A submission does not depend on the task's \<open>max_retries\<close>
  nor on its \<open>retry_count\<close>: only the pool's retry policy limits the retries.\<close>

lemma pool_ignores_task_max_retries:
  "Pool_submit os p (t\<lparr>task_retry_count := n, task_max_retries := m\<rparr>) w = Pool_submit os p t w"
  by (simp only: Pool_submit_reference attempt_blind)

text \<open>After shutdown nothing runs. A pool that was shut down answers every submission, synchronous or
  not, with \<open>DeviceNotReady\<close> and unchanged; its scheduler accepts no task, its failure detector is
  stopped, and its registry finds no executor for any task.\<close>

theorem pool_shutdown_rejects:
  "Pool_submit os (Pool_shutdown p) t w = Some (Done (Inl DeviceNotReady, Pool_shutdown p, w))
   \<and> Pool_submit_async (Pool_shutdown p) t = (Inl DeviceNotReady, Pool_shutdown p)
   \<and> fst (Scheduler_submit (po_scheduler (Pool_shutdown p)) t) = None
   \<and> \<not> FailureDetector_is_running (po_failure_detector (Pool_shutdown p))
   \<and> ExecutorRegistry_find_executor (po_executors (Pool_shutdown p)) t = None"
  using dyn.none_after_shutdown
  by (simp add: Pool_submit_def Pool_submit_async_def Pool_shutdown_def Scheduler_submit_def Scheduler_stop_def
      FailureDetector_is_running_def FailureDetector_stop_def ExecutorRegistry_find_executor_def ExecutorRegistry_shutdown_def)

text \<open>Backends that never run. In a pool built from any configuration, GPU enabled and remote workers
  configured or not, every shader task and every task for the remote backend fails at once with
  \<open>NotSupported\<close>: the GPU executor has no devices and the remote executor is never connected.\<close>

theorem pool_gpu_and_remote_not_supported:
  assumes "Pool_from_config os c = Inr p" and "Task_is_shader t \<or> task_backend t = Remote"
  shows "\<exists>p'. Pool_submit os p t w = Some (Done (Inl NotSupported, p', w)) \<and> po_tasks_failed p' = 1 \<and> po_total_retries p' = 0"
proof -
  have "\<not> re_connected (fold (\<lambda>a e. RemoteExecutor_add_worker e a) as e) \<longleftrightarrow> \<not> re_connected e" for as e
    by (induction as arbitrary: e) (simp_all add: RemoteExecutor_add_worker_def)
  then have "\<not> Executor_can_execute e t" if "e \<in> set (reg_executors (po_executors p))" for e
    using assms that
    by (auto simp: Pool_from_config_def Let_def ExecutorRegistry_register_def ExecutorRegistry_new_def
        CpuExecutor_can_execute_def GpuExecutor_can_execute_def RemoteExecutor_can_execute_def
        GpuExecutor_new_def RemoteExecutor_new_def Task_is_shader_def split: if_splits TaskKind.splits)
  then have "ExecutorRegistry_find_executor (po_executors p) t = None"
    by (auto simp: ExecutorRegistry_find_executor_def find_None_iff)
  then have "attempt os (po_executors p) t w = Some (Done (Inl NotSupported, w))"
    by (simp add: attempt_def ExecutorRegistry_execute_def)
  moreover have "po_running p" "po_tasks_failed p = 0" "po_total_retries p = 0"
    using assms(1) by (auto simp: Pool_from_config_def Let_def)
  ultimately show ?thesis
    by (simp add: Pool_submit_reference retrying.simps settle_def succeeded_def Let_def)
qed

theorem pool_gpu_and_remote_not_supported_witness:
  "\<exists>p p'. PoolBuilder_build failing_os (PoolBuilder_remote_workers Pool_builder [[104, 49]]) = Inr p
     \<and> Pool_submit failing_os p (TaskBuilder_build (TaskBuilder_backend (Task_binary []) Remote)) 0
         = Some (Done (Inl NotSupported, p', 0))"
proof -
  obtain p where p: "Pool_from_config failing_os (PoolConfig_default\<lparr>pc_remote_workers := [[104, 49]]\<rparr>) = Inr p"
    by (simp add: Pool_from_config_def Let_def)
  from pool_gpu_and_remote_not_supported [OF this,
      of "TaskBuilder_build (TaskBuilder_backend (Task_binary []) Remote)" 0] p show ?thesis
    by (auto simp: PoolBuilder_build_def PoolBuilder_remote_workers_def Pool_builder_def PoolBuilder_new_def
        TaskBuilder_build_def TaskBuilder_backend_def Task_binary_def)
qed

text \<open>C28: Timeouts are enforced on what runs after the input is written. Take a binary task with timeout \<open>d\<close> whose
  process every poll sees running. If the input is written (or there is none) and the deadline, \<open>d\<close> after
  the start, is a representable instant, the call returns: the child is killed at a moment after the
  deadline and nothing else is done after that, the result is \<open>TimedOut\<close> without an exit code, its duration
  is the time from the start to after the kill and exceeds \<open>d\<close>, and the number of running tasks is back to
  what it was. If the deadline is not representable the call panics. If writing the input blocks for ever,
  the timeout has no effect and the call does not return.\<close>

theorem cpu_timeout_enforced:
  assumes "clock_laws os" and "os_spawn os b w = (Inr ch, w1)"
    and "\<forall>w. fst (os_try_wait os ch w) = StillRunning"
  shows "case feed_stdin os ch b w1 of
     None \<Rightarrow> CpuExecutor_execute_binary os e b (Some d) w = None
   | Some w2 \<Rightarrow>
       if os_now os w + d \<le> os_last_instant os
       then \<exists>r wk. CpuExecutor_execute_binary os e b (Some d) w = Some (Done (Inr r, e, os_kill os ch wk))
         \<and> os_now os w + d < os_now os wk \<and> er_state r = TimedOut \<and> er_exit_code r = None
         \<and> er_duration r = os_now os (os_kill os ch wk) - os_now os w \<and> d < er_duration r
       else CpuExecutor_execute_binary os e b (Some d) w = Some Panic"
proof (cases "feed_stdin os ch b w1")
  case None
  with assms(2) show ?thesis
    by (simp add: CpuExecutor_execute_binary_def CpuExecutor_run_binary_internal_def Let_def)
next
  case (Some w2)
  obtain wk where wk: "poll_loop os ch (TaskId_new 0) (os_now os w) (os_now os w + d) w2 =
      Some (Inr (timed_out_result (TaskId_new 0) (elapsed (os_now os (os_kill os ch wk)) (os_now os w))), os_kill os ch wk)"
    "os_now os w + d < os_now os wk"
    using poll_loop_kills [OF assms(1,3)] by blast
  have "os_now os wk \<le> os_now os (os_kill os ch wk)" by (rule clock_kill [OF assms(1)])
  with Some assms(2) wk show ?thesis
    by (auto simp: CpuExecutor_execute_binary_def CpuExecutor_run_binary_internal_def effective_timeout_def
        instant_add_def Let_def timed_out_result_def elapsed_def)
qed

text \<open>A system whose programs never exit; its world is the clock.\<close>

definition hanging_os :: "nat os" where
  "hanging_os = \<lparr>os_spawn = (\<lambda>b w. (Inr 7, w)), os_write_stdin = (\<lambda>ch data w. Some w),
     os_try_wait = (\<lambda>ch w. (StillRunning, w)), os_wait_with_output = (\<lambda>ch w. None),
     os_kill = (\<lambda>ch w. w), os_now = (\<lambda>w. w), os_sleep = (\<lambda>d w. w + d), os_last_instant = 1000,
     os_parallelism = None\<rparr>"

theorem cpu_timeout_enforced_witness:
  "\<exists>r wk. CpuExecutor_execute_binary hanging_os (CpuExecutor_new 1) (BinaryTask_new []) (Some 25) 0
      = Some (Done (Inr r, CpuExecutor_new 1, os_kill hanging_os 7 wk)) \<and> er_state r = TimedOut \<and> 25 < er_duration r"
proof -
  have "feed_stdin hanging_os 7 (BinaryTask_new []) 0 = Some 0"
    by (simp add: feed_stdin_def BinaryTask_new_def)
  moreover have "clock_laws hanging_os" by (simp add: clock_laws_def hanging_os_def)
  ultimately show ?thesis
    using cpu_timeout_enforced [of hanging_os "BinaryTask_new []" 0 7 0 "CpuExecutor_new 1" 25]
    by (auto simp: hanging_os_def)
qed

text \<open>C27: A pipeline composes its stages, on every operating system. A running CPU executor runs a prefix of
  the stages, each from the world the one before it left; with piping the first stage gets its own input
  and each later stage the output of the stage before it; all of the prefix succeed. If these are all the
  stages, the result is a success with the output of the last one (nothing if there is none). Otherwise the
  next stage decides: if it does not return or panics, so does the pipeline; its error is the pipeline's
  error; and a failed result gives a failed result with its exit code, output and error output and a text
  that names the number of the stage. No stage after it runs.\<close>

theorem pipeline_composes_stages:
  assumes "ce_running e" and "task_kind t = Pipeline p"
  shows "\<exists>outs ws. length outs \<le> length (pt_stages p) \<and> length ws = Suc (length outs) \<and> ws ! 0 = w
   \<and> (\<forall>i<length outs. ExecutionResult_is_success (outs ! i)
        \<and> CpuExecutor_execute_binary os e (stage_task p outs i) (task_timeout t) (ws ! i)
            = Some (Done (Inr (outs ! i), e, ws ! Suc i)))
   \<and> (if length outs = length (pt_stages p)
      then \<exists>x. CpuExecutor_execute_sync os e t w = Some (Done (Inr x, e, last ws)) \<and> ExecutionResult_is_success x
        \<and> er_stdout x = (if outs = [] then [] else er_stdout (last outs)) \<and> er_stderr x = []
      else case CpuExecutor_execute_binary os e (stage_task p outs (length outs)) (task_timeout t) (last ws) of
          None \<Rightarrow> CpuExecutor_execute_sync os e t w = None
        | Some Panic \<Rightarrow> CpuExecutor_execute_sync os e t w = Some Panic
        | Some (Done (Inl err, e', w')) \<Rightarrow> CpuExecutor_execute_sync os e t w = Some (Done (Inl err, e, w'))
        | Some (Done (Inr y, e', w')) \<Rightarrow> \<not> ExecutionResult_is_success y
            \<and> (\<exists>x. CpuExecutor_execute_sync os e t w = Some (Done (Inr x, e, w')) \<and> er_state x = Failed
              \<and> er_exit_code x = er_exit_code y \<and> er_stdout x = er_stdout y \<and> er_stderr x = er_stderr y
              \<and> er_error x = Some (ascii ''Pipeline stage '' @ decimal (length outs) @ ascii '' failed'')))"
proof -
  have run: "CpuExecutor_execute_sync os e t w =
      run_stages os e (pt_pipe_output p) (task_timeout t) (os_now os w) 0 (pt_stages p) (last_stdout []) w"
    using assms by (simp add: CpuExecutor_execute_sync_def last_stdout_def)
  obtain outs ws where trace: "length outs \<le> length (pt_stages p)" "stages_succeed os e p (task_timeout t) [] outs ws"
    "ws ! 0 = w"
    and res: "if length outs = length (pt_stages p)
      then CpuExecutor_execute_sync os e t w
        = Some (Done (Inr (pipeline_result (last_stdout outs) (elapsed (os_now os (last ws)) (os_now os w))), e, last ws))
      else stopped_by os e (os_now os w) (length outs)
        (CpuExecutor_execute_binary os e (stage_task p outs (length outs)) (task_timeout t) (last ws))
        (CpuExecutor_execute_sync os e t w)"
    using run_stages_trace [of "[]" p os e "task_timeout t" w "os_now os w"]
    unfolding run append_Nil list.size add_0 drop_0 by blast
  show ?thesis
  proof (intro exI conjI)
    show "length ws = Suc (length outs)" "\<forall>i<length outs. ExecutionResult_is_success (outs ! i)
        \<and> CpuExecutor_execute_binary os e (stage_task p outs i) (task_timeout t) (ws ! i)
            = Some (Done (Inr (outs ! i), e, ws ! Suc i))"
      using trace(2) by (auto simp: stages_succeed_def)
  qed (use trace(1,3) res in \<open>auto simp: pipeline_result_def last_stdout_def ExecutionResult_is_success_def
      stopped_by_def stage_failed_result_def split: option.splits exec.splits sum.splits\<close>)
qed

text \<open>A system whose programs append their name to their input; its world is the output to come.\<close>

definition echo_os :: "bytes os" where
  "echo_os = \<lparr>os_spawn = (\<lambda>b w. (Inr 0, bt_path b)), os_write_stdin = (\<lambda>ch data w. Some (data @ w)),
     os_try_wait = (\<lambda>ch w. (Exited (Some 0), w)), os_wait_with_output = (\<lambda>ch w. Some (Finished (Some 0) w [], w)),
     os_kill = (\<lambda>ch w. w), os_now = (\<lambda>_. 0), os_sleep = (\<lambda>_ w. w), os_last_instant = 1000,
     os_parallelism = None\<rparr>"

definition echo_pipeline :: Task where
  "echo_pipeline = TaskBuilder_build (TaskBuilder_add_stage (TaskBuilder_add_stage (TaskBuilder_add_stage Task_pipeline
     (BinaryTask_new [1])) (BinaryTask_new [2])) (BinaryTask_new [3]))"

theorem pipeline_composes_stages_witness:
  "\<exists>x (outs :: ExecutionResult list). CpuExecutor_execute_sync echo_os (CpuExecutor_new 1) echo_pipeline [] = Some (Done (Inr x, CpuExecutor_new 1, [1, 2, 3]))
     \<and> er_stdout x = [1, 2, 3] \<and> length outs = 3 \<and> er_stdout (last outs) = [1, 2, 3]"
proof -
  let ?p = "\<lparr>pt_stages = [BinaryTask_new [1], BinaryTask_new [2], BinaryTask_new [3]], pt_pipe_output = True\<rparr>"
  have kind: "task_kind echo_pipeline = Pipeline ?p" "task_timeout echo_pipeline = None"
    by (simp_all add: echo_pipeline_def TaskBuilder_build_def TaskBuilder_add_stage_def Task_pipeline_def TaskBuilder_new_def PipelineTask_new_def)
  have running: "ce_running (CpuExecutor_new 1)" by (simp add: CpuExecutor_new_def)
  have run: "CpuExecutor_execute_sync echo_os (CpuExecutor_new 1) echo_pipeline []
      = Some (Done (Inr (pipeline_result (Some [1, 2, 3]) 0), CpuExecutor_new 1, [1, 2, 3]))"
    by (simp add: CpuExecutor_execute_sync_def kind running CpuExecutor_execute_binary_def CpuExecutor_run_binary_internal_def
        effective_timeout_def feed_stdin_def echo_os_def BinaryTask_new_def CpuExecutor_new_def CpuExecutor_build_result_def
        status_success_def ExecutionResult_is_success_def elapsed_def Let_def)
  have "\<exists>outs :: ExecutionResult list. length outs = 3 \<and> er_stdout (last outs) = [1, 2, 3]"
    using pipeline_composes_stages [OF running kind(1), of "[]" echo_os] unfolding run
  proof (elim exE conjE, goal_cases)
    case (1 outs ws)
    from 1(5) have "length outs = 3 \<and> er_stdout (last outs) = [1, 2, 3]"
      by (cases "CpuExecutor_execute_binary echo_os (CpuExecutor_new 1) (stage_task ?p outs (length outs))
            (task_timeout echo_pipeline) (last ws)")
         (auto simp: pipeline_result_def split: if_splits exec.splits prod.splits sum.split_asm)
    then show ?case by blast
  qed
  with run show ?thesis by (auto simp: pipeline_result_def)
qed

end
