(* ===== verification/Pepita_Concurrent_Pool.thy ===== *)
theory Pepita_Concurrent_Pool
  imports Pepita_Execution Pepita_Concurrent_Scheduler Pepita_Threads
begin

text \<open>
  The pool of \<^verbatim>\<open>src/src/pool.rs\<close> under concurrent calls of \<^verbatim>\<open>submit\<close>, \<^verbatim>\<open>submit_async\<close> and \<^verbatim>\<open>shutdown\<close>.  Every access
  to the pool's atomics is a step; inside \<^verbatim>\<open>submit_async\<close> the accesses are those of the scheduler's \<^verbatim>\<open>submit\<close>
  (\<open>Pepita_Concurrent_Scheduler\<close>).  What the executors answer depends on processes and on their own state; here
  it is anything: the environment sets the answer to each task, or leaves it open while the execution is still running.

  The shared state records, beside the pool, how many submissions were counted, completed, failed and refused, the
  retries, and the tasks put into the scheduler.  The counters of the pool are these numbers modulo \<open>2 ^ 64\<close>.
\<close>

section \<open>Program points and accesses\<close>

record pool_shared =
  pl_pool :: Pool
  pl_answer :: "Task \<Rightarrow> ExecutionResult result option"
  pl_now :: instant
  pl_submitted :: nat
  pl_completed :: nat
  pl_failed :: nat
  pl_retries :: nat
  pl_refused :: nat
  pl_queued :: "Task list"

datatype pool_answer = NoAnswer | Rejected | Ran "ExecutionResult result" | Queued_as TaskId | Queue_full

datatype pool_pc =
    Finished pool_answer
  | Run_running Task
  | Run_count Task
  | Run_execute Task RetryState
  | Run_complete ExecutionResult
  | Run_retry Task RetryState
  | Run_fail "ExecutionResult result"
  | Async_running Task
  | Async_count Task
  | Async_queue "Task pc"
  | Shut_running | Shut_scheduler | Shut_executors | Shut_detector

definition set_pool :: "(Pool \<Rightarrow> Pool) \<Rightarrow> pool_shared \<Rightarrow> pool_shared" where
  "set_pool f s = s\<lparr>pl_pool := f (pl_pool s)\<rparr>"

text \<open>After an execution: complete, retry (the failure is recorded in the thread's own retry state), or fail.\<close>

definition after_execution :: "pool_shared \<Rightarrow> Task \<Rightarrow> RetryState \<Rightarrow> ExecutionResult result \<Rightarrow> pool_pc" where
  "after_execution s task rs answer =
     (let retry = RetryState_should_retry rs (pc_retry_policy (po_config (pl_pool s)));
          again = (\<lambda>error. Run_retry task (RetryState_record_failure (pl_now s) rs error))
      in case answer of
           Inr r \<Rightarrow>
             if ExecutionResult_is_success r then Run_complete r
             else if retry then again (case er_error r of None \<Rightarrow> [] | Some e \<Rightarrow> e)
             else Run_fail answer
         | Inl e \<Rightarrow>
             if KernelError_is_retriable e \<and> retry then again (ascii (KernelError_fmt e))
             else Run_fail answer)"

text \<open>One access of the scheduler's \<^verbatim>\<open>submit\<close>, and what \<^verbatim>\<open>ok_or\<close> makes of its result.\<close>

definition queue_access :: "pool_shared \<Rightarrow> Task pc \<Rightarrow> pool_shared \<times> pool_pc" where
  "queue_access s q =
     (case advance (po_scheduler (pl_pool s)) q of
        (sched, q', e) \<Rightarrow>
          (let s1 = set_pool (\<lambda>p. p\<lparr>po_scheduler := sched\<rparr>) s
           in case e of
                Pushed task \<Rightarrow> (s1\<lparr>pl_queued := pl_queued s @ [task]\<rparr>, Async_queue q')
              | Numbered i \<Rightarrow> (s1, Finished (Queued_as i))
              | Refused task \<Rightarrow> (s1\<lparr>pl_refused := pl_refused s + 1\<rparr>, Finished Queue_full)
              | _ \<Rightarrow> (s1, Async_queue q')))"

fun pool_access :: "pool_shared \<Rightarrow> pool_pc \<Rightarrow> (pool_shared \<times> pool_pc) option" where
  "pool_access s (Finished a) = None"
| "pool_access s (Run_running task) =
     Some (s, if po_running (pl_pool s) then Run_count task else Finished Rejected)"
| "pool_access s (Run_count task) =
     Some (set_pool (\<lambda>p. p\<lparr>po_tasks_submitted := po_tasks_submitted p + 1\<rparr>) s\<lparr>pl_submitted := pl_submitted s + 1\<rparr>,
       Run_execute task RetryState_new)"
| "pool_access s (Run_execute task rs) =
     (case pl_answer s task of None \<Rightarrow> None | Some answer \<Rightarrow> Some (s, after_execution s task rs answer))"
| "pool_access s (Run_complete r) =
     Some (set_pool (\<lambda>p. p\<lparr>po_tasks_completed := po_tasks_completed p + 1\<rparr>) s\<lparr>pl_completed := pl_completed s + 1\<rparr>,
       Finished (Ran (Inr r)))"
| "pool_access s (Run_retry task rs) =
     Some (set_pool (\<lambda>p. p\<lparr>po_total_retries := po_total_retries p + 1\<rparr>) s\<lparr>pl_retries := pl_retries s + 1\<rparr>,
       Run_execute (Task_increment_retry task) rs)"
| "pool_access s (Run_fail answer) =
     Some (set_pool (\<lambda>p. p\<lparr>po_tasks_failed := po_tasks_failed p + 1\<rparr>) s\<lparr>pl_failed := pl_failed s + 1\<rparr>,
       Finished (Ran answer))"
| "pool_access s (Async_running task) =
     Some (s, if po_running (pl_pool s) then Async_count task else Finished Rejected)"
| "pool_access s (Async_count task) =
     Some (set_pool (\<lambda>p. p\<lparr>po_tasks_submitted := po_tasks_submitted p + 1\<rparr>) s\<lparr>pl_submitted := pl_submitted s + 1\<rparr>,
       Async_queue (Submit_running task))"
| "pool_access s (Async_queue q) = Some (queue_access s q)"
| "pool_access s Shut_running = Some (set_pool (\<lambda>p. p\<lparr>po_running := False\<rparr>) s, Shut_scheduler)"
| "pool_access s Shut_scheduler =
     Some (set_pool (\<lambda>p. p\<lparr>po_scheduler := Scheduler_stop (po_scheduler p)\<rparr>) s, Shut_executors)"
| "pool_access s Shut_executors =
     Some (set_pool (\<lambda>p. p\<lparr>po_executors := ExecutorRegistry_shutdown (po_executors p)\<rparr>) s, Shut_detector)"
| "pool_access s Shut_detector =
     Some (set_pool (\<lambda>p. p\<lparr>po_failure_detector := FailureDetector_stop (po_failure_detector p)\<rparr>) s, Finished NoAnswer)"

fun pool_starts :: "pool_pc \<Rightarrow> bool" where
  "pool_starts (Run_running _) = True"
| "pool_starts (Async_running _) = True"
| "pool_starts Shut_running = True"
| "pool_starts _ = False"

fun pool_idle :: "pool_pc \<Rightarrow> bool" where
  "pool_idle (Finished _) = True"
| "pool_idle _ = False"

text \<open>The clock advances, and the executors' answers change.\<close>

datatype pool_event = Clock nat | Answer "Task \<Rightarrow> ExecutionResult result option"

fun pool_outside :: "pool_event \<Rightarrow> pool_shared \<Rightarrow> pool_shared" where
  "pool_outside (Clock d) s = s\<lparr>pl_now := pl_now s + d\<rparr>"
| "pool_outside (Answer f) s = s\<lparr>pl_answer := f\<rparr>"

abbreviation "pool_step \<equiv> interleave pool_access pool_idle pool_starts pool_outside"
abbreviation "pool_play \<equiv> play pool_access pool_idle pool_starts pool_outside"

definition pool_start :: "Pool \<Rightarrow> nat \<Rightarrow> pool_shared \<times> pool_pc list" where
  "pool_start p k =
     (\<lparr>pl_pool = p, pl_answer = (\<lambda>_. None), pl_now = 0, pl_submitted = 0, pl_completed = 0, pl_failed = 0,
       pl_retries = 0, pl_refused = 0, pl_queued = []\<rparr>, replicate k (Finished NoAnswer))"

section \<open>The invariant\<close>

text \<open>A submission that is counted and neither finished nor in the scheduler.\<close>

fun in_flight :: "pool_pc \<Rightarrow> bool" where
  "in_flight (Run_execute _ _) = True"
| "in_flight (Run_complete _) = True"
| "in_flight (Run_retry _ _) = True"
| "in_flight (Run_fail _) = True"
| "in_flight (Async_queue q) = (q \<noteq> Submit_number)"
| "in_flight _ = False"

text \<open>The retries a thread may still make.\<close>

fun retries_left :: "nat \<Rightarrow> pool_pc \<Rightarrow> nat" where
  "retries_left m (Run_execute _ rs) = m - unat (rs_attempts rs)"
| "retries_left m (Run_retry _ rs) = m + 1 - unat (rs_attempts rs)"
| "retries_left m _ = 0"

definition max_retries :: "pool_shared \<Rightarrow> nat" where
  "max_retries s = unat (rp_max_retries (pc_retry_policy (po_config (pl_pool s))))"

text \<open>The points of the scheduler's \<^verbatim>\<open>submit\<close>.\<close>

fun submitting :: "'a pc \<Rightarrow> bool" where
  "submitting (Submit_running _) = True"
| "submitting (Submit_lock _) = True"
| "submitting (Submit_counter _) = True"
| "submitting (Submit_active _ _) = True"
| "submitting (Submit_len _ _ _) = True"
| "submitting (Submit_push _ _) = True"
| "submitting Submit_number = True"
| "submitting _ = False"

fun pool_point_ok :: "nat \<Rightarrow> nat \<Rightarrow> pool_pc \<Rightarrow> bool" where
  "pool_point_ok n m (Run_retry _ rs) \<longleftrightarrow> 0 < unat (rs_attempts rs) \<and> unat (rs_attempts rs) \<le> m"
| "pool_point_ok n m (Run_execute _ rs) \<longleftrightarrow> unat (rs_attempts rs) \<le> m"
| "pool_point_ok n m (Async_queue q) \<longleftrightarrow> submitting q \<and> in_range n q \<and> remaining n q \<le> 2 * n + 5"
| "pool_point_ok n m _ \<longleftrightarrow> True"

abbreviation "pool_workers s \<equiv> sc_list (po_scheduler (pl_pool s))"

definition counters_ok :: "pool_shared \<Rightarrow> bool" where
  "counters_ok s \<longleftrightarrow> po_tasks_submitted (pl_pool s) = word_of_nat (pl_submitted s)
     \<and> po_tasks_completed (pl_pool s) = word_of_nat (pl_completed s)
     \<and> po_tasks_failed (pl_pool s) = word_of_nat (pl_failed s)
     \<and> po_total_retries (pl_pool s) = word_of_nat (pl_retries s)"

text \<open>The submissions that are finished or in the scheduler.\<close>

definition settled :: "pool_shared \<Rightarrow> nat" where
  "settled s = pl_completed s + pl_failed s + pl_refused s + length (pl_queued s)"

fun pool_inv :: "pool_shared \<times> pool_pc list \<Rightarrow> bool" where
  "pool_inv (s, ps) \<longleftrightarrow> counters_ok s \<and> sched_ok (po_scheduler (pl_pool s))
     \<and> mset (pl_queued s) = waiting (pool_workers s)
     \<and> (\<forall>p \<in> set ps. pool_point_ok (length (pool_workers s)) (max_retries s) p)
     \<and> settled s + at in_flight ps = pl_submitted s
     \<and> pl_retries s + sum_list (map (retries_left (max_retries s)) ps) \<le> max_retries s * pl_submitted s"

lemma is_numbering_iff: "is_numbering q \<longleftrightarrow> q = Submit_number"
  by (cases q) simp_all

lemma advance_submitting:
  "submitting q \<Longrightarrow> advance s q = (s', q', e) \<Longrightarrow>
   case e of Taken _ \<Rightarrow> False | Silent \<Rightarrow> submitting q' | Pushed _ \<Rightarrow> submitting q' | _ \<Rightarrow> q' = Idle"
  by (cases q) (auto simp: Let_def try_next_def split: if_splits list.splits prod.splits sum.splits)

text \<open>What one access does to the balance of submissions and of retries.\<close>

definition pool_effect :: "pool_shared \<Rightarrow> pool_pc \<Rightarrow> pool_shared \<Rightarrow> pool_pc \<Rightarrow> bool" where
  "pool_effect s p s' p' \<longleftrightarrow> counters_ok s' \<and> sched_ok (po_scheduler (pl_pool s'))
     \<and> mset (pl_queued s') = waiting (pool_workers s')
     \<and> length (pool_workers s') = length (pool_workers s) \<and> max_retries s' = max_retries s
     \<and> pool_point_ok (length (pool_workers s)) (max_retries s) p'
     \<and> pl_submitted s' + settled s + of_bool (in_flight p) = pl_submitted s + settled s' + of_bool (in_flight p')
     \<and> pl_retries s' + retries_left (max_retries s) p' + max_retries s * pl_submitted s
         \<le> pl_retries s + retries_left (max_retries s) p + max_retries s * pl_submitted s'"

lemma queue_effect:
  assumes ok: "counters_ok s" "sched_ok (po_scheduler (pl_pool s))" "mset (pl_queued s) = waiting (pool_workers s)"
    and q: "submitting q" "in_range (length (pool_workers s)) q" "remaining (length (pool_workers s)) q \<le> 2 * length (pool_workers s) + 5"
    and a: "queue_access s q = (s', p')"
  shows "pool_effect s (Async_queue q) s' p'"
proof -
  obtain sched q' e where adv: "advance (po_scheduler (pl_pool s)) q = (sched, q', e)" by (metis prod_cases3)
  note eff = advance_effect [OF ok(2) q(2) adv]
  note sub = advance_submitting [OF q(1) adv]
  have "q \<noteq> Idle" using q(1) by auto
  from advance_remaining [OF adv this order_refl] q(3)
  have "remaining (length (pool_workers s)) q' \<le> 2 * length (pool_workers s) + 5" by simp
  then show ?thesis
    using ok a eff sub
    by (cases e) (auto simp: queue_access_def adv Let_def pool_effect_def effect_def set_pool_def counters_ok_def
        max_retries_def settled_def is_numbering_iff)
qed

lemma retry_attempts:
  assumes "RetryState_should_retry rs pol"
  shows "unat (rs_attempts rs) < unat (rp_max_retries pol)"
    and "unat (rs_attempts (RetryState_record_failure now rs e)) = unat (rs_attempts rs) + 1"
proof -
  show l: "unat (rs_attempts rs) < unat (rp_max_retries pol)"
    using assms by (simp add: RetryState_should_retry_def RetryPolicy_should_retry_def word_less_nat_alt)
  then have "unat (rs_attempts rs) + 1 < 2 ^ 32" using unat_bound [of "rp_max_retries pol"] by simp
  then show "unat (rs_attempts (RetryState_record_failure now rs e)) = unat (rs_attempts rs) + 1"
    by (simp add: RetryState_record_failure_def unat_plus_one_small)
qed

lemma execute_effect:
  assumes "counters_ok s" "sched_ok (po_scheduler (pl_pool s))" "mset (pl_queued s) = waiting (pool_workers s)"
    and "unat (rs_attempts rs) \<le> max_retries s"
  shows "pool_effect s (Run_execute task rs) s (after_execution s task rs answer)"
  using assms retry_attempts [of rs "pc_retry_policy (po_config (pl_pool s))"]
  by (auto simp: pool_effect_def after_execution_def Let_def max_retries_def split: sum.split)

lemma pool_access_effect:
  assumes ok: "counters_ok s" "sched_ok (po_scheduler (pl_pool s))" "mset (pl_queued s) = waiting (pool_workers s)"
    and p: "pool_point_ok (length (pool_workers s)) (max_retries s) p" and a: "pool_access s p = Some (s', p')"
  shows "pool_effect s p s' p'"
proof (cases p)
  case (Async_queue q)
  then show ?thesis using queue_effect [OF ok] p a by simp
next
  case (Run_execute task rs)
  then show ?thesis using execute_effect [OF ok] p a by (auto split: option.splits)
next
  case (Run_retry task rs)
  then show ?thesis
    using ok p a by (auto simp: pool_effect_def set_pool_def counters_ok_def max_retries_def settled_def)
qed (use ok p a in \<open>auto simp: pool_effect_def set_pool_def counters_ok_def max_retries_def settled_def
      RetryState_new_def Scheduler_stop_def in_range_def split: if_splits\<close>)

lemma pool_turn_inv:
  assumes inv: "pool_inv (s, ps)" and t: "t < length ps" and a: "pool_access s (ps ! t) = Some (s', p')"
  shows "pool_inv (s', ps[t := p'])"
proof -
  let ?m = "max_retries s" and ?n = "length (pool_workers s)"
  have pts: "\<forall>p \<in> set ps. pool_point_ok ?n ?m p" using inv by simp
  then have eff: "pool_effect s (ps ! t) s' p'" using inv t a by (intro pool_access_effect) auto
  then have "\<forall>p \<in> set (ps[t := p']). pool_point_ok ?n ?m p"
    using pts by (auto simp: pool_effect_def dest!: subsetD [OF set_update_subset_insert])
  moreover have "settled s' + at in_flight (ps[t := p']) = pl_submitted s'"
    using eff inv at_update [OF t, of in_flight p'] unfolding pool_effect_def by simp
  moreover have "pl_retries s' + sum_list (map (retries_left ?m) (ps[t := p'])) \<le> ?m * pl_submitted s'"
  proof -
    have "pl_retries s' + retries_left ?m p' + ?m * pl_submitted s \<le> pl_retries s + retries_left ?m (ps ! t) + ?m * pl_submitted s'"
      using eff unfolding pool_effect_def by blast
    moreover have "pl_retries s + sum_list (map (retries_left ?m) ps) \<le> ?m * pl_submitted s" using inv by auto
    ultimately show ?thesis
      using sum_list_update_add [OF t, of "retries_left ?m" p'] by linarith
  qed
  ultimately show ?thesis using eff by (simp add: pool_effect_def)
qed

text \<open>A pool as \<^verbatim>\<open>from_config\<close> makes it.\<close>

definition fresh_pool :: "Pool \<Rightarrow> bool" where
  "fresh_pool p \<longleftrightarrow> (\<exists>n q. po_scheduler p = Scheduler_with_capacity n q) \<and> po_tasks_submitted p = 0
     \<and> po_tasks_completed p = 0 \<and> po_tasks_failed p = 0 \<and> po_total_retries p = 0"

lemma from_config_fresh: "Pool_from_config os cfg = Inr p \<Longrightarrow> fresh_pool p"
  unfolding fresh_pool_def Pool_from_config_def Let_def by fastforce

definition pool_init :: "pool_shared \<times> pool_pc list \<Rightarrow> bool" where
  "pool_init c \<longleftrightarrow> (\<exists>p k. fresh_pool p \<and> c = pool_start p k)"

interpretation concurrent_pool: thread_invariant pool_access pool_idle pool_starts pool_outside pool_init pool_inv
proof
  fix c assume "pool_init c"
  then obtain p k n q where p: "fresh_pool p" "po_scheduler p = Scheduler_with_capacity n q" and c: "c = pool_start p k"
    unfolding pool_init_def fresh_pool_def by blast
  have "run_inv (run_start (Scheduler_with_capacity n q :: Task Scheduler))"
    by (rule sched.inv_init) (rule run_init_start)
  then show "pool_inv c"
    using p by (auto simp: c pool_start_def counters_ok_def settled_def run_inv_def run_start_def fresh_pool_def
        sum_list_replicate)
next
  fix s ps t p assume "pool_inv (s, ps)" "t < length ps" "pool_idle (ps ! t)" "pool_starts p"
  moreover from this have "pool_point_ok n m p" "\<not> in_flight p" "retries_left m p = 0" "\<not> in_flight (ps ! t)"
    "retries_left m (ps ! t) = 0" for n m
    by (auto elim!: pool_starts.elims pool_idle.elims)
  ultimately show "pool_inv (s, ps[t := p])"
    using at_update [of t ps in_flight p] sum_list_update_add [of t ps "retries_left (max_retries s)" p]
    by (auto dest!: subsetD [OF set_update_subset_insert])
next
  fix s ps e assume "pool_inv (s, ps)"
  then show "pool_inv (pool_outside e s, ps)"
    by (cases e) (simp_all add: counters_ok_def max_retries_def settled_def)
qed (rule pool_turn_inv)

section \<open>Progress\<close>

text \<open>
  A submission waits for its executor; everything else proceeds by itself.  The environment of this section
  only lets executors answer: every task has an answer at all times, though not always the same.
\<close>

fun pool_answering :: "nat + (Task \<Rightarrow> ExecutionResult result) \<Rightarrow> pool_shared \<Rightarrow> pool_shared" where
  "pool_answering (Inl d) s = pool_outside (Clock d) s"
| "pool_answering (Inr f) s = pool_outside (Answer (\<lambda>task. Some (f task))) s"

definition pool_responsive :: "pool_shared \<times> pool_pc list \<Rightarrow> bool" where
  "pool_responsive c \<longleftrightarrow> pool_inv c \<and> (\<forall>task. pl_answer (fst c) task \<noteq> None)"

text \<open>The accesses a call still makes: two per retry that the policy allows, and those of the scheduler.\<close>

fun pool_remaining :: "pool_shared \<Rightarrow> pool_pc \<Rightarrow> nat" where
  "pool_remaining s (Finished _) = 0"
| "pool_remaining s (Run_running _) = 2 * max_retries s + 4"
| "pool_remaining s (Run_count _) = 2 * max_retries s + 3"
| "pool_remaining s (Run_execute _ rs) = 2 * (max_retries s - unat (rs_attempts rs)) + 2"
| "pool_remaining s (Run_retry _ rs) = 2 * (max_retries s - unat (rs_attempts rs)) + 3"
| "pool_remaining s (Run_complete _) = 1"
| "pool_remaining s (Run_fail _) = 1"
| "pool_remaining s (Async_running _) = 2 * length (pool_workers s) + 7"
| "pool_remaining s (Async_count _) = 2 * length (pool_workers s) + 6"
| "pool_remaining s (Async_queue q) = remaining (length (pool_workers s)) q"
| "pool_remaining s Shut_running = 4"
| "pool_remaining s Shut_scheduler = 3"
| "pool_remaining s Shut_executors = 2"
| "pool_remaining s Shut_detector = 1"

lemma pool_remaining_cong:
  "length (pool_workers s') = length (pool_workers s) \<Longrightarrow> max_retries s' = max_retries s \<Longrightarrow>
   pool_remaining s' = pool_remaining s"
proof
  fix p assume "length (pool_workers s') = length (pool_workers s)" "max_retries s' = max_retries s"
  then show "pool_remaining s' p = pool_remaining s p" by (cases p) simp_all
qed

lemma queue_remaining:
  assumes "submitting q" and "queue_access s q = (s', p')"
  shows "pool_remaining s p' < pool_remaining s (Async_queue q)"
proof -
  obtain sched q' e where adv: "advance (po_scheduler (pl_pool s)) q = (sched, q', e)" by (metis prod_cases3)
  have q: "q \<noteq> Idle" using assms(1) by auto
  note less = advance_remaining [OF adv q order_refl]
  show ?thesis
    using assms(2) less advance_submitting [OF assms(1) adv]
    by (cases e) (auto simp: queue_access_def adv Let_def)
qed

lemma execute_remaining:
  "pool_remaining s (after_execution s task rs answer) < pool_remaining s (Run_execute task rs)"
  using retry_attempts [of rs "pc_retry_policy (po_config (pl_pool s))"]
  by (auto simp: after_execution_def Let_def max_retries_def split: sum.split)

lemma pool_access_remaining:
  assumes p: "pool_point_ok (length (pool_workers s)) (max_retries s) p" and a: "pool_access s p = Some (s', p')"
  shows "pool_remaining s p' < pool_remaining s p"
proof (cases p)
  case (Async_queue q)
  then show ?thesis using queue_remaining p a by simp
next
  case (Run_execute task rs)
  then show ?thesis using execute_remaining p a by (auto split: option.splits)
qed (use p a in \<open>auto simp: RetryState_new_def split: if_splits\<close>)

lemma access_same_answers: "pool_access s p = Some (s', p') \<Longrightarrow> pl_answer s' = pl_answer s"
  by (cases p) (auto simp: set_pool_def queue_access_def Let_def split: option.splits prod.splits event.splits)

lemma responsive_turn:
  assumes "pool_responsive (s, ps)" and "t < length ps" and "pool_access s (ps ! t) = Some (s', p')"
  shows "pool_responsive (s', ps[t := p'])" and "pool_remaining s' = pool_remaining s"
    and "pool_remaining s p' < pool_remaining s (ps ! t)"
proof -
  have inv: "pool_inv (s, ps)" using assms(1) by (simp add: pool_responsive_def)
  have p: "pool_point_ok (length (pool_workers s)) (max_retries s) (ps ! t)" using inv assms(2) by simp
  have "pool_effect s (ps ! t) s' p'" using inv p assms(3) by (intro pool_access_effect) simp_all
  then show "pool_remaining s' = pool_remaining s" by (intro pool_remaining_cong) (simp_all add: pool_effect_def)
  show "pool_responsive (s', ps[t := p'])"
    using pool_turn_inv [OF inv assms(2,3)] access_same_answers [OF assms(3)] assms(1) by (simp add: pool_responsive_def)
  show "pool_remaining s p' < pool_remaining s (ps ! t)" using p assms(3) by (rule pool_access_remaining)
qed

lemma responsive_not_stuck:
  assumes "pool_responsive (s, ps)" and "\<exists>p \<in> set ps. \<not> pool_idle p"
  shows "\<exists>t < length ps. pool_access s (ps ! t) \<noteq> None"
proof -
  obtain t where t: "t < length ps" "\<not> pool_idle (ps ! t)" using assms(2) by (auto simp: in_set_conv_nth)
  have "pool_access s (ps ! t) \<noteq> None"
    using t(2) assms(1) by (cases "ps ! t") (auto simp: pool_responsive_def split: option.split)
  with t(1) show ?thesis by blast
qed

lemma pool_remaining_bound:
  "pool_point_ok (length (pool_workers s)) (max_retries s) p \<Longrightarrow>
   pool_remaining s p \<le> 2 * max (max_retries s) (length (pool_workers s)) + 7"
  by (cases p) auto

interpretation answering_pool: thread_progress pool_access pool_idle pool_starts pool_answering
  pool_responsive pool_responsive pool_remaining
proof
  fix s ps t p assume "pool_responsive (s, ps)" "t < length ps" "pool_idle (ps ! t)" "pool_starts p"
  then show "pool_responsive (s, ps[t := p])"
    using concurrent_pool.start_inv by (simp add: pool_responsive_def del: pool_inv.simps)
next
  fix s ps e assume "pool_responsive (s, ps)"
  then show "pool_responsive (pool_answering e s, ps)"
    using concurrent_pool.outside_inv
    by (cases e) (simp_all add: pool_responsive_def del: pool_inv.simps pool_outside.simps, simp_all)
qed (use responsive_turn responsive_not_stuck in \<open>simp_all del: pool_access.simps\<close>)

section \<open>Undisturbed asynchronous submission\<close>

text \<open>What the remaining accesses of the scheduler's \<^verbatim>\<open>submit\<close> leave behind, given the tasks they handled.\<close>

fun log_queue :: "Task event list \<Rightarrow> pool_shared \<Rightarrow> pool_shared \<times> pool_pc" where
  "log_queue (Pushed task # es) s = log_queue es (s\<lparr>pl_queued := pl_queued s @ [task]\<rparr>)"
| "log_queue (Numbered i # es) s = (s, Finished (Queued_as i))"
| "log_queue (Refused task # es) s = (s\<lparr>pl_refused := pl_refused s + 1\<rparr>, Finished Queue_full)"
| "log_queue _ s = (s, Finished NoAnswer)"

lemma alone_finished [simp]: "alone pool_access m s (Finished a) = (s, Finished a)"
  by (cases m) simp_all

lemma set_pool_scheduler:
  "po_scheduler (pl_pool (set_pool (\<lambda>p. p\<lparr>po_scheduler := sched\<rparr>) s)) = sched"
  "set_pool (\<lambda>p. p\<lparr>po_scheduler := b\<rparr>) (set_pool (\<lambda>p. p\<lparr>po_scheduler := a\<rparr>) s) = set_pool (\<lambda>p. p\<lparr>po_scheduler := b\<rparr>) s"
  "set_pool (\<lambda>p. p\<lparr>po_scheduler := b\<rparr>) (s\<lparr>pl_queued := qs\<rparr>) = (set_pool (\<lambda>p. p\<lparr>po_scheduler := b\<rparr>) s)\<lparr>pl_queued := qs\<rparr>"
  "pl_queued (set_pool f s) = pl_queued s" "pl_refused (set_pool f s) = pl_refused s"
  by (simp_all add: set_pool_def)

lemma alone_queue:
  assumes "submitting q" and "remaining (length (pool_workers s)) q \<le> m"
  shows "alone pool_access m s (Async_queue q) =
    (case finish (po_scheduler (pl_pool s)) q of
       (sched, es) \<Rightarrow> log_queue es (set_pool (\<lambda>p. p\<lparr>po_scheduler := sched\<rparr>) s))"
  using assms
proof (induction m arbitrary: s q)
  case 0
  then show ?case using remaining_0 [of _ q] by simp
next
  case (Suc m)
  obtain sched q' e where adv: "advance (po_scheduler (pl_pool s)) q = (sched, q', e)" by (metis prod_cases3)
  have q: "q \<noteq> Idle" using Suc.prems(1) by auto
  have less: "remaining (length (sc_list sched)) q' \<le> m"
    using advance_decreases [OF adv q] Suc.prems(2) by simp
  note sub = advance_submitting [OF Suc.prems(1) adv]
  show ?case
    using sub less Suc.IH [of q' "set_pool (\<lambda>p. p\<lparr>po_scheduler := sched\<rparr>) s"]
      Suc.IH [of q' "(set_pool (\<lambda>p. p\<lparr>po_scheduler := sched\<rparr>) s)\<lparr>pl_queued := pl_queued s @ [x]\<rparr>" for x]
    by (cases e) (auto simp: queue_access_def adv finish_step [OF q] Let_def set_pool_scheduler split: prod.split)
qed

section \<open>Properties\<close>

text \<open>C6: Accounting of the pool. In every state reachable from a new pool by any interleaving of the accesses
  of any number of threads that submit, submit asynchronously and shut down, whatever the executors answer:
  the submissions counted are those completed, failed, refused by the scheduler and queued in it, and those
  in progress; the counters of the pool are these numbers modulo \<open>2 ^ 64\<close>; there are at most \<open>max_retries\<close> retries
  per submission; and every task ever queued by \<^verbatim>\<open>submit_async\<close> is still waiting in the scheduler: the pool
  never executes it.\<close>

theorem pool_concurrent_accounting:
  assumes "Pool_from_config os cfg = Inr p0" and "pool_step\<^sup>*\<^sup>* (pool_start p0 k) (s, ps)"
  shows "pl_submitted s = pl_completed s + pl_failed s + pl_refused s + length (pl_queued s) + at in_flight ps
     \<and> po_tasks_submitted (pl_pool s) = word_of_nat (pl_submitted s)
     \<and> po_tasks_completed (pl_pool s) = word_of_nat (pl_completed s)
     \<and> po_tasks_failed (pl_pool s) = word_of_nat (pl_failed s)
     \<and> po_total_retries (pl_pool s) = word_of_nat (pl_retries s)
     \<and> pl_retries s \<le> max_retries s * pl_submitted s
     \<and> mset (pl_queued s) = waiting (pool_workers s)"
proof -
  have "pool_init (pool_start p0 k)" using from_config_fresh [OF assms(1)] by (auto simp: pool_init_def)
  from concurrent_pool.inv_reachable [OF this assms(2)] show ?thesis
    by (auto simp: counters_ok_def settled_def)
qed

text \<open>Two threads on a pool with one worker and room for one task: a task that fails once and then succeeds, while
  the other thread queues a task, is refused a second one, shuts the pool down and is rejected.\<close>

definition busy_config :: PoolConfig where
  "busy_config = \<lparr>pc_cpu_workers = 1, pc_enable_gpu = False, pc_remote_workers = [], pc_queue_capacity = 1,
     pc_retry_policy = \<lparr>rp_max_retries = 3, rp_initial_delay = 0, rp_max_delay = 0, rp_backoff_factor = 2,
       rp_use_jitter = False\<rparr>, pc_default_timeout = None\<rparr>"

definition busy_pool :: "FailureDetector \<Rightarrow> Pool" where
  "busy_pool d = \<lparr>po_config = busy_config, po_scheduler = Scheduler_with_capacity 1 1,
     po_executors = ExecutorRegistry_register ExecutorRegistry_new (CpuE (CpuExecutor_new 1)),
     po_failure_detector = d, po_tasks_submitted = 0, po_tasks_completed = 0, po_tasks_failed = 0,
     po_total_retries = 0, po_running = True\<rparr>"

definition busy_run :: "FailureDetector \<Rightarrow> pool_shared \<times> pool_pc list" where
  "busy_run d = fold pool_play
     ([Begin 0 (Run_running (TaskBuilder_build (Task_binary []))), Turn 0, Turn 0,
       Outside (Answer (\<lambda>_. Some (Inl WouldBlock))), Turn 0]
      @ Begin 1 (Async_running (TaskBuilder_build (Task_binary [1]))) # replicate 9 (Turn 1)
      @ [Turn 0, Outside (Answer (\<lambda>_. Some (Inr (ExecutionResult_success (TaskId 0) 5)))), Turn 0]
      @ Begin 1 (Async_running (TaskBuilder_build (Task_binary [2]))) # replicate 9 (Turn 1)
      @ Begin 1 Shut_running # replicate 4 (Turn 1)
      @ [Begin 1 (Run_running (TaskBuilder_build (Task_binary [3]))), Turn 1])
     (pool_start (busy_pool d) 2)"

lemma busy_pool_built: "Pool_from_config failing_os busy_config = Inr (busy_pool FailureDetector_new)"
  by (simp add: busy_pool_def busy_config_def Pool_from_config_def Let_def)

lemma busy_run_facts:
  "(case busy_run d of (s, ps) \<Rightarrow>
      (pl_submitted s, pl_completed s, pl_failed s, pl_refused s, pl_retries s, length (pl_queued s),
       map pool_idle ps, at in_flight ps)) = (3, 0, 0, 1, 1, 1, [False, True], 1)"
  by code_simp

theorem pool_concurrent_accounting_witness:
  "\<exists>s ps. busy_run FailureDetector_new = (s, ps) \<and> po_tasks_submitted (pl_pool s) = 3
     \<and> po_total_retries (pl_pool s) = 1 \<and> size (waiting (pool_workers s)) = 1 \<and> pl_retries s \<le> max_retries s * 3"
proof -
  obtain s ps where r: "busy_run FailureDetector_new = (s, ps)" by fastforce
  have "pool_step\<^sup>*\<^sup>* (pool_start (busy_pool FailureDetector_new) 2) (s, ps)"
    unfolding r [symmetric] busy_run_def by (rule plays_reachable)
  from pool_concurrent_accounting [OF busy_pool_built this] show ?thesis
    using busy_run_facts [of FailureDetector_new] r by (auto simp flip: size_mset)
qed

text \<open>An undisturbed asynchronous submission is atomic. The accesses of \<^verbatim>\<open>submit_async\<close>, with those of the scheduler's
  \<^verbatim>\<open>submit\<close> inside it, that no other call interrupts have exactly the effect and the answer of the method as one
  step, within \<open>2 n + 7\<close> accesses on \<open>n\<close> workers.\<close>

theorem pool_undisturbed_submit_async:
  "\<exists>s' a. alone pool_access (2 * length (pool_workers s) + 7) s (Async_running task) = (s', Finished a)
     \<and> pl_pool s' = snd (Pool_submit_async (pl_pool s) task)
     \<and> a = (case fst (Pool_submit_async (pl_pool s) task) of
              Inr i \<Rightarrow> Queued_as i | Inl e \<Rightarrow> if e = DeviceNotReady then Rejected else Queue_full)"
proof (cases "po_running (pl_pool s)")
  case True
  let ?s1 = "set_pool (\<lambda>p. p\<lparr>po_tasks_submitted := po_tasks_submitted p + 1\<rparr>) s\<lparr>pl_submitted := pl_submitted s + 1\<rparr>"
  have "alone pool_access (2 * length (pool_workers s) + 7) s (Async_running task) =
      alone pool_access (2 * length (pool_workers s) + 5) ?s1 (Async_queue (Submit_running task))"
    using True by (simp add: eval_nat_numeral)
  also have "\<dots> = (case finish (po_scheduler (pl_pool ?s1)) (Submit_running task) of
       (sched, es) \<Rightarrow> log_queue es (set_pool (\<lambda>p. p\<lparr>po_scheduler := sched\<rparr>) ?s1))"
    by (rule alone_queue) (simp_all add: set_pool_def)
  finally show ?thesis
    using True by (auto simp: finish_submit set_pool_def Pool_submit_async_def Let_def split: option.split prod.split)
qed (simp add: Pool_submit_async_def eval_nat_numeral)

text \<open>C19: Calls of the pool return. From every reachable state in which the executors answer, if no new calls start:
  whatever the order, each thread makes at most as many accesses as two for every retry the policy allows, or for every
  worker, and seven more; and the accesses end only when every call has returned. No submission, queued submission
  or shutdown ever waits for another one.\<close>

theorem pool_calls_return:
  assumes "Pool_from_config os cfg = Inr p0" and "pool_step\<^sup>*\<^sup>* (pool_start p0 k) (s, ps)"
    and "\<And>task. pl_answer s task \<noteq> None"
  shows "(\<forall>m c. (turn pool_access ^^ m) (s, ps) c \<longrightarrow>
            m \<le> (2 * max (max_retries s) (length (pool_workers s)) + 7) * length ps)
     \<and> (\<forall>c. (turn pool_access)\<^sup>*\<^sup>* (s, ps) c \<and> (\<nexists>c'. turn pool_access c c') \<longrightarrow> (\<forall>p \<in> set (snd c). pool_idle p))
     \<and> (\<exists>c. (turn pool_access)\<^sup>*\<^sup>* (s, ps) c \<and> (\<forall>p \<in> set (snd c). pool_idle p))"
proof -
  have "pool_init (pool_start p0 k)" using from_config_fresh [OF assms(1)] by (auto simp: pool_init_def)
  from concurrent_pool.inv_reachable [OF this assms(2)] have inv: "pool_responsive (s, ps)"
    using assms(3) by (simp add: pool_responsive_def)
  have "pool_remaining s p \<le> 2 * max (max_retries s) (length (pool_workers s)) + 7" if "p \<in> set ps" for p
    using inv that by (intro pool_remaining_bound) (auto simp: pool_responsive_def)
  then have "m \<le> (2 * max (max_retries s) (length (pool_workers s)) + 7) * length ps"
    if "(turn pool_access ^^ m) (s, ps) c" for m c
    using answering_pool.turns_bounded [OF that inv]
      answering_pool.all_remaining_le [where ps = ps and s = s] by (meson order_trans)
  moreover have "\<forall>p \<in> set (snd c). pool_idle p"
    if "(turn pool_access)\<^sup>*\<^sup>* (s, ps) c" "\<nexists>c'. turn pool_access c c'" for c
    using that(2) by (rule answering_pool.no_turn_idle [OF answering_pool.turns_inv [OF that(1) inv]])
  ultimately show ?thesis using answering_pool.all_return [OF inv] by blast
qed

lemma busy_run_answers: "pl_answer (fst (busy_run d)) task = Some (Inr (ExecutionResult_success (TaskId 0) 5))"
  by code_simp

theorem pool_calls_return_witness:
  "\<exists>c. (turn pool_access)\<^sup>*\<^sup>* (busy_run FailureDetector_new) c \<and> (\<forall>p \<in> set (snd c). pool_idle p)"
proof -
  obtain s ps where r: "busy_run FailureDetector_new = (s, ps)" by fastforce
  have "pool_step\<^sup>*\<^sup>* (pool_start (busy_pool FailureDetector_new) 2) (s, ps)"
    unfolding r [symmetric] busy_run_def by (rule plays_reachable)
  moreover have "pl_answer s task \<noteq> None" for task
    using busy_run_answers [of FailureDetector_new task] by (simp add: r)
  ultimately show ?thesis
    using pool_calls_return [OF busy_pool_built, of 2 s ps] unfolding r by blast
qed

end
