(* ===== verification/Pepita_Transport.thy ===== *)
theory Pepita_Transport
  imports Pepita_Task
begin

text \<open>
  The wire protocol of \<^verbatim>\<open>src/src/transport.rs\<close>: message types, the heartbeat, task-result and
  registration payloads, and the length-prefixed frame, all big-endian.  A decoder returns a result,
  or panics where it slices or indexes out of range.  A \<^verbatim>\<open>String\<close> is its UTF-8 bytes;
  \<^verbatim>\<open>String::from_utf8\<close> accepts exactly the well-formed sequences of the Unicode standard.
\<close>

section \<open>Texts and fields\<close>

definition from_utf8 :: "bytes \<Rightarrow> str result" where
  "from_utf8 bs = (if utf8_valid bs then Inr bs else Inl InvalidRequest)"

text \<open>The bytes at the offsets \<open>i\<close> to \<open>i + n - 1\<close>.\<close>

definition field :: "bytes \<Rightarrow> nat \<Rightarrow> nat \<Rightarrow> bytes" where
  "field bs i n = take n (drop i bs)"

section \<open>Message types\<close>

datatype MessageType =
    TaskSubmit | TaskResult | Heartbeat | TaskCancel | Ack | ErrorMessage | Shutdown
  | Register | Deregister | Status

fun MessageType_as_u8 :: "MessageType \<Rightarrow> u8" where
  "MessageType_as_u8 TaskSubmit = 0"
| "MessageType_as_u8 TaskResult = 1"
| "MessageType_as_u8 Heartbeat = 2"
| "MessageType_as_u8 TaskCancel = 3"
| "MessageType_as_u8 Ack = 4"
| "MessageType_as_u8 ErrorMessage = 5"
| "MessageType_as_u8 Shutdown = 6"
| "MessageType_as_u8 Register = 7"
| "MessageType_as_u8 Deregister = 8"
| "MessageType_as_u8 Status = 9"

definition MessageType_from_u8 :: "u8 \<Rightarrow> MessageType option" where
  "MessageType_from_u8 v =
     (if v = 0 then Some TaskSubmit else if v = 1 then Some TaskResult
      else if v = 2 then Some Heartbeat else if v = 3 then Some TaskCancel
      else if v = 4 then Some Ack else if v = 5 then Some ErrorMessage
      else if v = 6 then Some Shutdown else if v = 7 then Some Register
      else if v = 8 then Some Deregister else if v = 9 then Some Status else None)"

section \<open>Heartbeat payload\<close>

record HeartbeatPayload =
  hb_worker_id :: u32
  hb_timestamp :: u64
  hb_pending_tasks :: u32
  hb_cpu_load :: u8
  hb_memory_usage :: u8

text \<open>The wall clock in milliseconds is an argument.\<close>

definition HeartbeatPayload_new :: "u64 \<Rightarrow> u32 \<Rightarrow> HeartbeatPayload" where
  "HeartbeatPayload_new timestamp worker_id =
     \<lparr>hb_worker_id = worker_id, hb_timestamp = timestamp, hb_pending_tasks = 0, hb_cpu_load = 0,
      hb_memory_usage = 0\<rparr>"

definition HeartbeatPayload_with_pending_tasks :: "HeartbeatPayload \<Rightarrow> u32 \<Rightarrow> HeartbeatPayload" where
  "HeartbeatPayload_with_pending_tasks p n = p\<lparr>hb_pending_tasks := n\<rparr>"

definition HeartbeatPayload_with_cpu_load :: "HeartbeatPayload \<Rightarrow> u8 \<Rightarrow> HeartbeatPayload" where
  "HeartbeatPayload_with_cpu_load p load = p\<lparr>hb_cpu_load := (if 100 < load then 100 else load)\<rparr>"

definition HeartbeatPayload_with_memory_usage :: "HeartbeatPayload \<Rightarrow> u8 \<Rightarrow> HeartbeatPayload" where
  "HeartbeatPayload_with_memory_usage p usage = p\<lparr>hb_memory_usage := (if 100 < usage then 100 else usage)\<rparr>"

definition HeartbeatPayload_to_bytes :: "HeartbeatPayload \<Rightarrow> bytes" where
  "HeartbeatPayload_to_bytes p =
     to_be_bytes (hb_worker_id p) @ to_be_bytes (hb_timestamp p) @ to_be_bytes (hb_pending_tasks p)
     @ [hb_cpu_load p, hb_memory_usage p]"

definition HeartbeatPayload_from_bytes :: "bytes \<Rightarrow> HeartbeatPayload result" where
  "HeartbeatPayload_from_bytes bs =
     (if length bs < 18 then Inl InvalidRequest
      else Inr \<lparr>hb_worker_id = from_be_bytes (field bs 0 4), hb_timestamp = from_be_bytes (field bs 4 8),
                hb_pending_tasks = from_be_bytes (field bs 12 4), hb_cpu_load = bs ! 16,
                hb_memory_usage = bs ! 17\<rparr>)"

section \<open>Task-result payload\<close>

record TaskResultPayload =
  tr_task_id :: u64
  tr_state :: TaskState
  tr_exit_code :: "i32 option"
  tr_duration_ms :: u64
  tr_error :: "str option"

definition TaskResultPayload_new :: "TaskId \<Rightarrow> TaskState \<Rightarrow> duration \<Rightarrow> TaskResultPayload" where
  "TaskResultPayload_new i state d =
     \<lparr>tr_task_id = TaskId_as_u64 i, tr_state = state, tr_exit_code = None,
      tr_duration_ms = as_millis_u64 d, tr_error = None\<rparr>"

definition TaskResultPayload_with_exit_code :: "TaskResultPayload \<Rightarrow> i32 \<Rightarrow> TaskResultPayload" where
  "TaskResultPayload_with_exit_code p code = p\<lparr>tr_exit_code := Some code\<rparr>"

definition TaskResultPayload_with_error :: "TaskResultPayload \<Rightarrow> str \<Rightarrow> TaskResultPayload" where
  "TaskResultPayload_with_error p error = p\<lparr>tr_error := Some error\<rparr>"

fun state_byte :: "TaskState \<Rightarrow> u8" where
  "state_byte Pending = 0"
| "state_byte Queued = 1"
| "state_byte Running = 2"
| "state_byte Completed = 3"
| "state_byte Failed = 4"
| "state_byte Cancelled = 5"
| "state_byte TimedOut = 6"

definition state_of_byte :: "u8 \<Rightarrow> TaskState option" where
  "state_of_byte v =
     (if v = 0 then Some Pending else if v = 1 then Some Queued else if v = 2 then Some Running
      else if v = 3 then Some Completed else if v = 4 then Some Failed
      else if v = 5 then Some Cancelled else if v = 6 then Some TimedOut else None)"

definition TaskResultPayload_to_bytes :: "TaskResultPayload \<Rightarrow> bytes" where
  "TaskResultPayload_to_bytes p =
     to_be_bytes (tr_task_id p) @ [state_byte (tr_state p)]
     @ (case tr_exit_code p of Some code \<Rightarrow> 1 # to_be_bytes code | None \<Rightarrow> [0, 0, 0, 0, 0])
     @ to_be_bytes (tr_duration_ms p)
     @ (case tr_error p of
          Some err \<Rightarrow> to_be_bytes (word_of_nat (length err) :: u32) @ err
        | None \<Rightarrow> to_be_bytes (0 :: u32))"

text \<open>
  The four bytes \<^verbatim>\<open>bytes[22]\<close> to \<^verbatim>\<open>bytes[25]\<close> of the error length are indexed as soon as there are more
  than 22 bytes.
\<close>

definition TaskResultPayload_error :: "bytes \<Rightarrow> str option result exec" where
  "TaskResultPayload_error bs =
     (if 22 < length bs then
        exec_bind (slice bs 22 26) (\<lambda>len_bytes.
          let err_len = unat (from_be_bytes len_bytes :: u32)
          in if 0 < err_len \<and> 26 + err_len \<le> length bs
             then Done (case from_utf8 (field bs 26 err_len) of Inl e \<Rightarrow> Inl e | Inr s \<Rightarrow> Inr (Some s))
             else Done (Inr None))
      else Done (Inr None))"

definition TaskResultPayload_from_bytes :: "bytes \<Rightarrow> TaskResultPayload result exec" where
  "TaskResultPayload_from_bytes bs =
     (if length bs < 22 then Done (Inl InvalidRequest)
      else case state_of_byte (bs ! 8) of
        None \<Rightarrow> Done (Inl InvalidRequest)
      | Some state \<Rightarrow>
          exec_bind (TaskResultPayload_error bs) (\<lambda>r. case r of
            Inl e \<Rightarrow> Done (Inl e)
          | Inr error \<Rightarrow>
              Done (Inr \<lparr>tr_task_id = from_be_bytes (field bs 0 8), tr_state = state,
                         tr_exit_code = (if bs ! 9 = 1 then Some (from_be_bytes (field bs 10 4)) else None),
                         tr_duration_ms = from_be_bytes (field bs 14 8), tr_error = error\<rparr>)))"

section \<open>Registration payload\<close>

record RegisterPayload =
  rg_worker_id :: u32
  rg_backend :: Backend
  rg_num_workers :: u16
  rg_name :: str

definition RegisterPayload_new :: "u32 \<Rightarrow> Backend \<Rightarrow> u16 \<Rightarrow> RegisterPayload" where
  "RegisterPayload_new worker_id backend num_workers =
     \<lparr>rg_worker_id = worker_id, rg_backend = backend, rg_num_workers = num_workers, rg_name = []\<rparr>"

definition RegisterPayload_with_name :: "RegisterPayload \<Rightarrow> str \<Rightarrow> RegisterPayload" where
  "RegisterPayload_with_name p name = p\<lparr>rg_name := name\<rparr>"

fun backend_byte :: "Backend \<Rightarrow> u8" where
  "backend_byte Cpu = 0"
| "backend_byte Gpu = 1"
| "backend_byte Remote = 2"
| "backend_byte AnyBackend = 3"

definition backend_of_byte :: "u8 \<Rightarrow> Backend option" where
  "backend_of_byte v =
     (if v = 0 then Some Cpu else if v = 1 then Some Gpu else if v = 2 then Some Remote
      else if v = 3 then Some AnyBackend else None)"

definition RegisterPayload_to_bytes :: "RegisterPayload \<Rightarrow> bytes" where
  "RegisterPayload_to_bytes p =
     to_be_bytes (rg_worker_id p) @ [backend_byte (rg_backend p)] @ to_be_bytes (rg_num_workers p)
     @ to_be_bytes (word_of_nat (length (rg_name p)) :: u16) @ rg_name p"

definition RegisterPayload_from_bytes :: "bytes \<Rightarrow> RegisterPayload result" where
  "RegisterPayload_from_bytes bs =
     (if length bs < 9 then Inl InvalidRequest
      else case backend_of_byte (bs ! 4) of
        None \<Rightarrow> Inl InvalidRequest
      | Some backend \<Rightarrow>
          let name_len = unat (from_be_bytes (field bs 7 2) :: u16);
              name = (if 0 < name_len \<and> 9 + name_len \<le> length bs
                      then from_utf8 (field bs 9 name_len) else Inr [])
          in case name of
               Inl e \<Rightarrow> Inl e
             | Inr n \<Rightarrow> Inr \<lparr>rg_worker_id = from_be_bytes (field bs 0 4), rg_backend = backend,
                             rg_num_workers = from_be_bytes (field bs 5 2), rg_name = n\<rparr>)"

section \<open>Messages\<close>

record Message =
  msg_type :: MessageType
  msg_payload :: bytes

definition Message_new :: "MessageType \<Rightarrow> bytes \<Rightarrow> Message" where
  "Message_new t payload = \<lparr>msg_type = t, msg_payload = payload\<rparr>"

definition Message_heartbeat :: "u64 \<Rightarrow> u32 \<Rightarrow> Message" where
  "Message_heartbeat timestamp worker_id =
     Message_new Heartbeat (HeartbeatPayload_to_bytes (HeartbeatPayload_new timestamp worker_id))"

definition Message_heartbeat_full :: "HeartbeatPayload \<Rightarrow> Message" where
  "Message_heartbeat_full payload = Message_new Heartbeat (HeartbeatPayload_to_bytes payload)"

definition Message_task_result :: "TaskResultPayload \<Rightarrow> Message" where
  "Message_task_result payload = Message_new TaskResult (TaskResultPayload_to_bytes payload)"

definition Message_register :: "RegisterPayload \<Rightarrow> Message" where
  "Message_register payload = Message_new Register (RegisterPayload_to_bytes payload)"

definition Message_ack :: Message where
  "Message_ack = Message_new Ack []"

definition Message_error :: "str \<Rightarrow> Message" where
  "Message_error message = Message_new ErrorMessage message"

definition Message_shutdown :: Message where
  "Message_shutdown = Message_new Shutdown []"

definition Message_task_cancel :: "TaskId \<Rightarrow> Message" where
  "Message_task_cancel i = Message_new TaskCancel (to_be_bytes (TaskId_as_u64 i))"

definition Message_message_type :: "Message \<Rightarrow> MessageType" where
  "Message_message_type m = msg_type m"

definition Message_payload :: "Message \<Rightarrow> bytes" where
  "Message_payload m = msg_payload m"

definition Message_as_heartbeat :: "Message \<Rightarrow> HeartbeatPayload result" where
  "Message_as_heartbeat m =
     (if msg_type m \<noteq> Heartbeat then Inl InvalidRequest else HeartbeatPayload_from_bytes (msg_payload m))"

definition Message_as_task_result :: "Message \<Rightarrow> TaskResultPayload result exec" where
  "Message_as_task_result m =
     (if msg_type m \<noteq> TaskResult then Done (Inl InvalidRequest)
      else TaskResultPayload_from_bytes (msg_payload m))"

definition Message_as_register :: "Message \<Rightarrow> RegisterPayload result" where
  "Message_as_register m =
     (if msg_type m \<noteq> Register then Inl InvalidRequest else RegisterPayload_from_bytes (msg_payload m))"

definition Message_as_error :: "Message \<Rightarrow> str option" where
  "Message_as_error m =
     (if msg_type m \<noteq> ErrorMessage then None
      else if utf8_valid (msg_payload m) then Some (msg_payload m) else None)"

definition Message_to_bytes :: "Message \<Rightarrow> bytes" where
  "Message_to_bytes m =
     (let payload_len = (word_of_nat (length (msg_payload m)) :: u32);
          total_len = 1 + payload_len
      in to_be_bytes total_len @ [MessageType_as_u8 (msg_type m)] @ msg_payload m)"

definition Message_from_bytes :: "bytes \<Rightarrow> Message result exec" where
  "Message_from_bytes bs =
     (if length bs < 5 then Done (Inl InvalidRequest)
      else let total_len = unat (from_be_bytes (field bs 0 4) :: u32)
        in if length bs < 4 + total_len then Done (Inl InvalidRequest)
           else case MessageType_from_u8 (bs ! 4) of
             None \<Rightarrow> Done (Inl InvalidRequest)
           | Some t \<Rightarrow>
               exec_bind (slice bs 5 (4 + total_len)) (\<lambda>payload.
                 Done (Inr \<lparr>msg_type = t, msg_payload = payload\<rparr>)))"

definition Message_size :: "Message \<Rightarrow> nat" where
  "Message_size m = 4 + 1 + length (msg_payload m)"

end
