(* ===== verification/Pepita_Wire.thy ===== *)
theory Pepita_Wire
  imports Pepita_Transport
begin

text \<open>
  Correctness of the wire protocol: the interface \<open>wire_payload\<close> states what a payload codec promises,
  it is interpreted on the three payloads, and the frame around them is shown to be self-delimiting.
  The inputs on which a decoder panics are characterised exactly.
\<close>

section \<open>Fields of an encoded record\<close>

lemma field_length [simp]: "i + n \<le> length bs \<Longrightarrow> length (field bs i n) = n"
  by (simp add: field_def)

lemma field_head [codec_simps]: "length a = n \<Longrightarrow> field (a @ rest) 0 n = a"
  by (simp add: field_def)

lemma field_skip [codec_simps]: "length a \<le> i \<Longrightarrow> field (a @ rest) i n = field rest (i - length a) n"
  by (simp add: field_def)

lemma field_Cons [codec_simps]: "0 < i \<Longrightarrow> field (b # rest) i n = field rest (i - 1) n"
  by (cases i) (simp_all add: field_def)

lemma field_all [codec_simps]: "length a = n \<Longrightarrow> field a 0 n = a"
  by (simp add: field_def)

lemma nth_skip [codec_simps]: "length a \<le> i \<Longrightarrow> (a @ rest) ! i = rest ! (i - length a)"
  by (simp add: nth_append)

lemma message_type_roundtrip [simp]: "MessageType_from_u8 (MessageType_as_u8 t) = Some t"
  by (cases t) (simp_all add: MessageType_from_u8_def)

lemma state_roundtrip [simp]: "state_of_byte (state_byte s) = Some s"
  by (cases s) (simp_all add: state_of_byte_def)

lemma backend_roundtrip [simp]: "backend_of_byte (backend_byte b) = Some b"
  by (cases b) (simp_all add: backend_of_byte_def)

section \<open>The frame\<close>

lemma frame_roundtrip:
  assumes "length (msg_payload m) + 1 < 2 ^ 32"
  shows "Message_from_bytes (Message_to_bytes m @ rest) = Done (Inr m)"
proof -
  let ?l = "1 + (word_of_nat (length (msg_payload m)) :: u32)"
  have l: "unat ?l = length (msg_payload m) + 1"
    using assms by (simp add: unat_word_ariths unat_of_nat)
  have "slice (to_be_bytes ?l @ [MessageType_as_u8 (msg_type m)] @ msg_payload m @ rest) 5 (4 + unat ?l)
      = Done (msg_payload m)"
    by (subst slice_Done) (simp_all only: l, simp_all)
  then show ?thesis
    by (simp add: Message_from_bytes_def Message_to_bytes_def Let_def codec_simps l)
qed

section \<open>Payloads\<close>

text \<open>
  A payload of a message type: \<open>encode\<close> and \<open>decode\<close> are its codec, \<open>wrap\<close> puts it into a message and
  \<open>unwrap\<close> takes it out; \<open>valid\<close> payloads survive the round trip.
\<close>

locale wire_payload =
  fixes tag :: MessageType
    and encode :: "'p \<Rightarrow> bytes"
    and decode :: "bytes \<Rightarrow> 'p result exec"
    and wrap :: "'p \<Rightarrow> Message"
    and unwrap :: "Message \<Rightarrow> 'p result exec"
    and valid :: "'p \<Rightarrow> bool"
  assumes wrap_encode: "wrap p = \<lparr>msg_type = tag, msg_payload = encode p\<rparr>"
    and unwrap_decode: "unwrap m = (if msg_type m = tag then decode (msg_payload m) else Done (Inl InvalidRequest))"
    and decode_encode: "valid p \<Longrightarrow> decode (encode p) = Done (Inr p)"
begin

lemma end_to_end:
  assumes "valid p" and "length (encode p) + 1 < 2 ^ 32"
  shows "exec_bind (Message_from_bytes (Message_to_bytes (wrap p) @ rest))
    (\<lambda>r. case r of Inl e \<Rightarrow> Done (Inl e) | Inr m \<Rightarrow> unwrap m) = Done (Inr p)"
  using frame_roundtrip [of "wrap p" rest] assms by (simp add: wrap_encode unwrap_decode decode_encode)

lemma other_type: "msg_type m \<noteq> tag \<Longrightarrow> unwrap m = Done (Inl InvalidRequest)"
  by (simp add: unwrap_decode)

lemma encode_inj: "valid p \<Longrightarrow> valid q \<Longrightarrow> encode p = encode q \<Longrightarrow> p = q"
  by (metis decode_encode exec.inject sum.inject(2))

end

definition task_result_valid :: "TaskResultPayload \<Rightarrow> bool" where
  "task_result_valid p \<longleftrightarrow>
     (case tr_error p of None \<Rightarrow> True | Some e \<Rightarrow> e \<noteq> [] \<and> utf8_valid e \<and> length e < 2 ^ 32)"

definition register_valid :: "RegisterPayload \<Rightarrow> bool" where
  "register_valid p \<longleftrightarrow> utf8_valid (rg_name p) \<and> length (rg_name p) < 2 ^ 16"

lemma heartbeat_roundtrip: "HeartbeatPayload_from_bytes (HeartbeatPayload_to_bytes p) = Inr p"
  by (simp add: HeartbeatPayload_from_bytes_def HeartbeatPayload_to_bytes_def codec_simps)

lemma register_roundtrip:
  "register_valid p \<Longrightarrow> RegisterPayload_from_bytes (RegisterPayload_to_bytes p) = Inr p"
  by (cases "rg_name p = []")
     (simp_all add: RegisterPayload_from_bytes_def RegisterPayload_to_bytes_def register_valid_def
        codec_simps unat_of_nat from_utf8_def)

text \<open>The part of a task result before the error has 22 bytes.\<close>

definition task_result_head :: "TaskResultPayload \<Rightarrow> bytes" where
  "task_result_head p = to_be_bytes (tr_task_id p) @ [state_byte (tr_state p)]
     @ (case tr_exit_code p of Some code \<Rightarrow> 1 # to_be_bytes code | None \<Rightarrow> [0, 0, 0, 0, 0])
     @ to_be_bytes (tr_duration_ms p)"

lemma length_task_result_head [simp]: "length (task_result_head p) = 22"
  by (simp add: task_result_head_def split: option.splits)

lemma task_result_to_bytes_split:
  "TaskResultPayload_to_bytes p = task_result_head p
     @ to_be_bytes (word_of_nat (length (case tr_error p of None \<Rightarrow> [] | Some e \<Rightarrow> e)) :: u32)
     @ (case tr_error p of None \<Rightarrow> [] | Some e \<Rightarrow> e)"
  by (simp add: TaskResultPayload_to_bytes_def task_result_head_def split: option.splits)

lemma task_result_head_fields:
  "(task_result_head p @ rest) ! 8 = state_byte (tr_state p)"
  "(task_result_head p @ rest) ! 9 = (if tr_exit_code p = None then 0 else 1)"
  "field (task_result_head p @ rest) 0 8 = to_be_bytes (tr_task_id p)"
  "field (task_result_head p @ rest) 14 8 = to_be_bytes (tr_duration_ms p)"
  "tr_exit_code p = Some code \<Longrightarrow> field (task_result_head p @ rest) 10 4 = to_be_bytes code"
  by (simp_all add: task_result_head_def codec_simps split: option.splits)

lemma task_result_error_none:
  "TaskResultPayload_error (task_result_head p @ to_be_bytes (0 :: u32)) = Done (Inr None)"
  by (simp add: TaskResultPayload_error_def slice_def Let_def)

lemma task_result_error_some:
  assumes "e \<noteq> []" and "utf8_valid e" and "length e < 2 ^ 32"
  shows "TaskResultPayload_error (task_result_head p @ to_be_bytes (word_of_nat (length e) :: u32) @ e)
    = Done (Inr (Some e))"
  using assms by (simp add: TaskResultPayload_error_def slice_def Let_def codec_simps unat_of_nat from_utf8_def)

lemma task_result_roundtrip:
  assumes "task_result_valid p"
  shows "TaskResultPayload_from_bytes (TaskResultPayload_to_bytes p) = Done (Inr p)"
proof -
  have "TaskResultPayload_error (TaskResultPayload_to_bytes p) = Done (Inr (tr_error p))"
    using assms task_result_error_none task_result_error_some
    by (cases "tr_error p") (auto simp: task_result_to_bytes_split task_result_valid_def)
  then show ?thesis
    by (cases "tr_exit_code p")
       (simp_all add: TaskResultPayload_from_bytes_def task_result_to_bytes_split task_result_head_fields)
qed

interpretation heartbeat_wire: wire_payload Heartbeat HeartbeatPayload_to_bytes
  "\<lambda>bs. Done (HeartbeatPayload_from_bytes bs)" Message_heartbeat_full
  "\<lambda>m. Done (Message_as_heartbeat m)" "\<lambda>_. True"
  by unfold_locales (simp_all add: Message_heartbeat_full_def Message_new_def Message_as_heartbeat_def
      heartbeat_roundtrip)

interpretation task_result_wire: wire_payload TaskResult TaskResultPayload_to_bytes
  TaskResultPayload_from_bytes Message_task_result Message_as_task_result task_result_valid
  by unfold_locales (simp_all add: Message_task_result_def Message_new_def Message_as_task_result_def
      task_result_roundtrip)

interpretation register_wire: wire_payload Register RegisterPayload_to_bytes
  "\<lambda>bs. Done (RegisterPayload_from_bytes bs)" Message_register
  "\<lambda>m. Done (Message_as_register m)" register_valid
  by unfold_locales (simp_all add: Message_register_def Message_new_def Message_as_register_def
      register_roundtrip)

section \<open>Properties\<close>

text \<open>C13: Framing. A message whose payload is shorter than \<open>2 ^ 32 - 1\<close> bytes is decoded exactly from its
  encoding followed by any further bytes, so frames can be read one after the other from a stream; its
  size is the one the message reports, and every proper prefix of the encoding is rejected with
  \<open>InvalidRequest\<close>.\<close>

theorem message_frame_roundtrip:
  assumes "length (msg_payload m) + 1 < 2 ^ 32"
  shows "Message_from_bytes (Message_to_bytes m @ rest) = Done (Inr m)
     \<and> length (Message_to_bytes m) = Message_size m
     \<and> (n < Message_size m \<longrightarrow> Message_from_bytes (take n (Message_to_bytes m)) = Done (Inl InvalidRequest))"
proof (intro conjI impI)
  let ?l = "1 + (word_of_nat (length (msg_payload m)) :: u32)"
  assume n: "n < Message_size m"
  have l: "unat ?l = length (msg_payload m) + 1"
    using assms by (simp add: unat_word_ariths unat_of_nat)
  show "Message_from_bytes (take n (Message_to_bytes m)) = Done (Inl InvalidRequest)"
  proof (cases "n < 5")
    case False
    then have "field (take n (Message_to_bytes m)) 0 4 = to_be_bytes ?l"
      by (simp add: Message_to_bytes_def field_def Let_def min_def)
    moreover have "length (take n (Message_to_bytes m)) = n"
      using n by (simp add: Message_to_bytes_def Message_size_def Let_def)
    ultimately show ?thesis
      using n l False by (simp add: Message_from_bytes_def Let_def Message_size_def)
  qed (simp add: Message_from_bytes_def min_def)
qed (use frame_roundtrip [OF assms] in \<open>simp_all add: Message_to_bytes_def Message_size_def Let_def\<close>)

theorem message_frame_roundtrip_witness:
  "Message_from_bytes (Message_to_bytes (Message_task_cancel (TaskId 258)) @ [1, 2, 3])
     = Done (Inr (Message_task_cancel (TaskId 258)))"
  using message_frame_roundtrip [of "Message_task_cancel (TaskId 258)" "[1, 2, 3]" 0]
  by (simp add: Message_task_cancel_def Message_new_def)

text \<open>C8: End to end. A heartbeat, a task result with a non-empty error text (or none) and a registration
  with a name shorter than \<open>2 ^ 16\<close> bytes arrive unchanged when wrapped into a message, encoded, decoded
  and unwrapped, whatever follows them in the stream.\<close>

theorem wire_end_to_end:
  assumes "task_result_valid p" and "length (TaskResultPayload_to_bytes p) + 1 < 2 ^ 32" and "register_valid q"
  shows "exec_bind (Message_from_bytes (Message_to_bytes (Message_heartbeat_full h) @ rest))
       (\<lambda>r. case r of Inl e \<Rightarrow> Done (Inl e) | Inr m \<Rightarrow> Done (Message_as_heartbeat m)) = Done (Inr h)
     \<and> exec_bind (Message_from_bytes (Message_to_bytes (Message_task_result p) @ rest))
       (\<lambda>r. case r of Inl e \<Rightarrow> Done (Inl e) | Inr m \<Rightarrow> Message_as_task_result m) = Done (Inr p)
     \<and> exec_bind (Message_from_bytes (Message_to_bytes (Message_register q) @ rest))
       (\<lambda>r. case r of Inl e \<Rightarrow> Done (Inl e) | Inr m \<Rightarrow> Done (Message_as_register m)) = Done (Inr q)"
  using heartbeat_wire.end_to_end [of h rest] task_result_wire.end_to_end [OF assms(1,2)]
    register_wire.end_to_end [OF assms(3)] assms(3)
  by (simp add: HeartbeatPayload_to_bytes_def RegisterPayload_to_bytes_def register_valid_def)

definition sample_result :: TaskResultPayload where
  "sample_result = TaskResultPayload_with_error
     (TaskResultPayload_with_exit_code (TaskResultPayload_new (TaskId 42) Failed 5000000) 7) [111, 111, 112, 115]"

definition sample_register :: RegisterPayload where
  "sample_register = RegisterPayload_with_name (RegisterPayload_new 3 Gpu 8) [104, 105]"

theorem wire_end_to_end_witness:
  "exec_bind (Message_from_bytes (Message_to_bytes (Message_task_result sample_result) @ [9]))
     (\<lambda>r. case r of Inl e \<Rightarrow> Done (Inl e) | Inr m \<Rightarrow> Message_as_task_result m) = Done (Inr sample_result)"
proof -
  have "task_result_valid sample_result" "length (TaskResultPayload_to_bytes sample_result) + 1 < 2 ^ 32"
    by (simp_all add: task_result_valid_def sample_result_def TaskResultPayload_with_error_def
        TaskResultPayload_with_exit_code_def TaskResultPayload_new_def TaskResultPayload_to_bytes_def)
  moreover have "register_valid sample_register"
    by (simp add: register_valid_def sample_register_def RegisterPayload_with_name_def RegisterPayload_new_def)
  ultimately show ?thesis using wire_end_to_end by blast
qed

text \<open>The frame decoder panics on exactly these inputs: at least five bytes whose length field is zero
  and whose type byte is a message type. It slices the payload from offset 5 to offset 4.\<close>

lemma message_from_bytes_panics_iff:
  "Message_from_bytes bs = Panic \<longleftrightarrow>
     5 \<le> length bs \<and> (from_be_bytes (field bs 0 4) :: u32) = 0 \<and> MessageType_from_u8 (bs ! 4) \<noteq> None"
proof -
  have "slice bs 5 (4 + unat l) = Panic \<longleftrightarrow> l = 0" if "4 + unat l \<le> length bs" for l :: u32
    using that by (auto simp: slice_def word_unat_eq_iff)
  moreover have "exec_bind x (\<lambda>p. Done (f p)) = Panic \<longleftrightarrow> x = Panic" for x :: "bytes exec" and f :: "bytes \<Rightarrow> Message result"
    by (cases x) auto
  ultimately show ?thesis
    by (auto simp: Message_from_bytes_def Let_def not_less split: option.splits)
qed

text \<open>The task-result decoder panics on exactly the inputs of 23, 24 or 25 bytes with a valid state byte:
  it then reads the four bytes of the error length although they are not all there.\<close>

lemma task_result_from_bytes_panics_iff:
  "TaskResultPayload_from_bytes bs = Panic \<longleftrightarrow>
     22 < length bs \<and> length bs < 26 \<and> state_of_byte (bs ! 8) \<noteq> None"
proof -
  have "TaskResultPayload_error bs = Panic \<longleftrightarrow> 22 < length bs \<and> length bs < 26"
    by (auto simp: TaskResultPayload_error_def slice_def Let_def)
  moreover have "exec_bind x (\<lambda>r. case r of Inl e \<Rightarrow> Done (Inl e) | Inr v \<Rightarrow> Done (Inr (f v))) = Panic \<longleftrightarrow> x = Panic"
    for x :: "str option result exec" and f :: "str option \<Rightarrow> TaskResultPayload"
    by (cases x) (auto split: sum.splits)
  ultimately show ?thesis
    by (auto simp: TaskResultPayload_from_bytes_def split: option.splits)
qed

text \<open>What a registration decodes to, for every name: the name cut to its length modulo \<open>2 ^ 16\<close> (the
  width of the length field), or an error if the cut falls inside a character. In particular a name of
  \<open>2 ^ 16\<close> bytes or more arrives truncated, without an error being reported by the encoder.\<close>

lemma register_name_cut:
  "RegisterPayload_from_bytes (RegisterPayload_to_bytes p) =
     (let name = take (length (rg_name p) mod 2 ^ 16) (rg_name p)
      in if utf8_valid name then Inr (p\<lparr>rg_name := name\<rparr>) else Inl InvalidRequest)"
proof -
  let ?n = "length (rg_name p) mod 65536"
  have "?n \<le> length (rg_name p)" by simp
  then show ?thesis
    by (cases "?n = 0")
       (simp_all add: RegisterPayload_from_bytes_def RegisterPayload_to_bytes_def Let_def codec_simps
          unat_of_nat from_utf8_def field_def)
qed

text \<open>What a task result's error text decodes to, for every text: the text cut to its length modulo
  \<open>2 ^ 32\<close>, or \<open>InvalidRequest\<close> if the cut falls inside a character, and no error text at all when that
  length is zero: an empty error text is indistinguishable from none.\<close>

lemma task_result_error_cut:
  "TaskResultPayload_from_bytes (TaskResultPayload_to_bytes p) =
     Done (let e = (case tr_error p of None \<Rightarrow> [] | Some e \<Rightarrow> take (length e mod 2 ^ 32) e)
           in if e = [] then Inr (p\<lparr>tr_error := None\<rparr>)
              else if utf8_valid e then Inr (p\<lparr>tr_error := Some e\<rparr>) else Inl InvalidRequest)"
proof -
  let ?e = "case tr_error p of None \<Rightarrow> [] | Some e \<Rightarrow> e"
  let ?n = "length ?e mod 4294967296"
  have "?n \<le> length ?e" by simp
  then have "TaskResultPayload_error (TaskResultPayload_to_bytes p) =
      Done (if ?n = 0 then Inr None else case from_utf8 (take ?n ?e) of Inl x \<Rightarrow> Inl x | Inr s \<Rightarrow> Inr (Some s))"
    by (auto simp: TaskResultPayload_error_def task_result_to_bytes_split slice_def Let_def codec_simps
        unat_of_nat field_def)
  then show ?thesis
    by (cases "tr_exit_code p"; cases "tr_error p")
       (auto simp: TaskResultPayload_from_bytes_def task_result_to_bytes_split task_result_head_fields
          from_utf8_def Let_def)
qed

text \<open>C36: which inputs make the decoders panic. The frame decoder panics on exactly the inputs of at least
  five bytes whose length field is zero and whose type byte is a message type (it slices the payload
  from offset 5 to offset 4); the task-result decoder on exactly the inputs of 23, 24 or 25 bytes with
  a valid state byte (it reads the four bytes of the error length although they are not all there).\<close>

theorem decoders_panic_iff:
  "(Message_from_bytes bs = Panic \<longleftrightarrow>
      5 \<le> length bs \<and> (from_be_bytes (field bs 0 4) :: u32) = 0 \<and> MessageType_from_u8 (bs ! 4) \<noteq> None)
   \<and> (TaskResultPayload_from_bytes bs = Panic \<longleftrightarrow>
      22 < length bs \<and> length bs < 26 \<and> state_of_byte (bs ! 8) \<noteq> None)"
  by (intro conjI message_from_bytes_panics_iff task_result_from_bytes_panics_iff)

text \<open>C37: what texts of any length arrive as. A registration decodes to the name cut to its length modulo
  \<open>2 ^ 16\<close>, a task result to the error text cut to its length modulo \<open>2 ^ 32\<close>, or to an error when the
  cut falls inside a character; the encoders report nothing. An empty error text arrives as none.\<close>

theorem payload_texts_cut:
  "RegisterPayload_from_bytes (RegisterPayload_to_bytes q) =
     (let name = take (length (rg_name q) mod 2 ^ 16) (rg_name q)
      in if utf8_valid name then Inr (q\<lparr>rg_name := name\<rparr>) else Inl InvalidRequest)
   \<and> TaskResultPayload_from_bytes (TaskResultPayload_to_bytes p) =
     Done (let e = (case tr_error p of None \<Rightarrow> [] | Some e \<Rightarrow> take (length e mod 2 ^ 32) e)
           in if e = [] then Inr (p\<lparr>tr_error := None\<rparr>)
              else if utf8_valid e then Inr (p\<lparr>tr_error := Some e\<rparr>) else Inl InvalidRequest)"
  by (intro conjI register_name_cut task_result_error_cut)

end
