(* ===== verification/Pepita_Virtio.thy ===== *)
theory Pepita_Virtio
  imports Pepita_Error Pepita_Text "HOL-Library.AList"
begin

text \<open>
  Virtio devices: \<^verbatim>\<open>src/src/virtio.rs\<close>.  Virtqueues with their pending descriptors, vsock addresses,
  packet headers, connections and the vsock device, and the in-memory block device.  Offsets are
  computed in 64-bit words, where they wrap; slicing and copying out of range panics.
\<close>

definition DEVICE_TYPE_NET :: u32 where
  "DEVICE_TYPE_NET = 1"

definition DEVICE_TYPE_BLK :: u32 where
  "DEVICE_TYPE_BLK = 2"

definition DEVICE_TYPE_CONSOLE :: u32 where
  "DEVICE_TYPE_CONSOLE = 3"

definition DEVICE_TYPE_RNG :: u32 where
  "DEVICE_TYPE_RNG = 4"

definition DEVICE_TYPE_BALLOON :: u32 where
  "DEVICE_TYPE_BALLOON = 5"

definition DEVICE_TYPE_SCSI :: u32 where
  "DEVICE_TYPE_SCSI = 8"

definition DEVICE_TYPE_P9 :: u32 where
  "DEVICE_TYPE_P9 = 9"

definition DEVICE_TYPE_GPU :: u32 where
  "DEVICE_TYPE_GPU = 16"

definition DEVICE_TYPE_INPUT :: u32 where
  "DEVICE_TYPE_INPUT = 18"

definition DEVICE_TYPE_VSOCK :: u32 where
  "DEVICE_TYPE_VSOCK = 19"

definition DEVICE_TYPE_CRYPTO :: u32 where
  "DEVICE_TYPE_CRYPTO = 20"

definition DEVICE_TYPE_FS :: u32 where
  "DEVICE_TYPE_FS = 26"

definition STATUS_ACKNOWLEDGE :: u8 where
  "STATUS_ACKNOWLEDGE = 1"

definition STATUS_DRIVER :: u8 where
  "STATUS_DRIVER = 2"

definition STATUS_DRIVER_OK :: u8 where
  "STATUS_DRIVER_OK = 4"

definition STATUS_FEATURES_OK :: u8 where
  "STATUS_FEATURES_OK = 8"

definition STATUS_DEVICE_NEEDS_RESET :: u8 where
  "STATUS_DEVICE_NEEDS_RESET = 64"

definition STATUS_FAILED :: u8 where
  "STATUS_FAILED = 128"

definition RING_AVAIL_NO_INTERRUPT :: u16 where
  "RING_AVAIL_NO_INTERRUPT = 1"

definition RING_USED_NO_NOTIFY :: u16 where
  "RING_USED_NO_NOTIFY = 1"

definition DEFAULT_QUEUE_SIZE :: u16 where
  "DEFAULT_QUEUE_SIZE = 256"

definition MAX_QUEUE_SIZE :: u16 where
  "MAX_QUEUE_SIZE = 32768"

section \<open>Descriptors and virtqueues\<close>

record VirtqDesc =
  vd_addr :: u64
  vd_len :: u32
  vd_flags :: u16
  vd_next :: u16

definition VirtqDesc_F_NEXT :: u16 where
  "VirtqDesc_F_NEXT = 1"

definition VirtqDesc_F_WRITE :: u16 where
  "VirtqDesc_F_WRITE = 2"

definition VirtqDesc_F_INDIRECT :: u16 where
  "VirtqDesc_F_INDIRECT = 4"

definition VirtqDesc_new :: "u64 \<Rightarrow> u32 \<Rightarrow> u16 \<Rightarrow> u16 \<Rightarrow> VirtqDesc" where
  "VirtqDesc_new addr len flags nxt = \<lparr>vd_addr = addr, vd_len = len, vd_flags = flags, vd_next = nxt\<rparr>"

definition VirtqDesc_has_next :: "VirtqDesc \<Rightarrow> bool" where
  "VirtqDesc_has_next d \<longleftrightarrow> vd_flags d AND VirtqDesc_F_NEXT \<noteq> 0"

definition VirtqDesc_is_write_only :: "VirtqDesc \<Rightarrow> bool" where
  "VirtqDesc_is_write_only d \<longleftrightarrow> vd_flags d AND VirtqDesc_F_WRITE \<noteq> 0"

definition VirtqDesc_is_indirect :: "VirtqDesc \<Rightarrow> bool" where
  "VirtqDesc_is_indirect d \<longleftrightarrow> vd_flags d AND VirtqDesc_F_INDIRECT \<noteq> 0"

text \<open>The rings shared with the driver; their entries follow the struct and are not part of it.\<close>

record VirtqAvail =
  avail_flags :: u16
  avail_idx :: u16
  avail_ring :: "u16 list"

record VirtqUsedElem =
  used_elem_id :: u32
  used_elem_len :: u32

record VirtqUsed =
  used_flags :: u16
  used_idx :: u16
  used_ring :: "VirtqUsedElem list"

definition VirtqAvail_default :: VirtqAvail where
  "VirtqAvail_default = \<lparr>avail_flags = 0, avail_idx = 0, avail_ring = []\<rparr>"

definition VirtqUsedElem_default :: VirtqUsedElem where
  "VirtqUsedElem_default = \<lparr>used_elem_id = 0, used_elem_len = 0\<rparr>"

definition VirtqUsed_default :: VirtqUsed where
  "VirtqUsed_default = \<lparr>used_flags = 0, used_idx = 0, used_ring = []\<rparr>"

record VirtQueueConfig =
  vq_size :: u16
  vq_desc_addr :: u64
  vq_avail_addr :: u64
  vq_used_addr :: u64

definition VirtQueueConfig_default :: VirtQueueConfig where
  "VirtQueueConfig_default =
     \<lparr>vq_size = DEFAULT_QUEUE_SIZE, vq_desc_addr = 0, vq_avail_addr = 0, vq_used_addr = 0\<rparr>"

record VirtQueue =
  vq_config :: VirtQueueConfig
  vq_ready :: bool
  vq_last_avail_idx :: u64
  vq_last_used_idx :: u64
  vq_pending :: "u16 list lock"

definition VirtQueue_new :: "VirtQueueConfig \<Rightarrow> VirtQueue" where
  "VirtQueue_new config =
     \<lparr>vq_config = config, vq_ready = False, vq_last_avail_idx = 0, vq_last_used_idx = 0,
      vq_pending = new_lock []\<rparr>"

definition VirtQueue_with_size :: "u16 \<Rightarrow> VirtQueue" where
  "VirtQueue_with_size n = VirtQueue_new (VirtQueueConfig_default\<lparr>vq_size := n\<rparr>)"

definition VirtQueue_is_ready :: "VirtQueue \<Rightarrow> bool" where
  "VirtQueue_is_ready q = vq_ready q"

definition VirtQueue_set_ready :: "VirtQueue \<Rightarrow> bool \<Rightarrow> VirtQueue" where
  "VirtQueue_set_ready q ready = q\<lparr>vq_ready := ready\<rparr>"

definition VirtQueue_size :: "VirtQueue \<Rightarrow> u16" where
  "VirtQueue_size q = vq_size (vq_config q)"

definition VirtQueue_avail_idx :: "VirtQueue \<Rightarrow> u64" where
  "VirtQueue_avail_idx q = vq_last_avail_idx q"

definition VirtQueue_used_idx :: "VirtQueue \<Rightarrow> u64" where
  "VirtQueue_used_idx q = vq_last_used_idx q"

definition VirtQueue_add_pending :: "VirtQueue \<Rightarrow> u16 \<Rightarrow> unit result \<times> VirtQueue" where
  "VirtQueue_add_pending q desc_idx =
     (if poisoned (vq_pending q) then (Inl ResourceBusy, q)
      else (Inr (), q\<lparr>vq_pending := (vq_pending q)\<lparr>contents := contents (vq_pending q) @ [desc_idx]\<rparr>\<rparr>))"

text \<open>\<^verbatim>\<open>Vec::pop\<close> takes the last element.\<close>

definition VirtQueue_pop_pending :: "VirtQueue \<Rightarrow> u16 option result \<times> VirtQueue" where
  "VirtQueue_pop_pending q =
     (if poisoned (vq_pending q) then (Inl ResourceBusy, q)
      else if contents (vq_pending q) = [] then (Inr None, q)
      else (Inr (Some (last (contents (vq_pending q)))),
            q\<lparr>vq_pending := (vq_pending q)\<lparr>contents := butlast (contents (vq_pending q))\<rparr>\<rparr>))"

definition VirtQueue_pending_count :: "VirtQueue \<Rightarrow> nat" where
  "VirtQueue_pending_count q = (if poisoned (vq_pending q) then 0 else length (contents (vq_pending q)))"

definition VirtQueue_notify :: "VirtQueue \<Rightarrow> unit result" where
  "VirtQueue_notify q = (if \<not> VirtQueue_is_ready q then Inl DeviceNotReady else Inr ())"

definition VirtQueue_mark_used :: "VirtQueue \<Rightarrow> u16 \<Rightarrow> u32 \<Rightarrow> unit result \<times> VirtQueue" where
  "VirtQueue_mark_used q desc_idx len = (Inr (), q\<lparr>vq_last_used_idx := vq_last_used_idx q + 1\<rparr>)"

section \<open>Vsock\<close>

record VsockAddr =
  va_cid :: u64
  va_port :: u32

definition VsockAddr_HOST_CID :: u64 where
  "VsockAddr_HOST_CID = 2"

definition VsockAddr_ANY_CID :: u64 where
  "VsockAddr_ANY_CID = - 1"

definition VsockAddr_ANY_PORT :: u32 where
  "VsockAddr_ANY_PORT = - 1"

definition VsockAddr_new :: "u64 \<Rightarrow> u32 \<Rightarrow> VsockAddr" where
  "VsockAddr_new cid port = \<lparr>va_cid = cid, va_port = port\<rparr>"

definition VsockAddr_host :: "u32 \<Rightarrow> VsockAddr" where
  "VsockAddr_host port = VsockAddr_new VsockAddr_HOST_CID port"

definition VsockAddr_is_host :: "VsockAddr \<Rightarrow> bool" where
  "VsockAddr_is_host a \<longleftrightarrow> va_cid a = VsockAddr_HOST_CID"

text \<open>\<^verbatim>\<open>Display\<close>: \<^verbatim>\<open>{cid}:{port}\<close>.\<close>

definition VsockAddr_fmt :: "VsockAddr \<Rightarrow> str" where
  "VsockAddr_fmt a = decimal (unat (va_cid a)) @ ascii '':'' @ decimal (unat (va_port a))"

datatype VsockPacketType =
  InvalidPacket | RequestPacket | ResponsePacket | Rst | ShutdownPacket | Rw | CreditUpdate | CreditRequest

fun VsockPacketType_as_u16 :: "VsockPacketType \<Rightarrow> u16" where
  "VsockPacketType_as_u16 InvalidPacket = 0"
| "VsockPacketType_as_u16 RequestPacket = 1"
| "VsockPacketType_as_u16 ResponsePacket = 2"
| "VsockPacketType_as_u16 Rst = 3"
| "VsockPacketType_as_u16 ShutdownPacket = 4"
| "VsockPacketType_as_u16 Rw = 5"
| "VsockPacketType_as_u16 CreditUpdate = 6"
| "VsockPacketType_as_u16 CreditRequest = 7"

definition VsockPacketType_from :: "u16 \<Rightarrow> VsockPacketType" where
  "VsockPacketType_from v =
     (if v = 1 then RequestPacket else if v = 2 then ResponsePacket else if v = 3 then Rst
      else if v = 4 then ShutdownPacket else if v = 5 then Rw else if v = 6 then CreditUpdate
      else if v = 7 then CreditRequest else InvalidPacket)"

record VsockPacketHeader =
  ph_src_cid :: u64
  ph_dst_cid :: u64
  ph_src_port :: u32
  ph_dst_port :: u32
  ph_len :: u32
  ph_packet_type :: u16
  ph_op :: u16
  ph_flags :: u32
  ph_buf_alloc :: u32
  ph_fwd_cnt :: u32

definition VsockPacketHeader_SIZE :: usize where
  "VsockPacketHeader_SIZE = 44"

definition VsockPacketHeader_new :: "VsockAddr \<Rightarrow> VsockAddr \<Rightarrow> VsockPacketType \<Rightarrow> VsockPacketHeader" where
  "VsockPacketHeader_new src dst t =
     \<lparr>ph_src_cid = va_cid src, ph_dst_cid = va_cid dst, ph_src_port = va_port src,
      ph_dst_port = va_port dst, ph_len = 0, ph_packet_type = VsockPacketType_as_u16 t, ph_op = 0,
      ph_flags = 0, ph_buf_alloc = 0, ph_fwd_cnt = 0\<rparr>"

definition VsockPacketHeader_get_type :: "VsockPacketHeader \<Rightarrow> VsockPacketType" where
  "VsockPacketHeader_get_type h = VsockPacketType_from (ph_packet_type h)"

definition VsockPacketHeader_src :: "VsockPacketHeader \<Rightarrow> VsockAddr" where
  "VsockPacketHeader_src h = VsockAddr_new (ph_src_cid h) (ph_src_port h)"

definition VsockPacketHeader_dst :: "VsockPacketHeader \<Rightarrow> VsockAddr" where
  "VsockPacketHeader_dst h = VsockAddr_new (ph_dst_cid h) (ph_dst_port h)"

datatype VsockConnState = Disconnected | Connecting | Connected | Disconnecting

record VsockConnection =
  vc_local :: VsockAddr
  vc_remote :: VsockAddr
  vc_state :: VsockConnState
  vc_rx_buffer :: bytes
  vc_tx_buffer :: bytes
  vc_buf_alloc :: u32
  vc_fwd_cnt :: u32

definition VsockConnection_new :: "VsockAddr \<Rightarrow> VsockAddr \<Rightarrow> VsockConnection" where
  "VsockConnection_new local_addr remote =
     \<lparr>vc_local = local_addr, vc_remote = remote, vc_state = Disconnected, vc_rx_buffer = [],
      vc_tx_buffer = [], vc_buf_alloc = 65536, vc_fwd_cnt = 0\<rparr>"

definition VsockConnection_state :: "VsockConnection \<Rightarrow> VsockConnState" where
  "VsockConnection_state c = vc_state c"

definition VsockConnection_is_connected :: "VsockConnection \<Rightarrow> bool" where
  "VsockConnection_is_connected c \<longleftrightarrow> (case vc_state c of Connected \<Rightarrow> True | _ \<Rightarrow> False)"

definition VsockConnection_local :: "VsockConnection \<Rightarrow> VsockAddr" where
  "VsockConnection_local c = vc_local c"

definition VsockConnection_remote :: "VsockConnection \<Rightarrow> VsockAddr" where
  "VsockConnection_remote c = vc_remote c"

definition VsockConnection_available_credit :: "VsockConnection \<Rightarrow> u32" where
  "VsockConnection_available_credit c = saturating_sub (vc_buf_alloc c) (word_of_nat (length (vc_rx_buffer c)))"

definition VsockConnection_pending_tx :: "VsockConnection \<Rightarrow> nat" where
  "VsockConnection_pending_tx c = length (vc_tx_buffer c)"

definition VsockConnection_forward_count :: "VsockConnection \<Rightarrow> u32" where
  "VsockConnection_forward_count c = vc_fwd_cnt c"

definition VsockConnection_queue_tx :: "VsockConnection \<Rightarrow> bytes \<Rightarrow> VsockConnection" where
  "VsockConnection_queue_tx c data = c\<lparr>vc_tx_buffer := vc_tx_buffer c @ data\<rparr>"

definition VsockConnection_acknowledge :: "VsockConnection \<Rightarrow> u32 \<Rightarrow> VsockConnection" where
  "VsockConnection_acknowledge c n = c\<lparr>vc_fwd_cnt := saturating_add (vc_fwd_cnt c) n\<rparr>"

record VirtioVsock =
  vv_cid :: u64
  vv_rx_queue :: VirtQueue
  vv_tx_queue :: VirtQueue
  vv_event_queue :: VirtQueue
  vv_connections :: "((VsockAddr \<times> VsockAddr) \<times> VsockConnection) list lock"
  vv_ready :: bool

definition VirtioVsock_new :: "u64 \<Rightarrow> VirtioVsock" where
  "VirtioVsock_new cid =
     \<lparr>vv_cid = cid, vv_rx_queue = VirtQueue_with_size DEFAULT_QUEUE_SIZE,
      vv_tx_queue = VirtQueue_with_size DEFAULT_QUEUE_SIZE,
      vv_event_queue = VirtQueue_with_size DEFAULT_QUEUE_SIZE, vv_connections = new_lock [],
      vv_ready = False\<rparr>"

definition VirtioVsock_cid :: "VirtioVsock \<Rightarrow> u64" where
  "VirtioVsock_cid v = vv_cid v"

definition VirtioVsock_is_ready :: "VirtioVsock \<Rightarrow> bool" where
  "VirtioVsock_is_ready v = vv_ready v"

definition VirtioVsock_activate :: "VirtioVsock \<Rightarrow> VirtioVsock" where
  "VirtioVsock_activate v =
     v\<lparr>vv_rx_queue := VirtQueue_set_ready (vv_rx_queue v) True,
       vv_tx_queue := VirtQueue_set_ready (vv_tx_queue v) True,
       vv_event_queue := VirtQueue_set_ready (vv_event_queue v) True, vv_ready := True\<rparr>"

definition VirtioVsock_deactivate :: "VirtioVsock \<Rightarrow> VirtioVsock" where
  "VirtioVsock_deactivate v =
     v\<lparr>vv_ready := False, vv_rx_queue := VirtQueue_set_ready (vv_rx_queue v) False,
       vv_tx_queue := VirtQueue_set_ready (vv_tx_queue v) False,
       vv_event_queue := VirtQueue_set_ready (vv_event_queue v) False\<rparr>"

definition VirtioVsock_connect :: "VirtioVsock \<Rightarrow> VsockAddr \<Rightarrow> unit result \<times> VirtioVsock" where
  "VirtioVsock_connect v remote =
     (if \<not> VirtioVsock_is_ready v then (Inl DeviceNotReady, v)
      else let local_addr = VsockAddr_new (vv_cid v) 0;
               conn = VsockConnection_new local_addr remote
        in if poisoned (vv_connections v) then (Inl ResourceBusy, v)
           else (Inr (), v\<lparr>vv_connections := (vv_connections v)\<lparr>contents :=
                   AList.update (local_addr, remote) conn (contents (vv_connections v))\<rparr>\<rparr>))"

definition VirtioVsock_connection_count :: "VirtioVsock \<Rightarrow> nat" where
  "VirtioVsock_connection_count v =
     (if poisoned (vv_connections v) then 0 else length (contents (vv_connections v)))"

definition VirtioVsock_send :: "VirtioVsock \<Rightarrow> VsockAddr \<Rightarrow> bytes \<Rightarrow> nat result" where
  "VirtioVsock_send v remote data = (if \<not> VirtioVsock_is_ready v then Inl DeviceNotReady else Inr (length data))"

definition VirtioVsock_recv :: "VirtioVsock \<Rightarrow> VsockAddr \<Rightarrow> bytes \<Rightarrow> nat result" where
  "VirtioVsock_recv v remote buffer = (if \<not> VirtioVsock_is_ready v then Inl DeviceNotReady else Inr 0)"

section \<open>Block device\<close>

datatype BlockRequestType = InRequest | OutRequest | FlushRequest | DiscardRequest | WriteZeroesRequest

fun BlockRequestType_as_u32 :: "BlockRequestType \<Rightarrow> u32" where
  "BlockRequestType_as_u32 InRequest = 0"
| "BlockRequestType_as_u32 OutRequest = 1"
| "BlockRequestType_as_u32 FlushRequest = 4"
| "BlockRequestType_as_u32 DiscardRequest = 11"
| "BlockRequestType_as_u32 WriteZeroesRequest = 13"

definition BlockRequestType_from :: "u32 \<Rightarrow> BlockRequestType" where
  "BlockRequestType_from v =
     (if v = 0 then InRequest else if v = 1 then OutRequest else if v = 4 then FlushRequest
      else if v = 11 then DiscardRequest else if v = 13 then WriteZeroesRequest else InRequest)"

record BlockRequestHeader =
  bh_request_type :: u32
  bh_reserved :: u32
  bh_sector :: u64

definition BlockRequestHeader_SIZE :: usize where
  "BlockRequestHeader_SIZE = 16"

definition BlockRequestHeader_read :: "u64 \<Rightarrow> BlockRequestHeader" where
  "BlockRequestHeader_read sector =
     \<lparr>bh_request_type = BlockRequestType_as_u32 InRequest, bh_reserved = 0, bh_sector = sector\<rparr>"

definition BlockRequestHeader_write :: "u64 \<Rightarrow> BlockRequestHeader" where
  "BlockRequestHeader_write sector =
     \<lparr>bh_request_type = BlockRequestType_as_u32 OutRequest, bh_reserved = 0, bh_sector = sector\<rparr>"

definition BlockRequestHeader_flush :: BlockRequestHeader where
  "BlockRequestHeader_flush =
     \<lparr>bh_request_type = BlockRequestType_as_u32 FlushRequest, bh_reserved = 0, bh_sector = 0\<rparr>"

definition BlockRequestHeader_get_type :: "BlockRequestHeader \<Rightarrow> BlockRequestType" where
  "BlockRequestHeader_get_type h = BlockRequestType_from (bh_request_type h)"

record BlockConfig =
  bc_capacity :: u64
  bc_blk_size :: u32
  bc_read_only :: bool

definition BlockConfig_default :: BlockConfig where
  "BlockConfig_default = \<lparr>bc_capacity = 0, bc_blk_size = 512, bc_read_only = False\<rparr>"

record VirtioBlock =
  vb_config :: BlockConfig
  vb_queue :: VirtQueue
  vb_storage :: "bytes lock"
  vb_ready :: bool
  vb_reads :: u64
  vb_writes :: u64

text \<open>\<^verbatim>\<open>vec![0u8; storage_size]\<close> panics above \<^verbatim>\<open>isize::MAX\<close> bytes.\<close>

definition VirtioBlock_new :: "BlockConfig \<Rightarrow> VirtioBlock exec" where
  "VirtioBlock_new config =
     (let storage_size = unat (bc_capacity config * 512)
      in if 2 ^ 63 \<le> storage_size then Panic
         else Done \<lparr>vb_config = config, vb_queue = VirtQueue_with_size DEFAULT_QUEUE_SIZE,
           vb_storage = new_lock (replicate storage_size 0), vb_ready = False,
           vb_reads = 0, vb_writes = 0\<rparr>)"

definition VirtioBlock_with_capacity_mib :: "u64 \<Rightarrow> VirtioBlock exec" where
  "VirtioBlock_with_capacity_mib mib =
     VirtioBlock_new (BlockConfig_default\<lparr>bc_capacity := mib * 1024 * 1024 div 512\<rparr>)"

definition VirtioBlock_capacity :: "VirtioBlock \<Rightarrow> u64" where
  "VirtioBlock_capacity v = bc_capacity (vb_config v)"

definition VirtioBlock_capacity_bytes :: "VirtioBlock \<Rightarrow> u64" where
  "VirtioBlock_capacity_bytes v = bc_capacity (vb_config v) * 512"

definition VirtioBlock_is_read_only :: "VirtioBlock \<Rightarrow> bool" where
  "VirtioBlock_is_read_only v = bc_read_only (vb_config v)"

definition VirtioBlock_is_ready :: "VirtioBlock \<Rightarrow> bool" where
  "VirtioBlock_is_ready v = vb_ready v"

definition VirtioBlock_activate :: "VirtioBlock \<Rightarrow> VirtioBlock" where
  "VirtioBlock_activate v = v\<lparr>vb_queue := VirtQueue_set_ready (vb_queue v) True, vb_ready := True\<rparr>"

definition VirtioBlock_deactivate :: "VirtioBlock \<Rightarrow> VirtioBlock" where
  "VirtioBlock_deactivate v = v\<lparr>vb_ready := False, vb_queue := VirtQueue_set_ready (vb_queue v) False\<rparr>"

text \<open>
  \<^verbatim>\<open>read\<close>: the number of bytes, the buffer and the device.  Slicing \<^verbatim>\<open>storage[offset..offset + len]\<close>
  panics when the range is not one of the storage, in particular when \<^verbatim>\<open>offset + len\<close> wrapped.
\<close>

definition VirtioBlock_read :: "VirtioBlock \<Rightarrow> u64 \<Rightarrow> bytes \<Rightarrow> (nat result \<times> bytes \<times> VirtioBlock) exec" where
  "VirtioBlock_read v sector buffer =
     (if \<not> VirtioBlock_is_ready v then Done (Inl DeviceNotReady, buffer, v)
      else let offset = sector * 512;
               len = length buffer;
               last_pos = offset + (word_of_nat len :: usize)
        in if poisoned (vb_storage v) then Done (Inl ResourceBusy, buffer, v)
           else if length (contents (vb_storage v)) < unat last_pos
           then Done (Inl InvalidArgument, buffer, v)
           else exec_bind (slice (contents (vb_storage v)) (unat offset) (unat last_pos)) (\<lambda>bs.
                  Done (Inr len, bs, v\<lparr>vb_reads := vb_reads v + 1\<rparr>)))"

definition VirtioBlock_write :: "VirtioBlock \<Rightarrow> u64 \<Rightarrow> bytes \<Rightarrow> (nat result \<times> VirtioBlock) exec" where
  "VirtioBlock_write v sector data =
     (if \<not> VirtioBlock_is_ready v then Done (Inl DeviceNotReady, v)
      else if bc_read_only (vb_config v) then Done (Inl NotSupported, v)
      else let offset = sector * 512;
               len = length data;
               last_pos = offset + (word_of_nat len :: usize)
        in if poisoned (vb_storage v) then Done (Inl ResourceBusy, v)
           else if length (contents (vb_storage v)) < unat last_pos then Done (Inl InvalidArgument, v)
           else exec_bind (slice (contents (vb_storage v)) (unat offset) (unat last_pos)) (\<lambda>_.
                  Done (Inr len, v\<lparr>vb_storage := (vb_storage v)\<lparr>contents :=
                          overwrite (contents (vb_storage v)) (unat offset) data\<rparr>,
                        vb_writes := vb_writes v + 1\<rparr>)))"

definition VirtioBlock_flush :: "VirtioBlock \<Rightarrow> unit result" where
  "VirtioBlock_flush v = (if \<not> VirtioBlock_is_ready v then Inl DeviceNotReady else Inr ())"

definition VirtioBlock_read_count :: "VirtioBlock \<Rightarrow> u64" where
  "VirtioBlock_read_count v = vb_reads v"

definition VirtioBlock_write_count :: "VirtioBlock \<Rightarrow> u64" where
  "VirtioBlock_write_count v = vb_writes v"

end
