(* ===== verification/Pepita_Block_Device.thy ===== *)
theory Pepita_Block_Device
  imports Pepita_Virtio
begin

text \<open>
  Correctness of the virtio devices: the block device refines an array of bytes addressed by sector,
  its behaviour on every request is characterised, and the vsock device keeps one connection per
  remote address.
\<close>

section \<open>Requests that do not wrap\<close>

text \<open>The byte address of a sector, before and after reduction to 64 bits.\<close>

definition sector_offset :: "u64 \<Rightarrow> nat" where
  "sector_offset s = unat (s * 512)"

lemma sector_offset_small: "unat s * 512 < 2 ^ 64 \<Longrightarrow> sector_offset s = unat s * 512"
  by (simp add: sector_offset_def unat_word_ariths)

lemma end_offset:
  "n < 2 ^ 64 \<Longrightarrow> unat (s * 512 + (word_of_nat n :: usize)) = (sector_offset s + n) mod 2 ^ 64"
  by (simp add: sector_offset_def unat_word_ariths(1) unat_of_nat)

lemma read_in_range:
  assumes "vb_ready v" and "\<not> poisoned (vb_storage v)"
    and "sector_offset s + length buf \<le> length (contents (vb_storage v))"
    and "sector_offset s + length buf < 2 ^ 64"
  shows "VirtioBlock_read v s buf = Done (Inr (length buf),
    take (length buf) (drop (sector_offset s) (contents (vb_storage v))), v\<lparr>vb_reads := vb_reads v + 1\<rparr>)"
proof -
  have e: "unat (s * 512 + (word_of_nat (length buf) :: usize)) = sector_offset s + length buf"
    using assms(4) by (simp add: end_offset)
  show ?thesis
    using assms
    by (simp add: VirtioBlock_read_def VirtioBlock_is_ready_def Let_def e slice_def sector_offset_def [symmetric])
qed

lemma write_in_range:
  assumes "vb_ready v" and "\<not> bc_read_only (vb_config v)" and "\<not> poisoned (vb_storage v)"
    and "sector_offset s + length data \<le> length (contents (vb_storage v))"
    and "sector_offset s + length data < 2 ^ 64"
  shows "VirtioBlock_write v s data = Done (Inr (length data),
    v\<lparr>vb_storage := (vb_storage v)\<lparr>contents := overwrite (contents (vb_storage v)) (sector_offset s) data\<rparr>,
      vb_writes := vb_writes v + 1\<rparr>)"
proof -
  have e: "unat (s * 512 + (word_of_nat (length data) :: usize)) = sector_offset s + length data"
    using assms(5) by (simp add: end_offset)
  show ?thesis
    using assms
    by (simp add: VirtioBlock_write_def VirtioBlock_is_ready_def Let_def e slice_def sector_offset_def [symmetric])
qed

lemma out_of_range:
  assumes "vb_ready v" and "\<not> poisoned (vb_storage v)"
    and "length (contents (vb_storage v)) < sector_offset s + length bs" and "sector_offset s + length bs < 2 ^ 64"
  shows "VirtioBlock_read v s bs = Done (Inl InvalidArgument, bs, v)"
    and "\<not> bc_read_only (vb_config v) \<Longrightarrow> VirtioBlock_write v s bs = Done (Inl InvalidArgument, v)"
proof -
  have e: "unat (s * 512 + (word_of_nat (length bs) :: usize)) = sector_offset s + length bs"
    using assms(4) by (simp add: end_offset)
  show "VirtioBlock_read v s bs = Done (Inl InvalidArgument, bs, v)"
    and "\<not> bc_read_only (vb_config v) \<Longrightarrow> VirtioBlock_write v s bs = Done (Inl InvalidArgument, v)"
    using assms by (simp_all add: VirtioBlock_read_def VirtioBlock_write_def VirtioBlock_is_ready_def Let_def e)
qed

section \<open>The device as an array of bytes\<close>

datatype block_op = WriteSectors u64 bytes | ReadSectors u64 bytes

fun block_call :: "block_op \<Rightarrow> VirtioBlock \<Rightarrow> VirtioBlock exec" where
  "block_call (WriteSectors s data) v = exec_bind (VirtioBlock_write v s data) (\<lambda>r. Done (snd r))"
| "block_call (ReadSectors s buf) v = exec_bind (VirtioBlock_read v s buf) (\<lambda>r. Done (snd (snd r)))"

text \<open>The ideal device of \<open>n\<close> bytes; a request beyond its end changes nothing.\<close>

fun ideal_block :: "nat \<Rightarrow> block_op \<Rightarrow> (nat \<Rightarrow> u8) \<Rightarrow> nat \<Rightarrow> u8" where
  "ideal_block n (WriteSectors s data) f =
     (if unat s * 512 + length data \<le> n
      then (\<lambda>i. if unat s * 512 \<le> i \<and> i < unat s * 512 + length data then data ! (i - unat s * 512) else f i)
      else f)"
| "ideal_block n (ReadSectors s buf) f = f"

fun sane :: "block_op \<Rightarrow> bool" where
  "sane (WriteSectors s data) \<longleftrightarrow> unat s * 512 + length data < 2 ^ 64"
| "sane (ReadSectors s buf) \<longleftrightarrow> unat s * 512 + length buf < 2 ^ 64"

definition block_abs :: "VirtioBlock \<Rightarrow> nat \<Rightarrow> (nat \<Rightarrow> u8) \<Rightarrow> bool" where
  "block_abs v n f \<longleftrightarrow> vb_ready v \<and> \<not> bc_read_only (vb_config v) \<and> \<not> poisoned (vb_storage v)
     \<and> contents (vb_storage v) = map f [0..<n]"

lemma overwrite_map:
  assumes "i + length ys \<le> n"
  shows "overwrite (map f [0..<n]) i ys = map (\<lambda>k. if i \<le> k \<and> k < i + length ys then ys ! (k - i) else f k) [0..<n]"
proof (rule nth_equalityI)
  fix k assume "k < length (overwrite (map f [0..<n]) i ys)"
  then have k: "k < n" using assms by simp
  show "overwrite (map f [0..<n]) i ys ! k = map (\<lambda>k. if i \<le> k \<and> k < i + length ys then ys ! (k - i) else f k) [0..<n] ! k"
    using k assms by (auto simp: overwrite_def nth_append min_def)
qed (use assms in simp)

lemma block_call_refines:
  assumes "block_abs v n f" and "sane c"
  shows "\<exists>v'. block_call c v = Done v' \<and> block_abs v' n (ideal_block n c f)"
proof (cases c)
  case (WriteSectors s data)
  have o: "sector_offset s = unat s * 512" using assms(2) WriteSectors by (simp add: sector_offset_small)
  have v: "vb_ready v" "\<not> bc_read_only (vb_config v)" "\<not> poisoned (vb_storage v)" "contents (vb_storage v) = map f [0..<n]"
    using assms(1) by (auto simp: block_abs_def)
  show ?thesis
  proof (cases "unat s * 512 + length data \<le> n")
    case True
    then show ?thesis
      using write_in_range [OF v(1-3), of s data] v assms(2) WriteSectors o
      by (simp add: block_abs_def overwrite_map)
  next
    case False
    then show ?thesis
      using out_of_range(2) [OF v(1,3), of s data] v assms(2) WriteSectors o
      by (simp add: block_abs_def)
  qed
next
  case (ReadSectors s buf)
  have o: "sector_offset s = unat s * 512" using assms(2) ReadSectors by (simp add: sector_offset_small)
  have v: "vb_ready v" "\<not> poisoned (vb_storage v)" "contents (vb_storage v) = map f [0..<n]"
    using assms(1) by (auto simp: block_abs_def)
  show ?thesis
    using read_in_range [OF v(1,2), of s buf] out_of_range(1) [OF v(1,2), of s buf] v assms ReadSectors o
    by (cases "unat s * 512 + length buf \<le> n") (auto simp: block_abs_def)
qed

lemma block_calls_refine:
  "block_abs v n f \<Longrightarrow> \<forall>c \<in> set cs. sane c \<Longrightarrow>
   \<exists>v'. exec_fold block_call cs v = Done v' \<and> block_abs v' n (fold (ideal_block n) cs f)"
proof (induction cs arbitrary: v f)
  case (Cons c cs)
  from block_call_refines [OF Cons.prems(1), of c] Cons.prems(2)
  obtain v' where "block_call c v = Done v'" "block_abs v' n (ideal_block n c f)" by auto
  with Cons.IH [of v' "ideal_block n c f"] Cons.prems(2) show ?case by simp
qed simp

section \<open>Vsock connections\<close>

definition vsock_keys :: "VirtioVsock \<Rightarrow> (VsockAddr \<times> VsockAddr) list" where
  "vsock_keys v = map fst (contents (vv_connections v))"

definition remotes :: "VirtioVsock \<Rightarrow> VsockAddr set" where
  "remotes v = snd ` set (vsock_keys v)"

text \<open>Every connection is keyed by the device's own address with port 0, and no key occurs twice.\<close>

definition vsock_ok :: "VirtioVsock \<Rightarrow> bool" where
  "vsock_ok v \<longleftrightarrow> vv_ready v \<and> \<not> poisoned (vv_connections v) \<and> distinct (vsock_keys v)
     \<and> (\<forall>k \<in> set (vsock_keys v). fst k = VsockAddr_new (vv_cid v) 0)"

lemma vsock_count: "vsock_ok v \<Longrightarrow> VirtioVsock_connection_count v = card (remotes v)"
proof -
  assume v: "vsock_ok v"
  then have "inj_on snd (set (vsock_keys v))"
    by (auto simp: vsock_ok_def inj_on_def prod_eq_iff)
  then have "card (remotes v) = length (vsock_keys v)"
    using v by (simp add: remotes_def card_image vsock_ok_def distinct_card)
  with v show ?thesis
    by (simp add: VirtioVsock_connection_count_def vsock_ok_def vsock_keys_def)
qed

lemma vsock_connect:
  assumes "vsock_ok v"
  shows "\<exists>v'. VirtioVsock_connect v r = (Inr (), v') \<and> vsock_ok v' \<and> remotes v' = insert r (remotes v)"
proof -
  let ?k = "(VsockAddr_new (vv_cid v) 0, r)"
  let ?v = "snd (VirtioVsock_connect v r)"
  have "VirtioVsock_connect v r = (Inr (), ?v)" "vv_ready ?v" "\<not> poisoned (vv_connections ?v)" "vv_cid ?v = vv_cid v"
    using assms by (simp_all add: VirtioVsock_connect_def VirtioVsock_is_ready_def vsock_ok_def Let_def)
  moreover have "vsock_keys ?v = map fst (AList.update ?k (VsockConnection_new (VsockAddr_new (vv_cid v) 0) r)
      (contents (vv_connections v)))"
    using assms by (simp add: vsock_keys_def VirtioVsock_connect_def VirtioVsock_is_ready_def vsock_ok_def Let_def)
  then have "set (vsock_keys ?v) = insert ?k (set (vsock_keys v))" "distinct (vsock_keys ?v)"
    using assms by (auto simp: vsock_keys_def vsock_ok_def dom_update distinct_update)
  ultimately show ?thesis
    using assms by (intro exI [of _ ?v]) (auto simp: vsock_ok_def remotes_def)
qed

lemma vsock_connects:
  "vsock_ok v \<Longrightarrow> \<exists>v'. fold (\<lambda>r v. snd (VirtioVsock_connect v r)) rs v = v' \<and> vsock_ok v'
     \<and> remotes v' = set rs \<union> remotes v"
proof (induction rs arbitrary: v)
  case (Cons r rs)
  obtain v1 where "VirtioVsock_connect v r = (Inr (), v1)" "vsock_ok v1" "remotes v1 = insert r (remotes v)"
    using vsock_connect [OF Cons.prems] by blast
  with Cons.IH [of v1] show ?case by auto
qed simp

section \<open>Properties\<close>

text \<open>C9: The block device refines an array of bytes. From a new, activated, writable device, after any
  sequence of reads and writes whose byte ranges fit into 64 bits, in or out of the device's range, no
  call panics, and reading any range of the device succeeds with exactly the bytes that the array of
  bytes holds after the same writes. A capacity of \<open>2 ^ 63\<close> bytes or more cannot be allocated: \<^verbatim>\<open>new\<close> panics.\<close>

theorem block_device_refines_bytes:
  assumes "unat (bc_capacity c) * 512 < 2 ^ 64" and "\<not> bc_read_only c" and "\<forall>op \<in> set ops. sane op"
    and "unat s * 512 + length buf \<le> unat (bc_capacity c) * 512"
  shows "if unat (bc_capacity c) * 512 < 2 ^ 63
     then \<exists>v0 v v'. VirtioBlock_new c = Done v0 \<and> exec_fold block_call ops (VirtioBlock_activate v0) = Done v
       \<and> VirtioBlock_read v s buf = Done (Inr (length buf),
           map (fold (ideal_block (unat (bc_capacity c) * 512)) ops (\<lambda>_. 0)) [unat s * 512..<unat s * 512 + length buf], v')
     else VirtioBlock_new c = Panic"
proof -
  let ?n = "unat (bc_capacity c) * 512"
  have n: "unat (bc_capacity c * 512) = ?n" using assms(1) by (simp add: unat_word_ariths)
  show ?thesis
  proof (cases "?n < 2 ^ 63")
    case False
    with n show ?thesis by (simp add: VirtioBlock_new_def not_less)
  next
    case True
    then obtain v0 where v0: "VirtioBlock_new c = Done v0" "block_abs (VirtioBlock_activate v0) ?n (\<lambda>_. 0)"
      using assms(2) n by (auto simp: block_abs_def VirtioBlock_activate_def VirtioBlock_new_def map_replicate_const Let_def)
    from block_calls_refine [OF v0(2) assms(3)] obtain v f where v: "exec_fold block_call ops (VirtioBlock_activate v0) = Done v"
      "block_abs v ?n f" and f: "f = fold (ideal_block ?n) ops (\<lambda>_. 0)" by auto
    have o: "sector_offset s = unat s * 512" using assms(1,4) by (intro sector_offset_small) linarith
    have "VirtioBlock_read v s buf = Done (Inr (length buf), take (length buf) (drop (unat s * 512) (map f [0..<?n])),
        v\<lparr>vb_reads := vb_reads v + 1\<rparr>)"
      using read_in_range [of v s buf] v(2) assms(1,4) o by (simp add: block_abs_def)
    also have "take (length buf) (drop (unat s * 512) (map f [0..<?n])) = map f [unat s * 512..<unat s * 512 + length buf]"
      using assms(4) by (simp add: drop_map take_map)
    finally show ?thesis using True v0(1) v(1) f by auto
  qed
qed

definition sample_block_config :: BlockConfig where
  "sample_block_config = BlockConfig_default\<lparr>bc_capacity := 4\<rparr>"

theorem block_device_refines_bytes_witness:
  "\<exists>v0 v v'. VirtioBlock_new sample_block_config = Done v0
     \<and> exec_fold block_call [WriteSectors 1 [7, 8, 9], WriteSectors 9 [1], ReadSectors 0 [0]] (VirtioBlock_activate v0) = Done v
     \<and> VirtioBlock_read v 1 [0, 0, 0, 0] = Done (Inr 4, [7, 8, 9, 0], v')"
proof -
  let ?ops = "[WriteSectors 1 [7, 8, 9], WriteSectors 9 [1], ReadSectors 0 [0]]"
  have four: "Suc (Suc (Suc (Suc 0))) = 4" by simp
  have "map (fold (ideal_block 2048) ?ops (\<lambda>_. 0)) [512..<516] = [7, 8, 9, 0]"
    by (simp add: upt_rec)
  with block_device_refines_bytes [of sample_block_config ?ops 1 "[0, 0, 0, 0]"] show ?thesis
    by (simp add: sample_block_config_def BlockConfig_default_def four del: exec_fold.simps fold_simps)
qed

text \<open>C30: What a read does for every sector and buffer, on a ready device: with the offset reduced to 64
  bits, a range inside the storage is copied, a range that ends beyond it is rejected with
  \<open>InvalidArgument\<close>, and a range that passes the end of the 64-bit address space is rejected or, when
  its wrapped end falls inside the storage, panics.\<close>

theorem block_read_outcome:
  assumes "vb_ready v" and "\<not> poisoned (vb_storage v)" and "length buf < 2 ^ 63" and "length (contents (vb_storage v)) < 2 ^ 63"
  shows "VirtioBlock_read v s buf =
    (let pos = (unat s * 512) mod 2 ^ 64; n = length buf; st = contents (vb_storage v)
     in if pos + n < 2 ^ 64
        then (if pos + n \<le> length st then Done (Inr n, take n (drop pos st), v\<lparr>vb_reads := vb_reads v + 1\<rparr>)
              else Done (Inl InvalidArgument, buf, v))
        else if length st < pos + n - 2 ^ 64 then Done (Inl InvalidArgument, buf, v) else Panic)"
proof -
  have o: "sector_offset s = (unat s * 512) mod 2 ^ 64"
    by (simp add: sector_offset_def unat_word_ariths)
  show ?thesis
  proof (cases "sector_offset s + length buf < 2 ^ 64")
    case True
    then show ?thesis
      using read_in_range [OF assms(1,2), of s buf] out_of_range(1) [OF assms(1,2), of s buf]
      by (auto simp: o Let_def not_le)
  next
    case False
    have lt: "sector_offset s < 2 ^ 64" using unat_bound [of "s * 512"] by (simp add: sector_offset_def)
    have "(sector_offset s + length buf) mod 2 ^ 64 = sector_offset s + length buf - 2 ^ 64"
      using False lt assms(3) by (simp add: mod_if le_mod_geq)
    then have e: "unat (s * 512 + (word_of_nat (length buf) :: usize)) = sector_offset s + length buf - 2 ^ 64"
      using assms(3) by (subst end_offset) auto
    have "sector_offset s + length buf - 2 ^ 64 < sector_offset s" using lt assms(3) False by simp
    then show ?thesis
      unfolding Let_def o [symmetric] using assms(1,2) False
      by (simp add: VirtioBlock_read_def VirtioBlock_is_ready_def Let_def e slice_def sector_offset_def [symmetric])
  qed
qed

theorem block_read_outcome_witness:
  "\<exists>v. VirtioBlock_new sample_block_config = Done v
     \<and> VirtioBlock_read (VirtioBlock_activate v) 0x7FFFFFFFFFFFFF (replicate 512 0) = Panic"
proof -
  obtain v where v: "VirtioBlock_new sample_block_config = Done v" "vb_storage v = new_lock (replicate 2048 0)"
    by (simp add: VirtioBlock_new_def sample_block_config_def BlockConfig_default_def Let_def)
  then show ?thesis
    using block_read_outcome [of "VirtioBlock_activate v" "replicate 512 0" "0x7FFFFFFFFFFFFF"]
    by (simp add: VirtioBlock_activate_def Let_def)
qed

text \<open>Sector numbers alias. Adding \<open>2 ^ 55\<close> to a sector changes nothing: a request far beyond the
  capacity reads or overwrites the data of a valid sector.\<close>

lemma block_sectors_alias:
  "VirtioBlock_read v (s + 2 ^ 55) buf = VirtioBlock_read v s buf
   \<and> VirtioBlock_write v (s + 2 ^ 55) data = VirtioBlock_write v s data"
proof -
  have "(s + 2 ^ 55) * 512 = s * 512"
    by (simp add: distrib_right)
  then show ?thesis by (simp only: VirtioBlock_read_def VirtioBlock_write_def)
qed

text \<open>One connection per remote. On an activated vsock device every connect succeeds, and the number of
  connections is the number of distinct remote addresses connected to: connecting again to the same
  remote replaces the connection.\<close>

lemma vsock_connection_per_remote:
  "VirtioVsock_connection_count
     (fold (\<lambda>r v. snd (VirtioVsock_connect v r)) rs (VirtioVsock_activate (VirtioVsock_new cid))) = card (set rs)"
proof -
  have ok: "vsock_ok (VirtioVsock_activate (VirtioVsock_new cid))" "remotes (VirtioVsock_activate (VirtioVsock_new cid)) = {}"
    by (simp_all add: vsock_ok_def vsock_keys_def remotes_def VirtioVsock_activate_def VirtioVsock_new_def)
  then show ?thesis
    using vsock_connects [OF ok(1), of rs] vsock_count by auto
qed

end
