(* ===== verification/Pepita_Vmm.thy ===== *)
theory Pepita_Vmm
  imports Pepita_Error
begin

text \<open>
  The virtual machine monitor: \<^verbatim>\<open>src/src/vmm.rs\<close>.  VM configuration and its builder, exit reasons,
  memory regions, vCPUs (the crate's mock), the lifecycle of a micro-VM and the jailer.  \<^verbatim>\<open>run\<close> takes
  the state lock twice; its two critical sections are separate definitions, so that calls of other
  threads can be placed between them.
\<close>

type_synonym path = bytes

section \<open>KVM constants\<close>

definition KVM_API_VERSION :: u32 where
  "KVM_API_VERSION = 12"

definition KVM_GET_API_VERSION :: u64 where
  "KVM_GET_API_VERSION = 0xAE00"

definition KVM_CREATE_VM :: u64 where
  "KVM_CREATE_VM = 0xAE01"

definition KVM_CHECK_EXTENSION :: u64 where
  "KVM_CHECK_EXTENSION = 0xAE03"

definition KVM_GET_VCPU_MMAP_SIZE :: u64 where
  "KVM_GET_VCPU_MMAP_SIZE = 0xAE04"

definition KVM_CREATE_VCPU :: u64 where
  "KVM_CREATE_VCPU = 0xAE41"

definition KVM_SET_USER_MEMORY_REGION :: u64 where
  "KVM_SET_USER_MEMORY_REGION = 0x4020AE46"

definition KVM_RUN :: u64 where
  "KVM_RUN = 0xAE80"

definition KVM_GET_REGS :: u64 where
  "KVM_GET_REGS = 0x8090AE81"

definition KVM_SET_REGS :: u64 where
  "KVM_SET_REGS = 0x4090AE82"

definition KVM_GET_SREGS :: u64 where
  "KVM_GET_SREGS = 0x8138AE83"

definition KVM_SET_SREGS :: u64 where
  "KVM_SET_SREGS = 0x4138AE84"

definition KVM_CAP_USER_MEMORY :: u32 where
  "KVM_CAP_USER_MEMORY = 3"

definition KVM_CAP_IRQCHIP :: u32 where
  "KVM_CAP_IRQCHIP = 0"

definition KVM_CAP_HLT :: u32 where
  "KVM_CAP_HLT = 1"

definition MAX_VCPUS :: u32 where
  "MAX_VCPUS = 254"

definition MAX_MEMORY_SLOTS :: u32 where
  "MAX_MEMORY_SLOTS = 32"

section \<open>State and configuration\<close>

datatype VmState = Created | VmRunning | Paused | Stopped | VmError

definition VmState_can_start :: "VmState \<Rightarrow> bool" where
  "VmState_can_start s \<longleftrightarrow> (case s of Created \<Rightarrow> True | Paused \<Rightarrow> True | _ \<Rightarrow> False)"

definition VmState_is_active :: "VmState \<Rightarrow> bool" where
  "VmState_is_active s \<longleftrightarrow> (case s of VmRunning \<Rightarrow> True | Paused \<Rightarrow> True | _ \<Rightarrow> False)"

record VmConfig =
  vm_vcpus :: u32
  vm_memory_mb :: u64
  vm_kernel_path :: "path option"
  vm_kernel_cmdline :: "bytes option"
  vm_initrd_path :: "path option"
  vm_enable_kvm :: bool
  vm_vsock_path :: "path option"

definition VmConfig_default :: VmConfig where
  "VmConfig_default =
     \<lparr>vm_vcpus = 1, vm_memory_mb = 128, vm_kernel_path = None, vm_kernel_cmdline = None,
      vm_initrd_path = None, vm_enable_kvm = True, vm_vsock_path = None\<rparr>"

definition VmConfig_validate :: "VmConfig \<Rightarrow> unit result" where
  "VmConfig_validate c =
     (if vm_vcpus c = 0 \<or> MAX_VCPUS < vm_vcpus c then Inl InvalidArgument
      else if vm_memory_mb c = 0 then Inl InvalidArgument
      else Inr ())"

definition VmConfig_memory_bytes :: "VmConfig \<Rightarrow> u64" where
  "VmConfig_memory_bytes c = vm_memory_mb c * 1024 * 1024"

record VmConfigBuilder =
  vcb_config :: VmConfig

definition VmConfigBuilder_new :: VmConfigBuilder where
  "VmConfigBuilder_new = \<lparr>vcb_config = VmConfig_default\<rparr>"

definition VmConfig_builder :: VmConfigBuilder where
  "VmConfig_builder = VmConfigBuilder_new"

definition VmConfigBuilder_vcpus :: "VmConfigBuilder \<Rightarrow> u32 \<Rightarrow> VmConfigBuilder" where
  "VmConfigBuilder_vcpus b n = b\<lparr>vcb_config := (vcb_config b)\<lparr>vm_vcpus := n\<rparr>\<rparr>"

definition VmConfigBuilder_memory_mb :: "VmConfigBuilder \<Rightarrow> u64 \<Rightarrow> VmConfigBuilder" where
  "VmConfigBuilder_memory_mb b mb = b\<lparr>vcb_config := (vcb_config b)\<lparr>vm_memory_mb := mb\<rparr>\<rparr>"

definition VmConfigBuilder_kernel_path :: "VmConfigBuilder \<Rightarrow> path \<Rightarrow> VmConfigBuilder" where
  "VmConfigBuilder_kernel_path b p = b\<lparr>vcb_config := (vcb_config b)\<lparr>vm_kernel_path := Some p\<rparr>\<rparr>"

definition VmConfigBuilder_kernel_cmdline :: "VmConfigBuilder \<Rightarrow> bytes \<Rightarrow> VmConfigBuilder" where
  "VmConfigBuilder_kernel_cmdline b l = b\<lparr>vcb_config := (vcb_config b)\<lparr>vm_kernel_cmdline := Some l\<rparr>\<rparr>"

definition VmConfigBuilder_initrd_path :: "VmConfigBuilder \<Rightarrow> path \<Rightarrow> VmConfigBuilder" where
  "VmConfigBuilder_initrd_path b p = b\<lparr>vcb_config := (vcb_config b)\<lparr>vm_initrd_path := Some p\<rparr>\<rparr>"

definition VmConfigBuilder_enable_kvm :: "VmConfigBuilder \<Rightarrow> bool \<Rightarrow> VmConfigBuilder" where
  "VmConfigBuilder_enable_kvm b e = b\<lparr>vcb_config := (vcb_config b)\<lparr>vm_enable_kvm := e\<rparr>\<rparr>"

definition VmConfigBuilder_vsock_path :: "VmConfigBuilder \<Rightarrow> path \<Rightarrow> VmConfigBuilder" where
  "VmConfigBuilder_vsock_path b p = b\<lparr>vcb_config := (vcb_config b)\<lparr>vm_vsock_path := Some p\<rparr>\<rparr>"

definition VmConfigBuilder_build :: "VmConfigBuilder \<Rightarrow> VmConfig result" where
  "VmConfigBuilder_build b =
     (case VmConfig_validate (vcb_config b) of Inl e \<Rightarrow> Inl e | Inr _ \<Rightarrow> Inr (vcb_config b))"

section \<open>Exit reasons and memory regions\<close>

section \<open>Registers\<close>

record VcpuRegs =
  rg_rax :: u64
  rg_rbx :: u64
  rg_rcx :: u64
  rg_rdx :: u64
  rg_rsi :: u64
  rg_rdi :: u64
  rg_rsp :: u64
  rg_rbp :: u64
  rg_r8 :: u64
  rg_r9 :: u64
  rg_r10 :: u64
  rg_r11 :: u64
  rg_r12 :: u64
  rg_r13 :: u64
  rg_r14 :: u64
  rg_r15 :: u64
  rg_rip :: u64
  rg_rflags :: u64

definition VcpuRegs_default :: VcpuRegs where
  "VcpuRegs_default =
     \<lparr>rg_rax = 0, rg_rbx = 0, rg_rcx = 0, rg_rdx = 0, rg_rsi = 0, rg_rdi = 0, rg_rsp = 0,
      rg_rbp = 0, rg_r8 = 0, rg_r9 = 0, rg_r10 = 0, rg_r11 = 0, rg_r12 = 0, rg_r13 = 0,
      rg_r14 = 0, rg_r15 = 0, rg_rip = 0, rg_rflags = 0\<rparr>"

record Segment =
  sg_base :: u64
  sg_limit :: u32
  sg_selector :: u16
  sg_type :: u8
  sg_present :: u8
  sg_dpl :: u8
  sg_db :: u8
  sg_s :: u8
  sg_l :: u8
  sg_g :: u8
  sg_avl :: u8
  sg_unusable :: u8
  sg_padding :: u8

definition Segment_default :: Segment where
  "Segment_default =
     \<lparr>sg_base = 0, sg_limit = 0, sg_selector = 0, sg_type = 0, sg_present = 0, sg_dpl = 0,
      sg_db = 0, sg_s = 0, sg_l = 0, sg_g = 0, sg_avl = 0, sg_unusable = 0, sg_padding = 0\<rparr>"

record Dtable =
  dt_base :: u64
  dt_limit :: u16
  dt_padding :: "u16 list"

definition Dtable_default :: Dtable where
  "Dtable_default =
     \<lparr>dt_base = 0, dt_limit = 0, dt_padding = replicate 3 0\<rparr>"

record VcpuSregs =
  sr_cs :: Segment
  sr_ds :: Segment
  sr_es :: Segment
  sr_fs :: Segment
  sr_gs :: Segment
  sr_ss :: Segment
  sr_tr :: Segment
  sr_ldt :: Segment
  sr_gdt :: Dtable
  sr_idt :: Dtable
  sr_cr0 :: u64
  sr_cr2 :: u64
  sr_cr3 :: u64
  sr_cr4 :: u64
  sr_cr8 :: u64
  sr_efer :: u64
  sr_apic_base :: u64
  sr_interrupt_bitmap :: "u64 list"

definition VcpuSregs_default :: VcpuSregs where
  "VcpuSregs_default =
     \<lparr>sr_cs = Segment_default, sr_ds = Segment_default, sr_es = Segment_default,
      sr_fs = Segment_default, sr_gs = Segment_default, sr_ss = Segment_default,
      sr_tr = Segment_default, sr_ldt = Segment_default, sr_gdt = Dtable_default,
      sr_idt = Dtable_default, sr_cr0 = 0, sr_cr2 = 0, sr_cr3 = 0, sr_cr4 = 0, sr_cr8 = 0,
      sr_efer = 0, sr_apic_base = 0, sr_interrupt_bitmap = replicate 4 0\<rparr>"

section \<open>Exit reasons and memory\<close>

datatype ExitReason =
    UnknownExit | ExceptionExit | ExternalInterrupt | TripleFault | InitExit | Sipi | IoExit | Halt
  | Cpuid | Hlt | Mmio | Hypercall | InternalError | ShutdownExit | SystemEvent

fun ExitReason_as_u32 :: "ExitReason \<Rightarrow> u32" where
  "ExitReason_as_u32 UnknownExit = 0"
| "ExitReason_as_u32 ExceptionExit = 1"
| "ExitReason_as_u32 ExternalInterrupt = 2"
| "ExitReason_as_u32 TripleFault = 3"
| "ExitReason_as_u32 InitExit = 4"
| "ExitReason_as_u32 Sipi = 5"
| "ExitReason_as_u32 IoExit = 6"
| "ExitReason_as_u32 Halt = 7"
| "ExitReason_as_u32 Cpuid = 8"
| "ExitReason_as_u32 Hlt = 9"
| "ExitReason_as_u32 Mmio = 10"
| "ExitReason_as_u32 Hypercall = 11"
| "ExitReason_as_u32 InternalError = 12"
| "ExitReason_as_u32 ShutdownExit = 13"
| "ExitReason_as_u32 SystemEvent = 14"

definition ExitReason_from :: "u32 \<Rightarrow> ExitReason" where
  "ExitReason_from v =
     (if v = 1 then ExceptionExit else if v = 2 then ExternalInterrupt else if v = 3 then TripleFault
      else if v = 4 then InitExit else if v = 5 then Sipi else if v = 6 then IoExit
      else if v = 7 then Halt else if v = 8 then Cpuid else if v = 9 then Hlt else if v = 10 then Mmio
      else if v = 11 then Hypercall else if v = 12 then InternalError else if v = 13 then ShutdownExit
      else if v = 14 then SystemEvent else UnknownExit)"

record VmMemoryRegion =
  mr_slot :: u32
  mr_guest_phys_addr :: u64
  mr_memory_size :: u64
  mr_userspace_addr :: u64
  mr_flags :: u32

definition VmMemoryRegion_new :: "u32 \<Rightarrow> u64 \<Rightarrow> u64 \<Rightarrow> u64 \<Rightarrow> VmMemoryRegion" where
  "VmMemoryRegion_new slot_no gpa sz uaddr =
     \<lparr>mr_slot = slot_no, mr_guest_phys_addr = gpa, mr_memory_size = sz, mr_userspace_addr = uaddr, mr_flags = 0\<rparr>"

definition VmMemoryRegion_readonly :: "VmMemoryRegion \<Rightarrow> VmMemoryRegion" where
  "VmMemoryRegion_readonly r = r\<lparr>mr_flags := mr_flags r OR 1\<rparr>"

section \<open>vCPUs\<close>

record Vcpu =
  vcpu_id :: u32
  vcpu_fd :: i32
  vcpu_running :: bool

definition Vcpu_new :: "u32 \<Rightarrow> Vcpu result" where
  "Vcpu_new i = Inr \<lparr>vcpu_id = i, vcpu_fd = - 1, vcpu_running = False\<rparr>"

definition Vcpu_is_running :: "Vcpu \<Rightarrow> bool" where
  "Vcpu_is_running v = vcpu_running v"

definition Vcpu_id :: "Vcpu \<Rightarrow> u32" where
  "Vcpu_id v = vcpu_id v"

text \<open>The register accessors of the mock: reads give zeroed registers, writes are accepted and dropped.\<close>

definition Vcpu_get_regs :: "Vcpu \<Rightarrow> VcpuRegs result" where
  "Vcpu_get_regs v = Inr VcpuRegs_default"

definition Vcpu_set_regs :: "Vcpu \<Rightarrow> VcpuRegs \<Rightarrow> unit result \<times> Vcpu" where
  "Vcpu_set_regs v regs = (Inr (), v)"

definition Vcpu_get_sregs :: "Vcpu \<Rightarrow> VcpuSregs result" where
  "Vcpu_get_sregs v = Inr VcpuSregs_default"

definition Vcpu_set_sregs :: "Vcpu \<Rightarrow> VcpuSregs \<Rightarrow> unit result \<times> Vcpu" where
  "Vcpu_set_sregs v sregs = (Inr (), v)"

definition Vcpu_run :: "Vcpu \<Rightarrow> ExitReason result \<times> Vcpu" where
  "Vcpu_run v = (let v1 = v\<lparr>vcpu_running := True\<rparr> in (Inr Halt, v1\<lparr>vcpu_running := False\<rparr>))"

section \<open>The micro-VM\<close>

record MicroVm =
  mv_config :: VmConfig
  mv_state :: "VmState lock"
  mv_vcpus :: "Vcpu list"
  mv_memory_size :: u64
  mv_regions :: "VmMemoryRegion list"
  mv_exit_count :: u64

text \<open>The loop \<^verbatim>\<open>for i in 0..config.vcpus\<close> that creates the vCPUs.\<close>

fun create_vcpus :: "nat list \<Rightarrow> Vcpu list \<Rightarrow> Vcpu list result" where
  "create_vcpus [] vcpus = Inr vcpus"
| "create_vcpus (i # is) vcpus =
     (case Vcpu_new (word_of_nat i) of Inl e \<Rightarrow> Inl e | Inr v \<Rightarrow> create_vcpus is (vcpus @ [v]))"

definition MicroVm_create :: "VmConfig \<Rightarrow> MicroVm result" where
  "MicroVm_create config =
     (case VmConfig_validate config of
        Inl e \<Rightarrow> Inl e
      | Inr _ \<Rightarrow>
          (case create_vcpus [0..<unat (vm_vcpus config)] [] of
             Inl e \<Rightarrow> Inl e
           | Inr vcpus \<Rightarrow>
               Inr \<lparr>mv_config = config, mv_state = new_lock Created, mv_vcpus = vcpus,
                    mv_memory_size = VmConfig_memory_bytes config, mv_regions = [], mv_exit_count = 0\<rparr>))"

definition MicroVm_state :: "MicroVm \<Rightarrow> VmState exec" where
  "MicroVm_state vm = (if poisoned (mv_state vm) then Panic else Done (contents (mv_state vm)))"

definition MicroVm_config :: "MicroVm \<Rightarrow> VmConfig" where
  "MicroVm_config vm = mv_config vm"

definition MicroVm_vcpu_count :: "MicroVm \<Rightarrow> nat" where
  "MicroVm_vcpu_count vm = length (mv_vcpus vm)"

definition MicroVm_memory_size :: "MicroVm \<Rightarrow> u64" where
  "MicroVm_memory_size vm = mv_memory_size vm"

definition MicroVm_add_memory_region :: "MicroVm \<Rightarrow> VmMemoryRegion \<Rightarrow> unit result \<times> MicroVm" where
  "MicroVm_add_memory_region vm region =
     (if unat MAX_MEMORY_SLOTS \<le> length (mv_regions vm) then (Inl OutOfMemory, vm)
      else (Inr (), vm\<lparr>mv_regions := mv_regions vm @ [region]\<rparr>))"

definition set_state :: "MicroVm \<Rightarrow> VmState \<Rightarrow> MicroVm" where
  "set_state vm s = vm\<lparr>mv_state := (mv_state vm)\<lparr>contents := s\<rparr>\<rparr>"

text \<open>The first critical section of \<^verbatim>\<open>run\<close>.\<close>

definition run_enter :: "MicroVm \<Rightarrow> unit result \<times> MicroVm" where
  "run_enter vm =
     (if poisoned (mv_state vm) then (Inl ResourceBusy, vm)
      else if \<not> VmState_can_start (contents (mv_state vm)) then (Inl InvalidRequest, vm)
      else (Inr (), set_state vm VmRunning))"

text \<open>Running the first vCPU and counting the exit.\<close>

definition run_first_vcpu :: "MicroVm \<Rightarrow> ExitReason result \<times> MicroVm" where
  "run_first_vcpu vm =
     (case mv_vcpus vm of
        [] \<Rightarrow> (Inr Halt, vm\<lparr>mv_exit_count := mv_exit_count vm + 1\<rparr>)
      | v # vs \<Rightarrow>
          (case Vcpu_run v of
             (Inl e, v') \<Rightarrow> (Inl e, vm\<lparr>mv_vcpus := v' # vs\<rparr>)
           | (Inr exit, v') \<Rightarrow> (Inr exit, vm\<lparr>mv_vcpus := v' # vs, mv_exit_count := mv_exit_count vm + 1\<rparr>)))"

text \<open>The second critical section.\<close>

definition run_leave :: "MicroVm \<Rightarrow> unit result \<times> MicroVm" where
  "run_leave vm =
     (if poisoned (mv_state vm) then (Inl ResourceBusy, vm) else (Inr (), set_state vm Stopped))"

definition MicroVm_run :: "MicroVm \<Rightarrow> ExitReason result \<times> MicroVm" where
  "MicroVm_run vm =
     (case run_enter vm of
        (Inl e, vm1) \<Rightarrow> (Inl e, vm1)
      | (Inr _, vm1) \<Rightarrow>
          (case run_first_vcpu vm1 of
             (Inl e, vm2) \<Rightarrow> (Inl e, vm2)
           | (Inr exit, vm2) \<Rightarrow>
               (case run_leave vm2 of (Inl e, vm3) \<Rightarrow> (Inl e, vm3) | (Inr _, vm3) \<Rightarrow> (Inr exit, vm3))))"

definition MicroVm_pause :: "MicroVm \<Rightarrow> unit result \<times> MicroVm" where
  "MicroVm_pause vm =
     (if poisoned (mv_state vm) then (Inl ResourceBusy, vm)
      else if contents (mv_state vm) \<noteq> VmRunning then (Inl InvalidRequest, vm)
      else (Inr (), set_state vm Paused))"

definition MicroVm_resume :: "MicroVm \<Rightarrow> unit result \<times> MicroVm" where
  "MicroVm_resume vm =
     (if poisoned (mv_state vm) then (Inl ResourceBusy, vm)
      else if contents (mv_state vm) \<noteq> Paused then (Inl InvalidRequest, vm)
      else (Inr (), set_state vm VmRunning))"

definition MicroVm_stop :: "MicroVm \<Rightarrow> unit result \<times> MicroVm" where
  "MicroVm_stop vm =
     (if poisoned (mv_state vm) then (Inl ResourceBusy, vm) else (Inr (), set_state vm Stopped))"

definition MicroVm_exit_count :: "MicroVm \<Rightarrow> u64" where
  "MicroVm_exit_count vm = mv_exit_count vm"

section \<open>The jailer\<close>

record JailerConfig =
  jc_chroot_dir :: "path option"
  jc_uid :: "u32 option"
  jc_gid :: "u32 option"
  jc_seccomp :: bool
  jc_netns :: bool
  jc_cpuset :: "bytes option"
  jc_memory_limit :: "u64 option"

definition JailerConfig_minimal :: JailerConfig where
  "JailerConfig_minimal =
     \<lparr>jc_chroot_dir = Some (map of_char ''/srv/jailer''), jc_uid = Some 65534, jc_gid = Some 65534,
      jc_seccomp = True, jc_netns = True, jc_cpuset = None, jc_memory_limit = Some (256 * 1024 * 1024)\<rparr>"

definition JailerConfig_production :: "path \<Rightarrow> JailerConfig" where
  "JailerConfig_production chroot =
     \<lparr>jc_chroot_dir = Some chroot, jc_uid = Some 65534, jc_gid = Some 65534, jc_seccomp = True,
      jc_netns = True, jc_cpuset = None, jc_memory_limit = None\<rparr>"

record Jailer =
  ja_config :: JailerConfig
  ja_active :: bool

definition Jailer_new :: "JailerConfig \<Rightarrow> Jailer" where
  "Jailer_new config = \<lparr>ja_config = config, ja_active = False\<rparr>"

definition Jailer_config :: "Jailer \<Rightarrow> JailerConfig" where
  "Jailer_config j = ja_config j"

definition Jailer_is_active :: "Jailer \<Rightarrow> bool" where
  "Jailer_is_active j = ja_active j"

definition Jailer_enter :: "Jailer \<Rightarrow> unit result \<times> Jailer" where
  "Jailer_enter j = (Inr (), j\<lparr>ja_active := True\<rparr>)"

definition Jailer_exit :: "Jailer \<Rightarrow> unit result \<times> Jailer" where
  "Jailer_exit j = (Inr (), j\<lparr>ja_active := False\<rparr>)"

end
