(* ===== verification/Pepita_Vm_Lifecycle.thy ===== *)
theory Pepita_Vm_Lifecycle
  imports Pepita_Vmm
begin

text \<open>
  The lifecycle of a micro-VM under interleaved calls.  A thread that calls \<^verbatim>\<open>run\<close> passes its first
  critical section, runs the vCPU, and passes its second one; calls of other threads may fall between
  them.  The system is a virtual machine with the number of threads inside \<^verbatim>\<open>run\<close>.
\<close>

inductive vm_step :: "MicroVm \<times> nat \<Rightarrow> MicroVm \<times> nat \<Rightarrow> bool" where
  run_enter: "run_enter vm = (Inr (), vm') \<Longrightarrow> vm_step (vm, k) (vm', Suc k)"
| run_leave: "run_first_vcpu vm = (Inr exit, vm1) \<Longrightarrow> run_leave vm1 = (Inr (), vm') \<Longrightarrow> vm_step (vm, Suc k) (vm', k)"
| pause: "MicroVm_pause vm = (r, vm') \<Longrightarrow> vm_step (vm, k) (vm', k)"
| resume: "MicroVm_resume vm = (r, vm') \<Longrightarrow> vm_step (vm, k) (vm', k)"
| stop: "MicroVm_stop vm = (r, vm') \<Longrightarrow> vm_step (vm, k) (vm', k)"
| add_region: "MicroVm_add_memory_region vm g = (r, vm') \<Longrightarrow> vm_step (vm, k) (vm', k)"

inductive_cases vm_step_cases: "vm_step s t"

lemmas vm_defs = run_enter_def run_leave_def MicroVm_pause_def MicroVm_resume_def MicroVm_stop_def
  MicroVm_add_memory_region_def set_state_def VmState_can_start_def VmState_is_active_def

definition vm_state_of :: "MicroVm \<Rightarrow> VmState" where
  "vm_state_of vm = contents (mv_state vm)"

fun vm_init :: "MicroVm \<times> nat \<Rightarrow> bool" where
  "vm_init (vm, k) \<longleftrightarrow> k = 0 \<and> (\<exists>c. MicroVm_create c = Inr vm)"

text \<open>The state lock is never poisoned, the machine is active only inside \<^verbatim>\<open>run\<close>, and at most 32 regions exist.\<close>

fun vm_inv :: "MicroVm \<times> nat \<Rightarrow> bool" where
  "vm_inv (vm, k) \<longleftrightarrow> \<not> poisoned (mv_state vm) \<and> vm_state_of vm \<noteq> VmError
     \<and> (VmState_is_active (vm_state_of vm) \<longrightarrow> 0 < k) \<and> (vm_state_of vm = Created \<longrightarrow> k = 0)
     \<and> length (mv_regions vm) \<le> 32"

lemma run_first_vcpu_keeps:
  "run_first_vcpu vm = (r, vm') \<Longrightarrow> mv_state vm' = mv_state vm \<and> mv_regions vm' = mv_regions vm"
  by (auto simp: run_first_vcpu_def Vcpu_run_def Let_def split: list.splits)

lemma create_vcpus_ids:
  "create_vcpus is vcpus = Inr (vcpus @ map (\<lambda>i. \<lparr>vcpu_id = word_of_nat i, vcpu_fd = - 1, vcpu_running = False\<rparr>) is)"
  by (induction "is" arbitrary: vcpus) (simp_all add: Vcpu_new_def)

interpretation vm: step_system vm_init vm_step vm_inv
proof
  fix s assume "vm_init s"
  then show "vm_inv s"
    by (cases s) (auto simp: MicroVm_create_def VmConfig_validate_def create_vcpus_ids vm_state_of_def
        VmState_is_active_def split: sum.splits if_splits)
next
  fix s t assume inv: "vm_inv s" and "vm_step s t"
  from this(2) show "vm_inv t"
  proof cases
    case (run_leave vm exit vm1 vm' k)
    then show ?thesis
      using inv run_first_vcpu_keeps [OF run_leave(3)]
      by (auto simp: vm_defs vm_state_of_def split: if_splits)
  qed (use inv in \<open>auto simp: vm_defs vm_state_of_def MAX_MEMORY_SLOTS_def split: if_splits VmState.splits\<close>)
qed

text \<open>No step leaves the state \<open>Stopped\<close>.\<close>

lemma stopped_step: "vm_step s t \<Longrightarrow> vm_state_of (fst s) = Stopped \<Longrightarrow> vm_state_of (fst t) = Stopped"
  by (induction rule: vm_step.induct)
     (auto simp: vm_defs vm_state_of_def dest: run_first_vcpu_keeps split: if_splits)

lemma stopped_steps: "vm_step\<^sup>*\<^sup>* s t \<Longrightarrow> vm_state_of (fst s) = Stopped \<Longrightarrow> vm_state_of (fst t) = Stopped"
  by (induction rule: rtranclp_induct) (auto dest: stopped_step)

lemma exit_reason_roundtrip: "ExitReason_from (ExitReason_as_u32 r) = r"
  by (cases r) (simp_all add: ExitReason_from_def)

section \<open>Properties\<close>

text \<open>Creating a machine. Creation succeeds exactly for 1 to 254 vCPUs and a non-zero memory size, and
  otherwise reports \<open>InvalidArgument\<close>; the new machine is in the state Created, its vCPUs are numbered
  from 0, and its memory size in bytes is the configured one modulo \<open>2 ^ 64\<close>, which is 0 for \<open>2 ^ 44\<close>
  megabytes.\<close>

theorem vm_create_outcome:
  "MicroVm_create c =
     (if 1 \<le> unat (vm_vcpus c) \<and> unat (vm_vcpus c) \<le> 254 \<and> vm_memory_mb c \<noteq> 0
      then Inr \<lparr>mv_config = c, mv_state = new_lock Created,
             mv_vcpus = map (\<lambda>i. \<lparr>vcpu_id = word_of_nat i, vcpu_fd = - 1, vcpu_running = False\<rparr>) [0..<unat (vm_vcpus c)],
             mv_memory_size = word_of_nat (unat (vm_memory_mb c) * 2 ^ 20), mv_regions = [], mv_exit_count = 0\<rparr>
      else Inl InvalidArgument)"
proof -
  have "vm_memory_mb c * 1024 * 1024 = word_of_nat (unat (vm_memory_mb c) * 2 ^ 20)"
    by (simp add: mult.assoc)
  moreover have "vm_vcpus c = 0 \<longleftrightarrow> \<not> 1 \<le> unat (vm_vcpus c)" "MAX_VCPUS < vm_vcpus c \<longleftrightarrow> \<not> unat (vm_vcpus c) \<le> 254"
    by (auto simp: word_unat_eq_iff MAX_VCPUS_def word_less_nat_alt)
  ultimately show ?thesis
    by (simp add: MicroVm_create_def VmConfig_validate_def create_vcpus_ids VmConfig_memory_bytes_def del: One_nat_def)
qed

text \<open>C12: The lifecycle. In every state reachable by interleaved calls of any number of threads, the machine
  is running or paused only while some thread is inside \<open>run\<close>, it is never in the error state, and it
  has at most 32 memory regions; and once it is stopped it stays stopped, whatever is called.\<close>

theorem vm_lifecycle:
  assumes "MicroVm_create c = Inr vm0" and "vm_step\<^sup>*\<^sup>* (vm0, 0) (vm, k)"
  shows "(VmState_is_active (vm_state_of vm) \<longrightarrow> 0 < k) \<and> vm_state_of vm \<noteq> VmError \<and> length (mv_regions vm) \<le> 32
     \<and> (vm_state_of vm = Stopped \<and> vm_step\<^sup>*\<^sup>* (vm, k) (vm', k') \<longrightarrow> vm_state_of vm' = Stopped)"
  using vm.inv_reachable [OF _ assms(2)] assms(1) stopped_steps [of "(vm, k)" "(vm', k')"] by auto

definition sample_vm :: MicroVm where
  "sample_vm = \<lparr>mv_config = VmConfig_default, mv_state = new_lock Created,
     mv_vcpus = [\<lparr>vcpu_id = 0, vcpu_fd = - 1, vcpu_running = False\<rparr>],
     mv_memory_size = 128 * 1024 * 1024, mv_regions = [], mv_exit_count = 0\<rparr>"

lemma sample_vm_created: "MicroVm_create VmConfig_default = Inr sample_vm"
  by (simp add: sample_vm_def MicroVm_create_def VmConfig_validate_def VmConfig_default_def MAX_VCPUS_def
      Vcpu_new_def VmConfig_memory_bytes_def)

lemma sample_vm_paused:
  "vm_step\<^sup>*\<^sup>* (sample_vm, 0) (set_state (set_state sample_vm VmRunning) Paused, 1)"
proof -
  have "vm_step (sample_vm, 0) (set_state sample_vm VmRunning, Suc 0)"
    by (rule vm_step.run_enter) (simp add: run_enter_def sample_vm_def VmState_can_start_def)
  moreover have "vm_step (set_state sample_vm VmRunning, Suc 0) (set_state (set_state sample_vm VmRunning) Paused, Suc 0)"
    by (rule vm_step.pause) (simp add: MicroVm_pause_def sample_vm_def set_state_def)
  ultimately show ?thesis by (simp add: r_into_rtranclp rtranclp.rtrancl_into_rtrancl)
qed

theorem vm_lifecycle_witness:
  "VmState_is_active (vm_state_of (set_state (set_state sample_vm VmRunning) Paused)) \<and> (0 :: nat) < 1
   \<and> vm_state_of (set_state (set_state sample_vm VmRunning) Paused) \<noteq> VmError"
  using vm_lifecycle [OF sample_vm_created sample_vm_paused]
  by (simp add: vm_state_of_def set_state_def VmState_is_active_def)

text \<open>C35: Pausing works only during \<open>run\<close>, and not for long. In every reachable state in which no thread is
  inside \<open>run\<close>, pausing and resuming fail with \<open>InvalidRequest\<close> and change nothing, and \<open>run\<close> succeeds
  exactly on a machine that was never run or stopped; and when the thread inside \<open>run\<close> leaves it, the
  machine is stopped even if another thread has paused it meanwhile, so it can never be resumed.\<close>

theorem vm_pause_only_while_running:
  assumes "MicroVm_create c = Inr vm0" and "vm_step\<^sup>*\<^sup>* (vm0, 0) (vm, k)"
  shows "(k = 0 \<longrightarrow> MicroVm_pause vm = (Inl InvalidRequest, vm) \<and> MicroVm_resume vm = (Inl InvalidRequest, vm)
            \<and> fst (MicroVm_run vm) = (if vm_state_of vm = Created then Inr Halt else Inl InvalidRequest))
     \<and> (vm_step (vm, Suc k') (vm', k') \<longrightarrow> vm_state_of vm' = Stopped \<and> fst (MicroVm_resume vm') = Inl InvalidRequest)"
proof (intro conjI impI)
  have inv: "vm_inv (vm, k)" using vm.inv_reachable [OF _ assms(2)] assms(1) by auto
  {
    assume "k = 0"
    with inv have "\<not> poisoned (mv_state vm)" "vm_state_of vm = Created \<or> vm_state_of vm = Stopped"
      by (auto simp: VmState_is_active_def split: VmState.splits)
    then show "MicroVm_pause vm = (Inl InvalidRequest, vm)" "MicroVm_resume vm = (Inl InvalidRequest, vm)"
      "fst (MicroVm_run vm) = (if vm_state_of vm = Created then Inr Halt else Inl InvalidRequest)"
      by (auto simp: vm_state_of_def vm_defs MicroVm_run_def run_first_vcpu_def Vcpu_run_def Let_def split: list.splits)
  }
  {
    assume "vm_step (vm, Suc k') (vm', k')"
    then obtain exit vm1 where "run_first_vcpu vm = (Inr exit, vm1)" "run_leave vm1 = (Inr (), vm')"
      by (auto elim: vm_step_cases)
    then show "vm_state_of vm' = Stopped" "fst (MicroVm_resume vm') = Inl InvalidRequest"
      by (auto simp: vm_state_of_def vm_defs split: if_splits)
  }
qed

theorem vm_pause_only_while_running_witness:
  "MicroVm_pause sample_vm = (Inl InvalidRequest, sample_vm) \<and> fst (MicroVm_run sample_vm) = Inr Halt"
  using vm_pause_only_while_running [OF sample_vm_created rtranclp.rtrancl_refl]
  by (simp add: vm_state_of_def sample_vm_def)

end
