(* ===== verification/Pepita_Memory.thy ===== *)
theory Pepita_Memory
  imports Pepita_Error
begin

text \<open>
  Addresses, page frames, DMA buffers and flags of \<^verbatim>\<open>src/src/memory.rs\<close>.  All arithmetic is on 64-bit words and wraps, as
  \<^verbatim>\<open>page_align_up\<close> does near the end of the address space.  The interface \<open>page_address\<close> is shared by
  physical and virtual addresses, the interface \<open>flag\<close> by every flag type of the library.
\<close>

section \<open>Addresses and page frames\<close>

definition PAGE_BYTES :: u64 where
  "PAGE_BYTES = 4096"

definition PAGE_SHIFT :: nat where
  "PAGE_SHIFT = 12"

definition PAGE_MASK :: u64 where
  "PAGE_MASK = NOT (PAGE_BYTES - 1)"

datatype PhysAddr = PhysAddr u64

definition PhysAddr_new :: "u64 \<Rightarrow> PhysAddr" where
  "PhysAddr_new addr = PhysAddr addr"

definition PhysAddr_null :: PhysAddr where
  "PhysAddr_null = PhysAddr 0"

fun PhysAddr_as_u64 :: "PhysAddr \<Rightarrow> u64" where
  "PhysAddr_as_u64 (PhysAddr a) = a"

definition PhysAddr_is_null :: "PhysAddr \<Rightarrow> bool" where
  "PhysAddr_is_null p \<longleftrightarrow> PhysAddr_as_u64 p = 0"

definition PhysAddr_is_page_aligned :: "PhysAddr \<Rightarrow> bool" where
  "PhysAddr_is_page_aligned p \<longleftrightarrow> PhysAddr_as_u64 p AND (PAGE_BYTES - 1) = 0"

definition PhysAddr_page_align_down :: "PhysAddr \<Rightarrow> PhysAddr" where
  "PhysAddr_page_align_down p = PhysAddr (PhysAddr_as_u64 p AND PAGE_MASK)"

definition PhysAddr_page_align_up :: "PhysAddr \<Rightarrow> PhysAddr" where
  "PhysAddr_page_align_up p = PhysAddr ((PhysAddr_as_u64 p + PAGE_BYTES - 1) AND PAGE_MASK)"

definition PhysAddr_page_offset :: "PhysAddr \<Rightarrow> usize" where
  "PhysAddr_page_offset p = PhysAddr_as_u64 p AND (PAGE_BYTES - 1)"

definition PhysAddr_add :: "PhysAddr \<Rightarrow> u64 \<Rightarrow> PhysAddr" where
  "PhysAddr_add p offset = PhysAddr (PhysAddr_as_u64 p + offset)"

definition PhysAddr_sub :: "PhysAddr \<Rightarrow> u64 \<Rightarrow> PhysAddr" where
  "PhysAddr_sub p offset = PhysAddr (PhysAddr_as_u64 p - offset)"

definition PhysAddr_is_in_range :: "PhysAddr \<Rightarrow> PhysAddr \<Rightarrow> PhysAddr \<Rightarrow> bool" where
  "PhysAddr_is_in_range p lo hi \<longleftrightarrow>
     PhysAddr_as_u64 lo \<le> PhysAddr_as_u64 p \<and> PhysAddr_as_u64 p < PhysAddr_as_u64 hi"

datatype VirtAddr = VirtAddr u64

definition VirtAddr_new :: "u64 \<Rightarrow> VirtAddr" where
  "VirtAddr_new addr = VirtAddr addr"

text \<open>A pointer is its address.\<close>

definition VirtAddr_from_ptr :: "u64 \<Rightarrow> VirtAddr" where
  "VirtAddr_from_ptr ptr = VirtAddr ptr"

definition VirtAddr_null :: VirtAddr where
  "VirtAddr_null = VirtAddr 0"

fun VirtAddr_as_u64 :: "VirtAddr \<Rightarrow> u64" where
  "VirtAddr_as_u64 (VirtAddr a) = a"

definition VirtAddr_is_null :: "VirtAddr \<Rightarrow> bool" where
  "VirtAddr_is_null p \<longleftrightarrow> VirtAddr_as_u64 p = 0"

definition VirtAddr_is_page_aligned :: "VirtAddr \<Rightarrow> bool" where
  "VirtAddr_is_page_aligned p \<longleftrightarrow> VirtAddr_as_u64 p AND (PAGE_BYTES - 1) = 0"

definition VirtAddr_page_align_down :: "VirtAddr \<Rightarrow> VirtAddr" where
  "VirtAddr_page_align_down p = VirtAddr (VirtAddr_as_u64 p AND PAGE_MASK)"

definition VirtAddr_page_align_up :: "VirtAddr \<Rightarrow> VirtAddr" where
  "VirtAddr_page_align_up p = VirtAddr ((VirtAddr_as_u64 p + PAGE_BYTES - 1) AND PAGE_MASK)"

definition VirtAddr_page_offset :: "VirtAddr \<Rightarrow> usize" where
  "VirtAddr_page_offset p = VirtAddr_as_u64 p AND (PAGE_BYTES - 1)"

definition VirtAddr_add :: "VirtAddr \<Rightarrow> u64 \<Rightarrow> VirtAddr" where
  "VirtAddr_add p offset = VirtAddr (VirtAddr_as_u64 p + offset)"

definition VirtAddr_sub :: "VirtAddr \<Rightarrow> u64 \<Rightarrow> VirtAddr" where
  "VirtAddr_sub p offset = VirtAddr (VirtAddr_as_u64 p - offset)"

datatype Pfn = Pfn u64

definition Pfn_new :: "u64 \<Rightarrow> Pfn" where
  "Pfn_new pfn = Pfn pfn"

definition Pfn_null :: Pfn where
  "Pfn_null = Pfn 0"

fun Pfn_as_u64 :: "Pfn \<Rightarrow> u64" where
  "Pfn_as_u64 (Pfn p) = p"

definition Pfn_from_addr :: "PhysAddr \<Rightarrow> Pfn" where
  "Pfn_from_addr addr = Pfn (drop_bit PAGE_SHIFT (PhysAddr_as_u64 addr))"

definition Pfn_to_addr :: "Pfn \<Rightarrow> PhysAddr" where
  "Pfn_to_addr p = PhysAddr_new (push_bit PAGE_SHIFT (Pfn_as_u64 p))"

definition Pfn_is_null :: "Pfn \<Rightarrow> bool" where
  "Pfn_is_null p \<longleftrightarrow> Pfn_as_u64 p = 0"

definition Pfn_add :: "Pfn \<Rightarrow> u64 \<Rightarrow> Pfn" where
  "Pfn_add p pages = Pfn (Pfn_as_u64 p + pages)"

definition Pfn_sub :: "Pfn \<Rightarrow> u64 \<Rightarrow> Pfn" where
  "Pfn_sub p pages = Pfn (Pfn_as_u64 p - pages)"

section \<open>DMA buffers\<close>

datatype DmaDirection = ToDevice | FromDevice | Bidirectional | NoDirection

definition DmaDirection_to_device :: "DmaDirection \<Rightarrow> bool" where
  "DmaDirection_to_device d \<longleftrightarrow> (case d of ToDevice \<Rightarrow> True | Bidirectional \<Rightarrow> True | _ \<Rightarrow> False)"

definition DmaDirection_from_device :: "DmaDirection \<Rightarrow> bool" where
  "DmaDirection_from_device d \<longleftrightarrow> (case d of FromDevice \<Rightarrow> True | Bidirectional \<Rightarrow> True | _ \<Rightarrow> False)"

record DmaBuffer =
  dma_phys :: PhysAddr
  dma_virt :: VirtAddr
  dma_size :: usize
  dma_direction :: DmaDirection

definition DmaBuffer_new :: "PhysAddr \<Rightarrow> VirtAddr \<Rightarrow> usize \<Rightarrow> DmaDirection \<Rightarrow> DmaBuffer" where
  "DmaBuffer_new p v n d = \<lparr>dma_phys = p, dma_virt = v, dma_size = n, dma_direction = d\<rparr>"

definition DmaBuffer_is_valid :: "DmaBuffer \<Rightarrow> bool" where
  "DmaBuffer_is_valid b \<longleftrightarrow> \<not> PhysAddr_is_null (dma_phys b) \<and> \<not> VirtAddr_is_null (dma_virt b) \<and> 0 < dma_size b"

definition DmaBuffer_is_page_aligned :: "DmaBuffer \<Rightarrow> bool" where
  "DmaBuffer_is_page_aligned b \<longleftrightarrow> PhysAddr_is_page_aligned (dma_phys b) \<and> VirtAddr_is_page_aligned (dma_virt b)"

definition DmaBuffer_page_count :: "DmaBuffer \<Rightarrow> usize" where
  "DmaBuffer_page_count b = (dma_size b + PAGE_BYTES - 1) div PAGE_BYTES"

section \<open>Flags\<close>

datatype AllocFlags = AllocFlags u32

fun alloc_bits :: "AllocFlags \<Rightarrow> u32" where
  "alloc_bits (AllocFlags f) = f"

definition AllocFlags_NONE :: AllocFlags where
  "AllocFlags_NONE = AllocFlags 0"

definition AllocFlags_WAIT :: AllocFlags where
  "AllocFlags_WAIT = AllocFlags (push_bit 0 1)"

definition AllocFlags_ZERO :: AllocFlags where
  "AllocFlags_ZERO = AllocFlags (push_bit 1 1)"

definition AllocFlags_DMA :: AllocFlags where
  "AllocFlags_DMA = AllocFlags (push_bit 2 1)"

definition AllocFlags_HIGHMEM :: AllocFlags where
  "AllocFlags_HIGHMEM = AllocFlags (push_bit 3 1)"

definition AllocFlags_new :: AllocFlags where
  "AllocFlags_new = AllocFlags_NONE"

definition AllocFlags_with_wait :: "AllocFlags \<Rightarrow> AllocFlags" where
  "AllocFlags_with_wait f = AllocFlags (alloc_bits f OR alloc_bits AllocFlags_WAIT)"

definition AllocFlags_with_zero :: "AllocFlags \<Rightarrow> AllocFlags" where
  "AllocFlags_with_zero f = AllocFlags (alloc_bits f OR alloc_bits AllocFlags_ZERO)"

definition AllocFlags_with_dma :: "AllocFlags \<Rightarrow> AllocFlags" where
  "AllocFlags_with_dma f = AllocFlags (alloc_bits f OR alloc_bits AllocFlags_DMA)"

definition AllocFlags_can_wait :: "AllocFlags \<Rightarrow> bool" where
  "AllocFlags_can_wait f \<longleftrightarrow> alloc_bits f AND alloc_bits AllocFlags_WAIT \<noteq> 0"

definition AllocFlags_should_zero :: "AllocFlags \<Rightarrow> bool" where
  "AllocFlags_should_zero f \<longleftrightarrow> alloc_bits f AND alloc_bits AllocFlags_ZERO \<noteq> 0"

definition AllocFlags_needs_dma :: "AllocFlags \<Rightarrow> bool" where
  "AllocFlags_needs_dma f \<longleftrightarrow> alloc_bits f AND alloc_bits AllocFlags_DMA \<noteq> 0"

datatype Protection = Protection u32

fun protection_bits :: "Protection \<Rightarrow> u32" where
  "protection_bits (Protection f) = f"

definition Protection_NONE :: Protection where
  "Protection_NONE = Protection 0"

definition Protection_READ :: Protection where
  "Protection_READ = Protection (push_bit 0 1)"

definition Protection_WRITE :: Protection where
  "Protection_WRITE = Protection (push_bit 1 1)"

definition Protection_EXEC :: Protection where
  "Protection_EXEC = Protection (push_bit 2 1)"

definition Protection_READ_WRITE :: Protection where
  "Protection_READ_WRITE = Protection (protection_bits Protection_READ OR protection_bits Protection_WRITE)"

definition Protection_is_readable :: "Protection \<Rightarrow> bool" where
  "Protection_is_readable f \<longleftrightarrow> protection_bits f AND protection_bits Protection_READ \<noteq> 0"

definition Protection_is_writable :: "Protection \<Rightarrow> bool" where
  "Protection_is_writable f \<longleftrightarrow> protection_bits f AND protection_bits Protection_WRITE \<noteq> 0"

definition Protection_is_executable :: "Protection \<Rightarrow> bool" where
  "Protection_is_executable f \<longleftrightarrow> protection_bits f AND protection_bits Protection_EXEC \<noteq> 0"

section \<open>The contract of page arithmetic\<close>

text \<open>The mask and the low bits as shifts; \<^verbatim>\<open>PAGE_MASK\<close> is the word \<open>- 4096\<close>.\<close>

lemma PAGE_MASK_value: "PAGE_MASK = - 4096"
  by (simp add: PAGE_MASK_def PAGE_BYTES_def)

lemma and_page_mask: "(a :: u64) AND - 4096 = push_bit 12 (drop_bit 12 a)"
proof -
  have m: "(- 4096 :: u64) = NOT (mask 12)" by (simp add: mask_eq_exp_minus_1)
  show ?thesis unfolding m by (rule bit_word_eqI) (auto simp only: bit_simps comp_apply not_less le_add_diff_inverse)
qed

lemma and_page_offset: "(a :: u64) AND 4095 = take_bit 12 a"
proof -
  have m: "(4095 :: u64) = mask 12" by (simp add: mask_eq_exp_minus_1)
  show ?thesis unfolding m by (simp only: take_bit_eq_mask)
qed

lemma unat_page_mask: "unat ((a :: u64) AND - 4096) = unat a div 4096 * 4096"
proof -
  have "unat a div 4096 * 4096 \<le> unat a" by (rule div_times_less_eq_dividend)
  then have "unat a div 4096 * 4096 < 2 ^ 64"
    using unat_bound [of a] by simp
  then show ?thesis
    unfolding and_page_mask
    by (simp add: push_bit_eq_mult unat_word_ariths unat_drop_bit_eq drop_bit_eq_div)
qed

lemma unat_page_offset: "unat ((a :: u64) AND 4095) = unat a mod 4096"
  unfolding and_page_offset unsigned_take_bit_eq by (simp add: take_bit_eq_mod unat_mod)

text \<open>Addresses of either kind, as a wrapper of 64-bit words.\<close>

locale page_address =
  fixes raw :: "'a \<Rightarrow> u64"
    and aligned :: "'a \<Rightarrow> bool"
    and down :: "'a \<Rightarrow> 'a"
    and up :: "'a \<Rightarrow> 'a"
    and offset :: "'a \<Rightarrow> u64"
  assumes aligned_raw: "aligned a \<longleftrightarrow> raw a AND 4095 = 0"
    and down_raw: "raw (down a) = raw a AND - 4096"
    and up_raw: "raw (up a) = (raw a + 4095) AND - 4096"
    and offset_raw: "offset a = raw a AND 4095"
begin

lemma aligned_iff: "aligned a \<longleftrightarrow> 4096 dvd unat (raw a)"
  by (simp add: aligned_raw word_unat_eq_iff unat_page_offset dvd_eq_mod_eq_0)

lemma down_value: "unat (raw (down a)) = unat (raw a) div 4096 * 4096"
  by (simp add: down_raw unat_page_mask)

lemma offset_value: "unat (offset a) = unat (raw a) mod 4096"
  by (simp add: offset_raw unat_page_offset)

lemma up_value: "unat (raw (up a)) = (unat (raw a) + 4095) div 4096 * 4096 mod 2 ^ 64"
proof (cases "unat (raw a) + 4095 < 2 ^ 64")
  case True
  then have "(unat (raw a) + 4095) div 4096 * 4096 < 2 ^ 64"
    by (simp add: le_less_trans [OF div_times_less_eq_dividend])
  with True show ?thesis by (simp add: up_raw unat_page_mask unat_word_ariths)
next
  case False
  have "unat (raw a) < 2 ^ 64" using unat_bound [of "raw a"] by simp
  with False have "unat (raw a + 4095) < 4096" "(unat (raw a) + 4095) div 4096 = 4503599627370496"
    by (auto simp: unat_word_ariths mod_if le_mod_geq)
  then show ?thesis by (simp add: up_raw unat_page_mask)
qed

lemma split: "raw a = raw (down a) + offset a"
  using unat_bound [of "raw a"] by (simp add: word_unat_eq_iff unat_word_ariths down_value offset_value)

end

interpretation phys: page_address PhysAddr_as_u64 PhysAddr_is_page_aligned PhysAddr_page_align_down
  PhysAddr_page_align_up PhysAddr_page_offset
  by unfold_locales (simp_all add: PhysAddr_is_page_aligned_def PhysAddr_page_align_down_def
      PhysAddr_page_align_up_def PhysAddr_page_offset_def PAGE_MASK_value PAGE_BYTES_def add_diff_eq [symmetric])

interpretation virt: page_address VirtAddr_as_u64 VirtAddr_is_page_aligned VirtAddr_page_align_down
  VirtAddr_page_align_up VirtAddr_page_offset
  by unfold_locales (simp_all add: VirtAddr_is_page_aligned_def VirtAddr_page_align_down_def
      VirtAddr_page_align_up_def VirtAddr_page_offset_def PAGE_MASK_value PAGE_BYTES_def add_diff_eq [symmetric])

section \<open>Page frames\<close>

lemma Pfn_to_from: "Pfn_to_addr (Pfn_from_addr a) = PhysAddr_page_align_down a"
  by (simp add: Pfn_to_addr_def Pfn_from_addr_def PhysAddr_new_def PhysAddr_page_align_down_def
      PAGE_MASK_value PAGE_SHIFT_def and_page_mask)

lemma Pfn_from_to:
  "Pfn_from_addr (Pfn_to_addr p) = p \<longleftrightarrow> unat (Pfn_as_u64 p) < 2 ^ 52"
proof (cases p)
  case (Pfn n)
  have "drop_bit 12 (push_bit 12 n) = take_bit 52 n"
    by (rule bit_word_eqI) (auto simp only: bit_simps comp_apply le_add1 add_diff_cancel_left' possible_bit_word, simp_all)
  then have "drop_bit 12 (push_bit 12 n) = n \<longleftrightarrow> take_bit 52 n = n" by simp
  also have "\<dots> \<longleftrightarrow> unat n < 2 ^ 52"
    by (simp add: word_unat_eq_iff unsigned_take_bit_eq take_bit_nat_eq_self_iff)
  finally show ?thesis
    by (simp add: Pfn Pfn_to_addr_def Pfn_from_addr_def PhysAddr_new_def PAGE_SHIFT_def)
qed

text \<open>C34: rounding a physical or virtual address is exact integer arithmetic on its value.
  \<^verbatim>\<open>page_align_down\<close> is the multiple of 4096 at or below the address, \<^verbatim>\<open>page_offset\<close> the
  remainder, \<^verbatim>\<open>is_page_aligned\<close> divisibility, and \<^verbatim>\<open>page_align_up\<close> the multiple at or above the
  address reduced modulo \<open>2 ^ 64\<close>: an address in the last page that is not aligned rounds up to 0.
  Going to a page frame and back is rounding down; a frame number survives the way through its
  address exactly when it is below \<open>2 ^ 52\<close>.\<close>

theorem page_rounding_exact:
  "unat (PhysAddr_as_u64 (PhysAddr_page_align_down a)) = unat (PhysAddr_as_u64 a) div 4096 * 4096
   \<and> unat (PhysAddr_page_offset a) = unat (PhysAddr_as_u64 a) mod 4096
   \<and> (PhysAddr_is_page_aligned a \<longleftrightarrow> 4096 dvd unat (PhysAddr_as_u64 a))
   \<and> unat (PhysAddr_as_u64 (PhysAddr_page_align_up a)) =
       (unat (PhysAddr_as_u64 a) + 4095) div 4096 * 4096 mod 2 ^ 64
   \<and> Pfn_to_addr (Pfn_from_addr a) = PhysAddr_page_align_down a
   \<and> (Pfn_from_addr (Pfn_to_addr p) = p \<longleftrightarrow> unat (Pfn_as_u64 p) < 2 ^ 52)
   \<and> unat (VirtAddr_as_u64 (VirtAddr_page_align_down v)) = unat (VirtAddr_as_u64 v) div 4096 * 4096
   \<and> unat (VirtAddr_page_offset v) = unat (VirtAddr_as_u64 v) mod 4096
   \<and> (VirtAddr_is_page_aligned v \<longleftrightarrow> 4096 dvd unat (VirtAddr_as_u64 v))
   \<and> unat (VirtAddr_as_u64 (VirtAddr_page_align_up v)) =
       (unat (VirtAddr_as_u64 v) + 4095) div 4096 * 4096 mod 2 ^ 64"
  by (intro conjI phys.down_value phys.offset_value phys.aligned_iff phys.up_value Pfn_to_from
      Pfn_from_to virt.down_value virt.offset_value virt.aligned_iff virt.up_value)

section \<open>The contract of a flag\<close>

text \<open>Setting bit \<open>i\<close> of a word and testing it.\<close>

locale flag =
  fixes bits :: "'f \<Rightarrow> 'w::len word"
    and set_flag :: "'f \<Rightarrow> 'f"
    and test :: "'f \<Rightarrow> bool"
    and i :: nat
  assumes in_word: "i < LENGTH('w)"
    and set_bits: "bits (set_flag f) = bits f OR push_bit i 1"
    and test_bits: "test f \<longleftrightarrow> bits f AND push_bit i 1 \<noteq> 0"
begin

lemma test_bit: "test f \<longleftrightarrow> bit (bits f) i"
  by (simp only: test_bits bit_iff_and_push_bit_not_eq_0)

lemma test_set: "test (set_flag f)"
  using in_word by (simp add: test_bit set_bits bit_simps)

lemma set_other: "j \<noteq> i \<Longrightarrow> bit (bits (set_flag f)) j \<longleftrightarrow> bit (bits f) j"
  by (auto simp: set_bits bit_simps)

end

interpretation wait_flag: flag alloc_bits AllocFlags_with_wait AllocFlags_can_wait 0
  by unfold_locales (simp_all add: AllocFlags_with_wait_def AllocFlags_can_wait_def AllocFlags_WAIT_def)

interpretation zero_flag: flag alloc_bits AllocFlags_with_zero AllocFlags_should_zero 1
  by unfold_locales (simp_all add: AllocFlags_with_zero_def AllocFlags_should_zero_def AllocFlags_ZERO_def)

interpretation dma_flag: flag alloc_bits AllocFlags_with_dma AllocFlags_needs_dma 2
  by unfold_locales (simp_all add: AllocFlags_with_dma_def AllocFlags_needs_dma_def AllocFlags_DMA_def)

end
