(* ===== verification/Pepita_Blk_Mq.thy ===== *)
theory Pepita_Blk_Mq
  imports Pepita_Memory
begin

text \<open>
  The block multi-queue layer of \<^verbatim>\<open>src/src/blk_mq.rs\<close>: request operations and flags, bio vectors,
  requests and the tag-set configuration with its validation.  Sector and address arithmetic is on
  words and wraps.  The trait \<^verbatim>\<open>BlockOps\<close> has no implementation in the crate.
\<close>

section \<open>Request flags\<close>

datatype RequestFlags = RequestFlags u32

fun RequestFlags_bits :: "RequestFlags \<Rightarrow> u32" where
  "RequestFlags_bits (RequestFlags f) = f"

definition RequestFlags_NONE :: RequestFlags where
  "RequestFlags_NONE = RequestFlags 0"

definition RequestFlags_FUA :: RequestFlags where
  "RequestFlags_FUA = RequestFlags (push_bit 0 1)"

definition RequestFlags_META :: RequestFlags where
  "RequestFlags_META = RequestFlags (push_bit 1 1)"

definition RequestFlags_SYNC :: RequestFlags where
  "RequestFlags_SYNC = RequestFlags (push_bit 2 1)"

definition RequestFlags_NOWAIT :: RequestFlags where
  "RequestFlags_NOWAIT = RequestFlags (push_bit 3 1)"

definition RequestFlags_new :: RequestFlags where
  "RequestFlags_new = RequestFlags_NONE"

definition RequestFlags_with_fua :: "RequestFlags \<Rightarrow> RequestFlags" where
  "RequestFlags_with_fua f = RequestFlags (RequestFlags_bits f OR RequestFlags_bits RequestFlags_FUA)"

definition RequestFlags_with_sync :: "RequestFlags \<Rightarrow> RequestFlags" where
  "RequestFlags_with_sync f = RequestFlags (RequestFlags_bits f OR RequestFlags_bits RequestFlags_SYNC)"

definition RequestFlags_with_nowait :: "RequestFlags \<Rightarrow> RequestFlags" where
  "RequestFlags_with_nowait f = RequestFlags (RequestFlags_bits f OR RequestFlags_bits RequestFlags_NOWAIT)"

definition RequestFlags_is_fua :: "RequestFlags \<Rightarrow> bool" where
  "RequestFlags_is_fua f \<longleftrightarrow> RequestFlags_bits f AND RequestFlags_bits RequestFlags_FUA \<noteq> 0"

definition RequestFlags_is_sync :: "RequestFlags \<Rightarrow> bool" where
  "RequestFlags_is_sync f \<longleftrightarrow> RequestFlags_bits f AND RequestFlags_bits RequestFlags_SYNC \<noteq> 0"

definition RequestFlags_is_nowait :: "RequestFlags \<Rightarrow> bool" where
  "RequestFlags_is_nowait f \<longleftrightarrow> RequestFlags_bits f AND RequestFlags_bits RequestFlags_NOWAIT \<noteq> 0"

section \<open>Block requests and tag sets\<close>

datatype RequestOp =
    ReadOp | WriteOp | FlushOp | DiscardOp | WriteZeroesOp | SecureEraseOp | ZoneResetOp | ZoneOpenOp
  | ZoneCloseOp | ZoneFinishOp

fun RequestOp_as_u8 :: "RequestOp \<Rightarrow> u8" where
  "RequestOp_as_u8 ReadOp = 0"
| "RequestOp_as_u8 WriteOp = 1"
| "RequestOp_as_u8 FlushOp = 2"
| "RequestOp_as_u8 DiscardOp = 3"
| "RequestOp_as_u8 WriteZeroesOp = 4"
| "RequestOp_as_u8 SecureEraseOp = 5"
| "RequestOp_as_u8 ZoneResetOp = 6"
| "RequestOp_as_u8 ZoneOpenOp = 7"
| "RequestOp_as_u8 ZoneCloseOp = 8"
| "RequestOp_as_u8 ZoneFinishOp = 9"

definition RequestOp_is_read :: "RequestOp \<Rightarrow> bool" where
  "RequestOp_is_read r \<longleftrightarrow> (case r of ReadOp \<Rightarrow> True | _ \<Rightarrow> False)"

definition RequestOp_is_write :: "RequestOp \<Rightarrow> bool" where
  "RequestOp_is_write r \<longleftrightarrow> (case r of WriteOp \<Rightarrow> True | _ \<Rightarrow> False)"

definition RequestOp_has_data :: "RequestOp \<Rightarrow> bool" where
  "RequestOp_has_data r \<longleftrightarrow> (case r of ReadOp \<Rightarrow> True | WriteOp \<Rightarrow> True | _ \<Rightarrow> False)"

definition RequestOp_is_zone_op :: "RequestOp \<Rightarrow> bool" where
  "RequestOp_is_zone_op r \<longleftrightarrow>
     (case r of ZoneResetOp \<Rightarrow> True | ZoneOpenOp \<Rightarrow> True | ZoneCloseOp \<Rightarrow> True | ZoneFinishOp \<Rightarrow> True | _ \<Rightarrow> False)"

definition RequestOp_from_u8 :: "u8 \<Rightarrow> RequestOp option" where
  "RequestOp_from_u8 v =
     (if v = 0 then Some ReadOp else if v = 1 then Some WriteOp else if v = 2 then Some FlushOp
      else if v = 3 then Some DiscardOp else if v = 4 then Some WriteZeroesOp
      else if v = 5 then Some SecureEraseOp else if v = 6 then Some ZoneResetOp
      else if v = 7 then Some ZoneOpenOp else if v = 8 then Some ZoneCloseOp
      else if v = 9 then Some ZoneFinishOp else None)"

record BioVec =
  bv_addr :: u64
  bv_len :: u32
  bv_offset :: u32

definition BioVec_new :: "u64 \<Rightarrow> u32 \<Rightarrow> BioVec" where
  "BioVec_new addr len = \<lparr>bv_addr = addr, bv_len = len, bv_offset = 0\<rparr>"

definition BioVec_with_offset :: "u64 \<Rightarrow> u32 \<Rightarrow> u32 \<Rightarrow> BioVec" where
  "BioVec_with_offset addr len offset = \<lparr>bv_addr = addr, bv_len = len, bv_offset = offset\<rparr>"

definition BioVec_effective_addr :: "BioVec \<Rightarrow> u64" where
  "BioVec_effective_addr b = bv_addr b + ucast (bv_offset b)"

definition BioVec_is_empty :: "BioVec \<Rightarrow> bool" where
  "BioVec_is_empty b \<longleftrightarrow> bv_len b = 0"

definition BioVec_default :: BioVec where
  "BioVec_default = BioVec_new 0 0"

record Request =
  rq_tag :: u16
  rq_queue_id :: u16
  rq_op :: RequestOp
  rq_flags :: RequestFlags
  rq_sector :: u64
  rq_nr_sectors :: u32
  rq_bio_vec :: BioVec

definition Request_new :: "u16 \<Rightarrow> u16 \<Rightarrow> RequestOp \<Rightarrow> Request" where
  "Request_new tag queue_id r =
     \<lparr>rq_tag = tag, rq_queue_id = queue_id, rq_op = r, rq_flags = RequestFlags_NONE, rq_sector = 0,
      rq_nr_sectors = 0, rq_bio_vec = BioVec_new 0 0\<rparr>"

definition Request_read :: "u16 \<Rightarrow> u16 \<Rightarrow> u64 \<Rightarrow> u32 \<Rightarrow> Request" where
  "Request_read tag queue_id sector nr_sectors =
     \<lparr>rq_tag = tag, rq_queue_id = queue_id, rq_op = ReadOp, rq_flags = RequestFlags_NONE,
      rq_sector = sector, rq_nr_sectors = nr_sectors, rq_bio_vec = BioVec_new 0 0\<rparr>"

definition Request_write :: "u16 \<Rightarrow> u16 \<Rightarrow> u64 \<Rightarrow> u32 \<Rightarrow> Request" where
  "Request_write tag queue_id sector nr_sectors =
     \<lparr>rq_tag = tag, rq_queue_id = queue_id, rq_op = WriteOp, rq_flags = RequestFlags_NONE,
      rq_sector = sector, rq_nr_sectors = nr_sectors, rq_bio_vec = BioVec_new 0 0\<rparr>"

definition Request_tag :: "Request \<Rightarrow> u16" where
  "Request_tag r = rq_tag r"

definition Request_queue_id :: "Request \<Rightarrow> u16" where
  "Request_queue_id r = rq_queue_id r"

definition Request_op :: "Request \<Rightarrow> RequestOp" where
  "Request_op r = rq_op r"

definition Request_flags :: "Request \<Rightarrow> RequestFlags" where
  "Request_flags r = rq_flags r"

definition Request_sector :: "Request \<Rightarrow> u64" where
  "Request_sector r = rq_sector r"

definition Request_nr_sectors :: "Request \<Rightarrow> u32" where
  "Request_nr_sectors r = rq_nr_sectors r"

definition Request_bio_vec :: "Request \<Rightarrow> BioVec" where
  "Request_bio_vec r = rq_bio_vec r"

definition Request_set_sector_range :: "Request \<Rightarrow> u64 \<Rightarrow> u32 \<Rightarrow> Request" where
  "Request_set_sector_range r sector nr_sectors = r\<lparr>rq_sector := sector, rq_nr_sectors := nr_sectors\<rparr>"

definition Request_set_bio_vec :: "Request \<Rightarrow> BioVec \<Rightarrow> Request" where
  "Request_set_bio_vec r b = r\<lparr>rq_bio_vec := b\<rparr>"

definition Request_set_flags :: "Request \<Rightarrow> RequestFlags \<Rightarrow> Request" where
  "Request_set_flags r f = r\<lparr>rq_flags := f\<rparr>"

definition Request_byte_offset :: "Request \<Rightarrow> u64" where
  "Request_byte_offset r = rq_sector r * 512"

definition Request_byte_len :: "Request \<Rightarrow> u64" where
  "Request_byte_len r = ucast (rq_nr_sectors r) * 512"

definition BLK_MQ_MAX_DEPTH :: u16 where
  "BLK_MQ_MAX_DEPTH = 32768"

definition BLK_MQ_MAX_HW_QUEUES :: u16 where
  "BLK_MQ_MAX_HW_QUEUES = 128"

record TagSetConfig =
  ts_nr_hw_queues :: u16
  ts_queue_depth :: u16
  ts_numa_node :: i32
  ts_flags :: u32

definition TagSetConfig_new :: "u16 \<Rightarrow> u16 \<Rightarrow> TagSetConfig" where
  "TagSetConfig_new nr_hw_queues queue_depth =
     \<lparr>ts_nr_hw_queues = nr_hw_queues, ts_queue_depth = queue_depth, ts_numa_node = - 1, ts_flags = 0\<rparr>"

definition TagSetConfig_with_numa_node :: "TagSetConfig \<Rightarrow> i32 \<Rightarrow> TagSetConfig" where
  "TagSetConfig_with_numa_node c node = c\<lparr>ts_numa_node := node\<rparr>"

definition TagSetConfig_validate :: "TagSetConfig \<Rightarrow> unit result" where
  "TagSetConfig_validate c =
     (if ts_nr_hw_queues c = 0 then Inl InvalidArgument
      else if BLK_MQ_MAX_HW_QUEUES < ts_nr_hw_queues c then Inl InvalidArgument
      else if ts_queue_depth c = 0 then Inl InvalidArgument
      else if BLK_MQ_MAX_DEPTH < ts_queue_depth c then Inl InvalidArgument
      else Inr ())"

definition TagSetConfig_total_tags :: "TagSetConfig \<Rightarrow> u32" where
  "TagSetConfig_total_tags c = ucast (ts_nr_hw_queues c) * ucast (ts_queue_depth c)"

definition TagSetConfig_default :: TagSetConfig where
  "TagSetConfig_default = TagSetConfig_new 1 128"

section \<open>The flags as instances of the flag contract\<close>

interpretation fua_flag: flag RequestFlags_bits RequestFlags_with_fua RequestFlags_is_fua 0
  by unfold_locales (simp_all add: RequestFlags_with_fua_def RequestFlags_is_fua_def RequestFlags_FUA_def)

interpretation sync_flag: flag RequestFlags_bits RequestFlags_with_sync RequestFlags_is_sync 2
  by unfold_locales (simp_all add: RequestFlags_with_sync_def RequestFlags_is_sync_def RequestFlags_SYNC_def)

interpretation nowait_flag: flag RequestFlags_bits RequestFlags_with_nowait RequestFlags_is_nowait 3
  by unfold_locales (simp_all add: RequestFlags_with_nowait_def RequestFlags_is_nowait_def RequestFlags_NOWAIT_def)

section \<open>Operation codes and tag sets\<close>

lemma request_op_roundtrip: "RequestOp_from_u8 (RequestOp_as_u8 r) = Some r"
  by (cases r) (simp_all add: RequestOp_from_u8_def)

lemma request_op_codes: "RequestOp_from_u8 v = Some r \<longleftrightarrow> RequestOp_as_u8 r = v"
proof
  assume "RequestOp_from_u8 v = Some r"
  then show "RequestOp_as_u8 r = v" by (auto simp: RequestOp_from_u8_def split: if_splits)
qed (auto simp: request_op_roundtrip)

lemma tag_set_validate_iff:
  "TagSetConfig_validate c =
     (if 1 \<le> unat (ts_nr_hw_queues c) \<and> unat (ts_nr_hw_queues c) \<le> 128
         \<and> 1 \<le> unat (ts_queue_depth c) \<and> unat (ts_queue_depth c) \<le> 32768
      then Inr () else Inl InvalidArgument)"
  by (simp add: TagSetConfig_validate_def BLK_MQ_MAX_HW_QUEUES_def BLK_MQ_MAX_DEPTH_def word_less_nat_alt
      word_unat_eq_iff not_less)

text \<open>The product of two 16-bit numbers fits into 32 bits.\<close>

lemma total_tags_exact: "unat (TagSetConfig_total_tags c) = unat (ts_nr_hw_queues c) * unat (ts_queue_depth c)"
proof -
  have u: "unat (ucast (w :: u16) :: u32) = unat w" for w
    using unat_bound [of w] by (simp add: unsigned_ucast_eq take_bit_nat_eq_self)
  have "unat (ts_nr_hw_queues c) * unat (ts_queue_depth c) \<le> (2 ^ 16 - 1) * (2 ^ 16 - 1)"
    using unat_bound [of "ts_nr_hw_queues c"] unat_bound [of "ts_queue_depth c"] by (intro mult_le_mono) simp_all
  then show ?thesis by (simp add: TagSetConfig_total_tags_def unat_word_ariths u)
qed

end
