(* ===== verification/Pepita_Io_Uring.thy ===== *)
theory Pepita_Io_Uring
  imports Pepita_Blk_Mq
begin

text \<open>
  The submission and completion queue entries of \<^verbatim>\<open>src/src/io_uring.rs\<close> with their constructors, flags
  and result accessors.  The opcodes that the constructors use are definitions of their own; all of
  them are the table \<open>IORING_OPCODES\<close>.  A result is a 32-bit word read as a signed number.
\<close>

section \<open>Opcodes and flags\<close>

definition IORING_OP_NOP :: u8 where
  "IORING_OP_NOP = 0"

definition IORING_OP_READ :: u8 where
  "IORING_OP_READ = 22"

definition IORING_OP_WRITE :: u8 where
  "IORING_OP_WRITE = 23"

definition IORING_OP_URING_CMD :: u8 where
  "IORING_OP_URING_CMD = 46"

definition IORING_OP_LAST :: u8 where
  "IORING_OP_LAST = 49"

definition IORING_OPCODES :: "(string \<times> u8) list" where
  "IORING_OPCODES =
     [(''NOP'', 0), (''READV'', 1), (''WRITEV'', 2), (''FSYNC'', 3), (''READ_FIXED'', 4),
      (''WRITE_FIXED'', 5), (''POLL_ADD'', 6), (''POLL_REMOVE'', 7), (''SYNC_FILE_RANGE'', 8),
      (''SENDMSG'', 9), (''RECVMSG'', 10), (''TIMEOUT'', 11), (''TIMEOUT_REMOVE'', 12),
      (''ACCEPT'', 13), (''ASYNC_CANCEL'', 14), (''LINK_TIMEOUT'', 15), (''CONNECT'', 16),
      (''FALLOCATE'', 17), (''OPENAT'', 18), (''CLOSE'', 19), (''FILES_UPDATE'', 20),
      (''STATX'', 21), (''READ'', 22), (''WRITE'', 23), (''FADVISE'', 24), (''MADVISE'', 25),
      (''SEND'', 26), (''RECV'', 27), (''OPENAT2'', 28), (''EPOLL_CTL'', 29), (''SPLICE'', 30),
      (''PROVIDE_BUFFERS'', 31), (''REMOVE_BUFFERS'', 32), (''TEE'', 33), (''SHUTDOWN'', 34),
      (''RENAMEAT'', 35), (''UNLINKAT'', 36), (''MKDIRAT'', 37), (''SYMLINKAT'', 38),
      (''LINKAT'', 39), (''MSG_RING'', 40), (''FGETXATTR'', 41), (''FSETXATTR'', 42),
      (''GETXATTR'', 43), (''SETXATTR'', 44), (''SOCKET'', 45), (''URING_CMD'', 46),
      (''SEND_ZC'', 47), (''SENDMSG_ZC'', 48)]"

definition IOSQE_FIXED_FILE :: u8 where
  "IOSQE_FIXED_FILE = push_bit 0 1"

definition IOSQE_IO_DRAIN :: u8 where
  "IOSQE_IO_DRAIN = push_bit 1 1"

definition IOSQE_IO_LINK :: u8 where
  "IOSQE_IO_LINK = push_bit 2 1"

definition IOSQE_IO_HARDLINK :: u8 where
  "IOSQE_IO_HARDLINK = push_bit 3 1"

definition IOSQE_ASYNC :: u8 where
  "IOSQE_ASYNC = push_bit 4 1"

definition IOSQE_BUFFER_SELECT :: u8 where
  "IOSQE_BUFFER_SELECT = push_bit 5 1"

definition IOSQE_CQE_SKIP_SUCCESS :: u8 where
  "IOSQE_CQE_SKIP_SUCCESS = push_bit 6 1"

definition IORING_CQE_F_MORE :: u32 where
  "IORING_CQE_F_MORE = push_bit 1 1"

definition IORING_CQE_F_SOCK_NONEMPTY :: u32 where
  "IORING_CQE_F_SOCK_NONEMPTY = push_bit 2 1"

definition IORING_CQE_F_NOTIF :: u32 where
  "IORING_CQE_F_NOTIF = push_bit 3 1"

section \<open>Submission queue entries\<close>

record IoUringSqe =
  sqe_opcode :: u8
  sqe_flags :: u8
  sqe_ioprio :: u16
  sqe_fd :: i32
  sqe_off :: u64
  sqe_addr :: u64
  sqe_len :: u32
  sqe_op_flags :: u32
  sqe_user_data :: u64
  sqe_buf_index :: u16
  sqe_personality :: u16
  sqe_splice_fd_in :: i32
  sqe_addr3 :: u64
  sqe_pad2 :: "u64 list"

definition IoUringSqe_new :: IoUringSqe where
  "IoUringSqe_new =
     \<lparr>sqe_opcode = 0, sqe_flags = 0, sqe_ioprio = 0, sqe_fd = - 1, sqe_off = 0, sqe_addr = 0, sqe_len = 0,
      sqe_op_flags = 0, sqe_user_data = 0, sqe_buf_index = 0, sqe_personality = 0, sqe_splice_fd_in = 0,
      sqe_addr3 = 0, sqe_pad2 = [0]\<rparr>"

definition IoUringSqe_nop :: "u64 \<Rightarrow> IoUringSqe" where
  "IoUringSqe_nop user_data = IoUringSqe_new\<lparr>sqe_opcode := IORING_OP_NOP, sqe_user_data := user_data\<rparr>"

definition IoUringSqe_uring_cmd :: "i32 \<Rightarrow> u32 \<Rightarrow> u64 \<Rightarrow> IoUringSqe" where
  "IoUringSqe_uring_cmd fd cmd_op user_data =
     IoUringSqe_new\<lparr>sqe_opcode := IORING_OP_URING_CMD, sqe_fd := fd, sqe_op_flags := cmd_op,
       sqe_user_data := user_data\<rparr>"

definition IoUringSqe_read :: "i32 \<Rightarrow> u64 \<Rightarrow> u32 \<Rightarrow> u64 \<Rightarrow> u64 \<Rightarrow> IoUringSqe" where
  "IoUringSqe_read fd buf len offset user_data =
     IoUringSqe_new\<lparr>sqe_opcode := IORING_OP_READ, sqe_fd := fd, sqe_addr := buf, sqe_len := len,
       sqe_off := offset, sqe_user_data := user_data\<rparr>"

definition IoUringSqe_write :: "i32 \<Rightarrow> u64 \<Rightarrow> u32 \<Rightarrow> u64 \<Rightarrow> u64 \<Rightarrow> IoUringSqe" where
  "IoUringSqe_write fd buf len offset user_data =
     IoUringSqe_new\<lparr>sqe_opcode := IORING_OP_WRITE, sqe_fd := fd, sqe_addr := buf, sqe_len := len,
       sqe_off := offset, sqe_user_data := user_data\<rparr>"

definition IoUringSqe_set_async :: "IoUringSqe \<Rightarrow> IoUringSqe" where
  "IoUringSqe_set_async sqe = sqe\<lparr>sqe_flags := sqe_flags sqe OR IOSQE_ASYNC\<rparr>"

definition IoUringSqe_set_link :: "IoUringSqe \<Rightarrow> IoUringSqe" where
  "IoUringSqe_set_link sqe = sqe\<lparr>sqe_flags := sqe_flags sqe OR IOSQE_IO_LINK\<rparr>"

definition IoUringSqe_set_fixed_file :: "IoUringSqe \<Rightarrow> IoUringSqe" where
  "IoUringSqe_set_fixed_file sqe = sqe\<lparr>sqe_flags := sqe_flags sqe OR IOSQE_FIXED_FILE\<rparr>"

definition IoUringSqe_is_uring_cmd :: "IoUringSqe \<Rightarrow> bool" where
  "IoUringSqe_is_uring_cmd sqe \<longleftrightarrow> sqe_opcode sqe = IORING_OP_URING_CMD"

definition IoUringSqe_is_nop :: "IoUringSqe \<Rightarrow> bool" where
  "IoUringSqe_is_nop sqe \<longleftrightarrow> sqe_opcode sqe = IORING_OP_NOP"

definition IoUringSqe_default :: IoUringSqe where
  "IoUringSqe_default = IoUringSqe_new"

section \<open>Completion queue entries\<close>

record IoUringCqe =
  cqe_user_data :: u64
  cqe_res :: i32
  cqe_flags :: u32

definition IoUringCqe_new :: "u64 \<Rightarrow> i32 \<Rightarrow> u32 \<Rightarrow> IoUringCqe" where
  "IoUringCqe_new user_data res flags = \<lparr>cqe_user_data = user_data, cqe_res = res, cqe_flags = flags\<rparr>"

definition IoUringCqe_is_success :: "IoUringCqe \<Rightarrow> bool" where
  "IoUringCqe_is_success cqe \<longleftrightarrow> 0 \<le> sint (cqe_res cqe)"

definition IoUringCqe_is_error :: "IoUringCqe \<Rightarrow> bool" where
  "IoUringCqe_is_error cqe \<longleftrightarrow> sint (cqe_res cqe) < 0"

definition IoUringCqe_errno :: "IoUringCqe \<Rightarrow> i32" where
  "IoUringCqe_errno cqe = (if sint (cqe_res cqe) < 0 then - cqe_res cqe else 0)"

definition IoUringCqe_result :: "IoUringCqe \<Rightarrow> u32 option" where
  "IoUringCqe_result cqe = (if 0 \<le> sint (cqe_res cqe) then Some (cqe_res cqe) else None)"

definition IoUringCqe_has_more :: "IoUringCqe \<Rightarrow> bool" where
  "IoUringCqe_has_more cqe \<longleftrightarrow> cqe_flags cqe AND IORING_CQE_F_MORE \<noteq> 0"

definition IoUringCqe_default :: IoUringCqe where
  "IoUringCqe_default = IoUringCqe_new 0 0 0"

section \<open>The result of a completion\<close>

lemma sint_uminus_i32:
  "sint (- r :: i32) = (if sint r = - (2 ^ 31) then - (2 ^ 31) else - sint r)"
proof -
  have "- (2 ^ 31) \<le> sint r" "sint r < 2 ^ 31"
    using sint_ge [of r] sint_lt [of r] by simp_all
  then show ?thesis
    by (auto simp: sint_word_ariths signed_take_bit_int_eq_self)
qed

text \<open>C33: the completion contract. For every result exactly one of success and error holds; on success
  the result is the non-negative number the kernel gave and the error number is 0; on an error there is
  no result and the error number is the negated result, which is positive, except for the single result
  \<open>- 2 ^ 31\<close>, whose negation wraps to itself, so that the error number is negative.\<close>

theorem cqe_result_partition:
  "(IoUringCqe_is_success cqe \<longleftrightarrow> \<not> IoUringCqe_is_error cqe)
   \<and> (if IoUringCqe_is_success cqe
      then \<exists>n. IoUringCqe_result cqe = Some n \<and> int (unat n) = sint (cqe_res cqe) \<and> IoUringCqe_errno cqe = 0
      else IoUringCqe_result cqe = None
        \<and> (if sint (cqe_res cqe) = - (2 ^ 31) then sint (IoUringCqe_errno cqe) = - (2 ^ 31)
           else sint (IoUringCqe_errno cqe) = - sint (cqe_res cqe) \<and> 0 < sint (IoUringCqe_errno cqe)))"
proof -
  have "0 \<le> sint r \<Longrightarrow> int (unat r) = sint r" for r :: i32
    using sint_lt [of r] by (simp add: of_nat_unat uint_sint take_bit_int_eq_self)
  then show ?thesis
    by (auto simp: IoUringCqe_is_success_def IoUringCqe_is_error_def IoUringCqe_result_def
        IoUringCqe_errno_def sint_uminus_i32)
qed

end
