(* ===== verification/Pepita_Ublk.thy ===== *)
theory Pepita_Ublk
  imports Pepita_Io_Uring
begin

text \<open>
  The userspace block device interface of \<^verbatim>\<open>src/src/ublk.rs\<close>: command numbers, device and operation
  flags, control commands, I/O descriptors and I/O commands.
\<close>

section \<open>Command numbers and flags\<close>

definition UBLK_U_CMD_ADD_DEV :: u32 where
  "UBLK_U_CMD_ADD_DEV = 0xc0207504"

definition UBLK_U_CMD_DEL_DEV :: u32 where
  "UBLK_U_CMD_DEL_DEV = 0xc0207505"

definition UBLK_U_CMD_START_DEV :: u32 where
  "UBLK_U_CMD_START_DEV = 0xc0207506"

definition UBLK_U_CMD_STOP_DEV :: u32 where
  "UBLK_U_CMD_STOP_DEV = 0xc0207507"

definition UBLK_U_CMD_SET_PARAMS :: u32 where
  "UBLK_U_CMD_SET_PARAMS = 0xc0207508"

definition UBLK_U_CMD_GET_PARAMS :: u32 where
  "UBLK_U_CMD_GET_PARAMS = 0x80207509"

definition UBLK_U_CMD_GET_QUEUE_AFFINITY :: u32 where
  "UBLK_U_CMD_GET_QUEUE_AFFINITY = 0x8020750a"

definition UBLK_U_CMD_GET_DEV_INFO :: u32 where
  "UBLK_U_CMD_GET_DEV_INFO = 0x8020750b"

definition UBLK_U_IO_FETCH_REQ :: u32 where
  "UBLK_U_IO_FETCH_REQ = 0xc0107520"

definition UBLK_U_IO_COMMIT_AND_FETCH_REQ :: u32 where
  "UBLK_U_IO_COMMIT_AND_FETCH_REQ = 0xc0107521"

definition UBLK_U_IO_NEED_GET_DATA :: u32 where
  "UBLK_U_IO_NEED_GET_DATA = 0xc0107522"

definition UBLK_F_SUPPORT_ZERO_COPY :: u64 where
  "UBLK_F_SUPPORT_ZERO_COPY = push_bit 0 1"

definition UBLK_F_URING_CMD_COMP_IN_TASK :: u64 where
  "UBLK_F_URING_CMD_COMP_IN_TASK = push_bit 1 1"

definition UBLK_F_NEED_GET_DATA :: u64 where
  "UBLK_F_NEED_GET_DATA = push_bit 2 1"

definition UBLK_F_USER_COPY :: u64 where
  "UBLK_F_USER_COPY = push_bit 7 1"

definition UBLK_F_CMD_IOCTL_ENCODE :: u64 where
  "UBLK_F_CMD_IOCTL_ENCODE = push_bit 6 1"

definition UBLK_F_UNPRIVILEGED_DEV :: u64 where
  "UBLK_F_UNPRIVILEGED_DEV = push_bit 5 1"

definition UBLK_IO_OP_READ :: u32 where
  "UBLK_IO_OP_READ = 0"

definition UBLK_IO_OP_WRITE :: u32 where
  "UBLK_IO_OP_WRITE = 1"

definition UBLK_IO_OP_FLUSH :: u32 where
  "UBLK_IO_OP_FLUSH = 2"

definition UBLK_IO_OP_DISCARD :: u32 where
  "UBLK_IO_OP_DISCARD = 3"

definition UBLK_IO_OP_WRITE_ZEROES :: u32 where
  "UBLK_IO_OP_WRITE_ZEROES = 4"

definition UBLK_IO_F_FUA :: u32 where
  "UBLK_IO_F_FUA = push_bit 8 1"

section \<open>Control commands\<close>

record UblkCtrlCmd =
  cc_dev_id :: u32
  cc_queue_id :: u16
  cc_len :: u16
  cc_addr :: u64
  cc_data :: "u64 list"
  cc_dev_path_len :: u16
  cc_pad :: u16
  cc_reserved :: u32

definition UblkCtrlCmd_new :: "u32 \<Rightarrow> UblkCtrlCmd" where
  "UblkCtrlCmd_new dev_id =
     \<lparr>cc_dev_id = dev_id, cc_queue_id = 0, cc_len = 0, cc_addr = 0, cc_data = [0], cc_dev_path_len = 0,
      cc_pad = 0, cc_reserved = 0\<rparr>"

definition UblkCtrlCmd_with_queue :: "u32 \<Rightarrow> u16 \<Rightarrow> UblkCtrlCmd" where
  "UblkCtrlCmd_with_queue dev_id queue_id =
     \<lparr>cc_dev_id = dev_id, cc_queue_id = queue_id, cc_len = 0, cc_addr = 0, cc_data = [0],
      cc_dev_path_len = 0, cc_pad = 0, cc_reserved = 0\<rparr>"

definition UblkCtrlCmd_dev_id :: "UblkCtrlCmd \<Rightarrow> u32" where
  "UblkCtrlCmd_dev_id c = cc_dev_id c"

definition UblkCtrlCmd_queue_id :: "UblkCtrlCmd \<Rightarrow> u16" where
  "UblkCtrlCmd_queue_id c = cc_queue_id c"

definition UblkCtrlCmd_len :: "UblkCtrlCmd \<Rightarrow> u16" where
  "UblkCtrlCmd_len c = cc_len c"

definition UblkCtrlCmd_addr :: "UblkCtrlCmd \<Rightarrow> u64" where
  "UblkCtrlCmd_addr c = cc_addr c"

definition UblkCtrlCmd_set_data :: "UblkCtrlCmd \<Rightarrow> u64 \<Rightarrow> u16 \<Rightarrow> UblkCtrlCmd" where
  "UblkCtrlCmd_set_data c addr len = c\<lparr>cc_addr := addr, cc_len := len\<rparr>"

text \<open>The field \<^verbatim>\<open>data\<close> is an array of one word; reading it indexes the array.\<close>

definition UblkCtrlCmd_data :: "UblkCtrlCmd \<Rightarrow> u64 exec" where
  "UblkCtrlCmd_data c = index (cc_data c) 0"

definition UblkCtrlCmd_set_extra_data :: "UblkCtrlCmd \<Rightarrow> u64 \<Rightarrow> UblkCtrlCmd exec" where
  "UblkCtrlCmd_set_extra_data c data =
     (if 0 < length (cc_data c) then Done (c\<lparr>cc_data := (cc_data c)[0 := data]\<rparr>) else Panic)"

definition UblkCtrlCmd_default :: UblkCtrlCmd where
  "UblkCtrlCmd_default = UblkCtrlCmd_new 0"

section \<open>I/O descriptors\<close>

record UblkIoDesc =
  iod_op_flags :: u32
  iod_nr_sectors :: u32
  iod_start_sector :: u64
  iod_addr :: u64

definition UblkIoDesc_new :: "u32 \<Rightarrow> u64 \<Rightarrow> u32 \<Rightarrow> UblkIoDesc" where
  "UblkIoDesc_new opn start_sector nr_sectors =
     \<lparr>iod_op_flags = opn, iod_nr_sectors = nr_sectors, iod_start_sector = start_sector, iod_addr = 0\<rparr>"

definition UblkIoDesc_op :: "UblkIoDesc \<Rightarrow> u32" where
  "UblkIoDesc_op d = iod_op_flags d AND 0xFF"

definition UblkIoDesc_flags :: "UblkIoDesc \<Rightarrow> u32" where
  "UblkIoDesc_flags d = iod_op_flags d AND NOT 0xFF"

definition UblkIoDesc_op_flags :: "UblkIoDesc \<Rightarrow> u32" where
  "UblkIoDesc_op_flags d = iod_op_flags d"

definition UblkIoDesc_is_read :: "UblkIoDesc \<Rightarrow> bool" where
  "UblkIoDesc_is_read d \<longleftrightarrow> UblkIoDesc_op d = UBLK_IO_OP_READ"

definition UblkIoDesc_is_write :: "UblkIoDesc \<Rightarrow> bool" where
  "UblkIoDesc_is_write d \<longleftrightarrow> UblkIoDesc_op d = UBLK_IO_OP_WRITE"

definition UblkIoDesc_is_flush :: "UblkIoDesc \<Rightarrow> bool" where
  "UblkIoDesc_is_flush d \<longleftrightarrow> UblkIoDesc_op d = UBLK_IO_OP_FLUSH"

definition UblkIoDesc_is_fua :: "UblkIoDesc \<Rightarrow> bool" where
  "UblkIoDesc_is_fua d \<longleftrightarrow> iod_op_flags d AND UBLK_IO_F_FUA \<noteq> 0"

definition UblkIoDesc_nr_sectors :: "UblkIoDesc \<Rightarrow> u32" where
  "UblkIoDesc_nr_sectors d = iod_nr_sectors d"

definition UblkIoDesc_start_sector :: "UblkIoDesc \<Rightarrow> u64" where
  "UblkIoDesc_start_sector d = iod_start_sector d"

definition UblkIoDesc_addr :: "UblkIoDesc \<Rightarrow> u64" where
  "UblkIoDesc_addr d = iod_addr d"

definition UblkIoDesc_set_addr :: "UblkIoDesc \<Rightarrow> u64 \<Rightarrow> UblkIoDesc" where
  "UblkIoDesc_set_addr d addr = d\<lparr>iod_addr := addr\<rparr>"

definition UblkIoDesc_byte_offset :: "UblkIoDesc \<Rightarrow> u64" where
  "UblkIoDesc_byte_offset d = iod_start_sector d * 512"

definition UblkIoDesc_byte_len :: "UblkIoDesc \<Rightarrow> u64" where
  "UblkIoDesc_byte_len d = ucast (iod_nr_sectors d) * 512"

definition UblkIoDesc_default :: UblkIoDesc where
  "UblkIoDesc_default = UblkIoDesc_new UBLK_IO_OP_READ 0 0"

section \<open>I/O commands\<close>

record UblkIoCmd =
  ioc_q_id :: u16
  ioc_tag :: u16
  ioc_result :: i32
  ioc_addr :: u64

definition UblkIoCmd_new :: "u16 \<Rightarrow> u16 \<Rightarrow> UblkIoCmd" where
  "UblkIoCmd_new q_id tag = \<lparr>ioc_q_id = q_id, ioc_tag = tag, ioc_result = 0, ioc_addr = 0\<rparr>"

definition UblkIoCmd_completed :: "u16 \<Rightarrow> u16 \<Rightarrow> i32 \<Rightarrow> UblkIoCmd" where
  "UblkIoCmd_completed q_id tag result = \<lparr>ioc_q_id = q_id, ioc_tag = tag, ioc_result = result, ioc_addr = 0\<rparr>"

definition UblkIoCmd_q_id :: "UblkIoCmd \<Rightarrow> u16" where
  "UblkIoCmd_q_id c = ioc_q_id c"

definition UblkIoCmd_tag :: "UblkIoCmd \<Rightarrow> u16" where
  "UblkIoCmd_tag c = ioc_tag c"

definition UblkIoCmd_result :: "UblkIoCmd \<Rightarrow> i32" where
  "UblkIoCmd_result c = ioc_result c"

definition UblkIoCmd_set_result :: "UblkIoCmd \<Rightarrow> i32 \<Rightarrow> UblkIoCmd" where
  "UblkIoCmd_set_result c result = c\<lparr>ioc_result := result\<rparr>"

definition UblkIoCmd_addr :: "UblkIoCmd \<Rightarrow> u64" where
  "UblkIoCmd_addr c = ioc_addr c"

definition UblkIoCmd_set_addr :: "UblkIoCmd \<Rightarrow> u64 \<Rightarrow> UblkIoCmd" where
  "UblkIoCmd_set_addr c addr = c\<lparr>ioc_addr := addr\<rparr>"

definition UblkIoCmd_is_success :: "UblkIoCmd \<Rightarrow> bool" where
  "UblkIoCmd_is_success c \<longleftrightarrow> 0 \<le> sint (ioc_result c)"

definition UblkIoCmd_default :: UblkIoCmd where
  "UblkIoCmd_default = UblkIoCmd_new 0 0"

section \<open>Sector ranges\<close>

text \<open>
  Requests of the block layer and descriptors of the userspace driver compute their byte range alike:
  the length is exact, the offset is reduced modulo \<open>2 ^ 64\<close>.
\<close>

locale sector_range =
  fixes first_sector :: "'r \<Rightarrow> u64"
    and nr :: "'r \<Rightarrow> u32"
    and byte_offset :: "'r \<Rightarrow> u64"
    and byte_len :: "'r \<Rightarrow> u64"
  assumes offset_word: "byte_offset r = first_sector r * 512"
    and len_word: "byte_len r = ucast (nr r) * 512"
begin

lemma len_exact: "unat (byte_len r) = unat (nr r) * 512"
proof -
  have "unat (nr r) * 512 < 2 ^ 64" using unat_bound [of "nr r"] by simp
  moreover have "unat (ucast (nr r) :: u64) = unat (nr r)"
    using unat_bound [of "nr r"] by (simp add: unsigned_ucast_eq take_bit_nat_eq_self)
  ultimately show ?thesis by (simp add: len_word unat_word_ariths)
qed

lemma offset_value: "unat (byte_offset r) = unat (first_sector r) * 512 mod 2 ^ 64"
  by (simp add: offset_word unat_word_ariths)

lemma offset_exact_iff: "unat (byte_offset r) = unat (first_sector r) * 512 \<longleftrightarrow> unat (first_sector r) < 2 ^ 55"
  by (auto simp: offset_value mod_eq_self_iff_div_eq_0 div_eq_0_iff)

end

interpretation request: sector_range Request_sector Request_nr_sectors Request_byte_offset Request_byte_len
  by unfold_locales
    (simp_all add: Request_byte_offset_def Request_byte_len_def Request_sector_def Request_nr_sectors_def)

interpretation io_desc: sector_range UblkIoDesc_start_sector UblkIoDesc_nr_sectors UblkIoDesc_byte_offset UblkIoDesc_byte_len
  by unfold_locales
    (simp_all add: UblkIoDesc_byte_offset_def UblkIoDesc_byte_len_def UblkIoDesc_start_sector_def
      UblkIoDesc_nr_sectors_def)

text \<open>The numbers of the block layer. A tag set is valid exactly with 1 to 128 queues of depth 1 to 32768,
  every other one is refused with \<open>InvalidArgument\<close>, and its number of tags is exact; operation codes
  are decoded to the operation that has them and to no other. The byte length of a block request and of a userspace
  descriptor is exactly 512 times its number of sectors; the byte offset is 512 times the first sector
  modulo \<open>2 ^ 64\<close>, hence exact exactly for sectors below \<open>2 ^ 55\<close>; the operation and the flags of a
  descriptor are the two disjoint parts of its first word, and reads, writes and flushes exclude each other.\<close>

theorem block_layer_numbers_exact:
  "TagSetConfig_validate c =
     (if 1 \<le> unat (ts_nr_hw_queues c) \<and> unat (ts_nr_hw_queues c) \<le> 128
         \<and> 1 \<le> unat (ts_queue_depth c) \<and> unat (ts_queue_depth c) \<le> 32768
      then Inr () else Inl InvalidArgument)
   \<and> unat (TagSetConfig_total_tags c) = unat (ts_nr_hw_queues c) * unat (ts_queue_depth c)
   \<and> (RequestOp_from_u8 v = Some opn \<longleftrightarrow> RequestOp_as_u8 opn = v)
   \<and> unat (Request_byte_len r) = unat (Request_nr_sectors r) * 512
   \<and> unat (Request_byte_offset r) = unat (Request_sector r) * 512 mod 2 ^ 64
   \<and> (unat (Request_byte_offset r) = unat (Request_sector r) * 512 \<longleftrightarrow> unat (Request_sector r) < 2 ^ 55)
   \<and> unat (UblkIoDesc_byte_len d) = unat (UblkIoDesc_nr_sectors d) * 512
   \<and> unat (UblkIoDesc_byte_offset d) = unat (UblkIoDesc_start_sector d) * 512 mod 2 ^ 64
   \<and> (unat (UblkIoDesc_byte_offset d) = unat (UblkIoDesc_start_sector d) * 512 \<longleftrightarrow>
        unat (UblkIoDesc_start_sector d) < 2 ^ 55)
   \<and> UblkIoDesc_op d OR UblkIoDesc_flags d = UblkIoDesc_op_flags d
   \<and> UblkIoDesc_op d AND UblkIoDesc_flags d = 0
   \<and> \<not> (UblkIoDesc_is_read d \<and> UblkIoDesc_is_write d)
   \<and> \<not> (UblkIoDesc_is_write d \<and> UblkIoDesc_is_flush d)
   \<and> \<not> (UblkIoDesc_is_flush d \<and> UblkIoDesc_is_read d)"
proof (intro conjI)
  show "UblkIoDesc_op d OR UblkIoDesc_flags d = UblkIoDesc_op_flags d"
    unfolding UblkIoDesc_op_def UblkIoDesc_flags_def UblkIoDesc_op_flags_def
    by (rule bit_word_eqI) (simp only: bit_or_iff bit_and_iff bit_not_iff possible_bit_word, blast)
  show "UblkIoDesc_op d AND UblkIoDesc_flags d = 0"
    unfolding UblkIoDesc_op_def UblkIoDesc_flags_def
    by (rule bit_word_eqI) (simp only: bit_and_iff bit_not_iff bit_0_eq bot_apply bot_bool_def, blast)
qed (rule tag_set_validate_iff total_tags_exact request_op_codes request.len_exact request.offset_value request.offset_exact_iff io_desc.len_exact
      io_desc.offset_value io_desc.offset_exact_iff
    | simp add: UblkIoDesc_is_read_def UblkIoDesc_is_write_def UblkIoDesc_is_flush_def
      UBLK_IO_OP_READ_def UBLK_IO_OP_WRITE_def UBLK_IO_OP_FLUSH_def)+

end
