(* ===== verification/Pepita_Abi.thy ===== *)
theory Pepita_Abi
  imports Pepita_Ublk Pepita_Virtio Pepita_Vmm
begin

text \<open>
  The memory layout of the structs that \<^verbatim>\<open>src/src/ublk.rs\<close>, \<^verbatim>\<open>src/src/io_uring.rs\<close>, \<^verbatim>\<open>src/src/virtio.rs\<close>
  and \<^verbatim>\<open>src/src/vmm.rs\<close> share with a kernel or a guest, and the numbers of the commands that carry them.  The
  layout follows the rules of \<^verbatim>\<open>repr(C)\<close>: fields in order, each at the next multiple of its alignment, the
  whole rounded up to the largest alignment.
\<close>

section \<open>Layout of C structs\<close>

text \<open>Integers of a number of bytes, arrays, and nested structs given by alignment and size.\<close>

datatype ctype = Scalar nat | Array ctype nat | Nested nat nat

fun ctype_align :: "ctype \<Rightarrow> nat" where
  "ctype_align (Scalar b) = b"
| "ctype_align (Array t n) = ctype_align t"
| "ctype_align (Nested a sz) = a"

fun ctype_size :: "ctype \<Rightarrow> nat" where
  "ctype_size (Scalar b) = b"
| "ctype_size (Array t n) = n * ctype_size t"
| "ctype_size (Nested a sz) = sz"

type_synonym struct = "(string \<times> ctype) list"

definition align_to :: "nat \<Rightarrow> nat \<Rightarrow> nat" where
  "align_to a x = (x + a - 1) div a * a"

fun place_fields :: "nat \<Rightarrow> struct \<Rightarrow> (string \<times> nat \<times> nat) list \<times> nat" where
  "place_fields pos [] = ([], pos)"
| "place_fields pos ((name, t) # fs) =
     (let off = align_to (ctype_align t) pos;
          (rest, end_pos) = place_fields (off + ctype_size t) fs
      in ((name, off, ctype_size t) # rest, end_pos))"

definition align_of :: "struct \<Rightarrow> nat" where
  "align_of s = fold (\<lambda>f. max (ctype_align (snd f))) s 1"

definition size_of :: "struct \<Rightarrow> nat" where
  "size_of s = align_to (align_of s) (snd (place_fields 0 s))"

text \<open>Name, offset and size of every field.\<close>

definition offsets :: "struct \<Rightarrow> (string \<times> nat \<times> nat) list" where
  "offsets s = fst (place_fields 0 s)"

text \<open>The structs shared with the kernel, and the transparent address types.\<close>

definition UblkCtrlCmd_struct :: struct where
  "UblkCtrlCmd_struct =
     [(''dev_id'', Scalar 4), (''queue_id'', Scalar 2), (''len'', Scalar 2), (''addr'', Scalar 8),
      (''data'', Array (Scalar 8) 1), (''dev_path_len'', Scalar 2), (''pad'', Scalar 2), (''reserved'', Scalar 4)]"

definition UblkIoDesc_struct :: struct where
  "UblkIoDesc_struct =
     [(''op_flags'', Scalar 4), (''nr_sectors'', Scalar 4), (''start_sector'', Scalar 8), (''addr'', Scalar 8)]"

definition UblkIoCmd_struct :: struct where
  "UblkIoCmd_struct = [(''q_id'', Scalar 2), (''tag'', Scalar 2), (''result'', Scalar 4), (''addr'', Scalar 8)]"

definition IoUringSqe_struct :: struct where
  "IoUringSqe_struct =
     [(''opcode'', Scalar 1), (''flags'', Scalar 1), (''ioprio'', Scalar 2), (''fd'', Scalar 4), (''off'', Scalar 8),
      (''addr'', Scalar 8), (''len'', Scalar 4), (''op_flags'', Scalar 4), (''user_data'', Scalar 8),
      (''buf_index'', Scalar 2), (''personality'', Scalar 2), (''splice_fd_in'', Scalar 4), (''addr3'', Scalar 8),
      (''__pad2'', Array (Scalar 8) 1)]"

definition IoUringCqe_struct :: struct where
  "IoUringCqe_struct = [(''user_data'', Scalar 8), (''res'', Scalar 4), (''flags'', Scalar 4)]"

definition PhysAddr_struct :: struct where
  "PhysAddr_struct = [(''0'', Scalar 8)]"

definition VirtAddr_struct :: struct where
  "VirtAddr_struct = [(''0'', Scalar 8)]"

text \<open>The structs shared with a guest or with KVM.\<close>

definition VirtqDesc_struct :: struct where
  "VirtqDesc_struct = [(''addr'', Scalar 8), (''len'', Scalar 4), (''flags'', Scalar 2), (''next'', Scalar 2)]"

definition VsockPacketHeader_struct :: struct where
  "VsockPacketHeader_struct =
     [(''src_cid'', Scalar 8), (''dst_cid'', Scalar 8), (''src_port'', Scalar 4), (''dst_port'', Scalar 4),
      (''len'', Scalar 4), (''packet_type'', Scalar 2), (''op'', Scalar 2), (''flags'', Scalar 4),
      (''buf_alloc'', Scalar 4), (''fwd_cnt'', Scalar 4)]"

definition BlockRequestHeader_struct :: struct where
  "BlockRequestHeader_struct = [(''request_type'', Scalar 4), (''reserved'', Scalar 4), (''sector'', Scalar 8)]"

definition VcpuRegs_struct :: struct where
  "VcpuRegs_struct =
     map (\<lambda>r. (r, Scalar 8))
       [''rax'', ''rbx'', ''rcx'', ''rdx'', ''rsi'', ''rdi'', ''rsp'', ''rbp'', ''r8'', ''r9'', ''r10'', ''r11'', ''r12'',
        ''r13'', ''r14'', ''r15'', ''rip'', ''rflags'']"

definition Segment_struct :: struct where
  "Segment_struct =
     [(''base'', Scalar 8), (''limit'', Scalar 4), (''selector'', Scalar 2), (''type_'', Scalar 1),
      (''present'', Scalar 1), (''dpl'', Scalar 1), (''db'', Scalar 1), (''s'', Scalar 1), (''l'', Scalar 1),
      (''g'', Scalar 1), (''avl'', Scalar 1), (''unusable'', Scalar 1), (''padding'', Scalar 1)]"

definition Dtable_struct :: struct where
  "Dtable_struct = [(''base'', Scalar 8), (''limit'', Scalar 2), (''padding'', Array (Scalar 2) 3)]"

definition nested :: "struct \<Rightarrow> ctype" where
  "nested s = Nested (align_of s) (size_of s)"

definition VcpuSregs_struct :: struct where
  "VcpuSregs_struct =
     map (\<lambda>r. (r, nested Segment_struct)) [''cs'', ''ds'', ''es'', ''fs'', ''gs'', ''ss'', ''tr'', ''ldt'']
     @ [(''gdt'', nested Dtable_struct), (''idt'', nested Dtable_struct)]
     @ map (\<lambda>r. (r, Scalar 8)) [''cr0'', ''cr2'', ''cr3'', ''cr4'', ''cr8'', ''efer'', ''apic_base'']
     @ [(''interrupt_bitmap'', Array (Scalar 8) 4)]"

section \<open>Command numbers\<close>

text \<open>The parts of an ioctl number: direction, argument size, type and number.\<close>

definition ioctl_dir :: "'a::len word \<Rightarrow> nat" where
  "ioctl_dir c = unat (drop_bit 30 c)"

definition ioctl_size :: "'a::len word \<Rightarrow> nat" where
  "ioctl_size c = unat (drop_bit 16 c AND mask 14)"

definition ioctl_type :: "'a::len word \<Rightarrow> nat" where
  "ioctl_type c = unat (drop_bit 8 c AND mask 8)"

definition ioctl_nr :: "'a::len word \<Rightarrow> nat" where
  "ioctl_nr c = unat (c AND mask 8)"

definition control_commands :: "u32 list" where
  "control_commands =
     [UBLK_U_CMD_ADD_DEV, UBLK_U_CMD_DEL_DEV, UBLK_U_CMD_START_DEV, UBLK_U_CMD_STOP_DEV, UBLK_U_CMD_SET_PARAMS,
      UBLK_U_CMD_GET_PARAMS, UBLK_U_CMD_GET_QUEUE_AFFINITY, UBLK_U_CMD_GET_DEV_INFO]"

definition io_commands :: "u32 list" where
  "io_commands = [UBLK_U_IO_FETCH_REQ, UBLK_U_IO_COMMIT_AND_FETCH_REQ, UBLK_U_IO_NEED_GET_DATA]"

section \<open>Sizes of the virtio structs\<close>

text \<open>The declared sizes of the virtio headers. The block request header occupies exactly the declared
  16 bytes and a descriptor 16 bytes; but the vsock packet header occupies 48 bytes, four more than its
  declared size of 44: its fields end at 44 and \<^verbatim>\<open>repr(C)\<close> pads the struct to its alignment of 8.\<close>

lemma virtio_header_sizes:
  "size_of VirtqDesc_struct = 16
   \<and> size_of BlockRequestHeader_struct = unat BlockRequestHeader_SIZE
   \<and> unat VsockPacketHeader_SIZE = 44
   \<and> snd (place_fields 0 VsockPacketHeader_struct) = 44
   \<and> align_of VsockPacketHeader_struct = 8
   \<and> size_of VsockPacketHeader_struct = unat VsockPacketHeader_SIZE + 4"
  by (intro conjI; code_simp)

text \<open>Command numbers agree with the structs they carry. Every ublk command has the type byte
  of the ublk driver (the letter u); the argument size encoded in every control command is the size of
  the control command struct and the one in every I/O command the size of the I/O command struct; the
  numbers are consecutive, and the directions are read-write except for the three queries, which only
  read. The KVM commands that read and write registers encode the sizes of the register structs, with
  the direction read for the getters and write for the setters. The io_uring opcodes are numbered 0 to
  48 without gap or repetition, below the last opcode.\<close>

theorem command_numbers_encode_structs:
  "map ioctl_type (control_commands @ io_commands) = replicate 11 (of_char (CHR ''u''))
   \<and> map ioctl_size control_commands = replicate 8 (size_of UblkCtrlCmd_struct)
   \<and> map ioctl_size io_commands = replicate 3 (size_of UblkIoCmd_struct)
   \<and> map ioctl_nr control_commands = [4..<12] \<and> map ioctl_nr io_commands = [32..<35]
   \<and> map ioctl_dir (control_commands @ io_commands) = [3, 3, 3, 3, 3, 2, 2, 2, 3, 3, 3]
   \<and> map ioctl_size [KVM_GET_REGS, KVM_SET_REGS] = replicate 2 (size_of VcpuRegs_struct)
   \<and> map ioctl_size [KVM_GET_SREGS, KVM_SET_SREGS] = replicate 2 (size_of VcpuSregs_struct)
   \<and> map ioctl_dir [KVM_GET_REGS, KVM_SET_REGS, KVM_GET_SREGS, KVM_SET_SREGS] = [2, 1, 2, 1]
   \<and> map (unat \<circ> snd) IORING_OPCODES = [0..<49] \<and> distinct (map fst IORING_OPCODES) \<and> unat IORING_OP_LAST = 49"
  by (intro conjI; code_simp)

end
