(* ===== verification/Pepita_Cli.thy ===== *)
theory Pepita_Cli
  imports Pepita_Abi Pepita_Io_Uring Pepita_Blk_Mq
begin

text \<open>
  The command-line tool of \<^verbatim>\<open>src/src/main.rs\<close>, with everything it prints, the build script \<^verbatim>\<open>src/build.rs\<close>, and the
  constants of \<^verbatim>\<open>src/src/lib.rs\<close>.  The size of \<^verbatim>\<open>Request\<close>, whose layout the language leaves open, is an argument of the
  tool; reading and parsing the binding file and converting to upper case are arguments of the build script.
\<close>

section \<open>Constants of the crate\<close>

definition constants_SECTOR_SIZE :: u32 where
  "constants_SECTOR_SIZE = 512"

definition constants_PAGE_SIZE :: usize where
  "constants_PAGE_SIZE = 4096"

definition constants_MAX_QUEUE_DEPTH :: u16 where
  "constants_MAX_QUEUE_DEPTH = 32768"

definition constants_MAX_HW_QUEUES :: u16 where
  "constants_MAX_HW_QUEUES = 128"

section \<open>The verification tool\<close>

text \<open>\<^verbatim>\<open>println!\<close> of a text.\<close>

definition line :: "str \<Rightarrow> str" where
  "line s = s @ [10]"

definition CARGO_PKG_VERSION :: str where
  "CARGO_PKG_VERSION = ascii ''0.1.1''"

text \<open>The usage text; the dash after the version is U+2014.\<close>

definition usage :: str where
  "usage =
     ascii ''pepita '' @ CARGO_PKG_VERSION @ ascii '' '' @ [0xE2, 0x80, 0x94]
     @ line (ascii '' Sovereign AI kernel interface verification'') @ line []
     @ line (ascii ''Usage: pepita [OPTIONS]'') @ line []
     @ line (ascii ''Options:'')
     @ line (ascii ''  -V, --version  Print version'')
     @ line (ascii ''  -h, --help     Print help'') @ line []
     @ ascii ''Run without arguments to perform full ABI verification.''"

definition print_struct_info :: "nat \<Rightarrow> str" where
  "print_struct_info request_size =
     line (ascii ''Struct Sizes (ABI Verification):'')
     @ line (ascii ''  UblkCtrlCmd:  '' @ decimal (size_of UblkCtrlCmd_struct) @ ascii '' bytes (expected: 32)'')
     @ line (ascii ''  UblkIoDesc:   '' @ decimal (size_of UblkIoDesc_struct) @ ascii '' bytes (expected: 24)'')
     @ line (ascii ''  UblkIoCmd:    '' @ decimal (size_of UblkIoCmd_struct) @ ascii '' bytes (expected: 16)'')
     @ line (ascii ''  IoUringSqe:   '' @ decimal (size_of IoUringSqe_struct) @ ascii '' bytes (expected: 64)'')
     @ line (ascii ''  IoUringCqe:   '' @ decimal (size_of IoUringCqe_struct) @ ascii '' bytes (expected: 16)'')
     @ line (ascii ''  Request:      '' @ decimal request_size @ ascii '' bytes'')
     @ line (ascii ''  PhysAddr:     '' @ decimal (size_of PhysAddr_struct) @ ascii '' bytes'')
     @ line (ascii ''  VirtAddr:     '' @ decimal (size_of VirtAddr_struct) @ ascii '' bytes'')
     @ line []"

definition print_constants :: str where
  "print_constants =
     line (ascii ''Kernel Constants:'')
     @ line (ascii ''  PAGE_SIZE:          '' @ decimal (unat PAGE_BYTES))
     @ line (ascii ''  BLK_MQ_MAX_DEPTH:   '' @ decimal (unat BLK_MQ_MAX_DEPTH))
     @ line (ascii ''  BLK_MQ_MAX_HW_QUEUES: '' @ decimal (unat BLK_MQ_MAX_HW_QUEUES))
     @ line (ascii ''  IORING_OP_NOP:      '' @ decimal (unat IORING_OP_NOP))
     @ line (ascii ''  IORING_OP_READ:     '' @ decimal (unat IORING_OP_READ))
     @ line (ascii ''  IORING_OP_URING_CMD: '' @ decimal (unat IORING_OP_URING_CMD))
     @ line (ascii ''  UBLK_U_CMD_ADD_DEV: 0x'' @ hex 8 (unat UBLK_U_CMD_ADD_DEV))
     @ line []"

text \<open>The derived \<^verbatim>\<open>Debug\<close> of \<^verbatim>\<open>RequestOp\<close>.\<close>

fun RequestOp_debug :: "RequestOp \<Rightarrow> string" where
  "RequestOp_debug ReadOp = ''Read''"
| "RequestOp_debug WriteOp = ''Write''"
| "RequestOp_debug FlushOp = ''Flush''"
| "RequestOp_debug DiscardOp = ''Discard''"
| "RequestOp_debug WriteZeroesOp = ''WriteZeroes''"
| "RequestOp_debug SecureEraseOp = ''SecureErase''"
| "RequestOp_debug ZoneResetOp = ''ZoneReset''"
| "RequestOp_debug ZoneOpenOp = ''ZoneOpen''"
| "RequestOp_debug ZoneCloseOp = ''ZoneClose''"
| "RequestOp_debug ZoneFinishOp = ''ZoneFinish''"

definition ok_text :: "bool \<Rightarrow> str" where
  "ok_text b = ascii (if b then ''OK'' else ''FAIL'')"

text \<open>What \<^verbatim>\<open>verify_abi\<close> prints, and its exit code: 0 when every check passes, 1 otherwise.\<close>

definition verify_abi :: "str \<times> nat" where
  "verify_abi =
     (let ublk_ctrl_ok = size_of UblkCtrlCmd_struct = 32;
          ublk_io_desc_ok = size_of UblkIoDesc_struct = 24;
          ublk_io_cmd_ok = size_of UblkIoCmd_struct = 16;
          sqe_ok = size_of IoUringSqe_struct = 64;
          cqe_ok = size_of IoUringCqe_struct = 16;
          phys_align_ok = align_of PhysAddr_struct = 8;
          virt_align_ok = align_of VirtAddr_struct = 8;
          sqe_align_ok = align_of IoUringSqe_struct = 8;
          ctrl = UblkCtrlCmd_new 0;
          sqe = IoUringSqe_nop 0;
          req = Request_new 0 0 ReadOp;
          config = TagSetConfig_new 4 128;
          report =
            line (ascii ''ABI Verification:'')
            @ line (ascii ''  UblkCtrlCmd size: '' @ ok_text ublk_ctrl_ok)
            @ line (ascii ''  UblkIoDesc size:  '' @ ok_text ublk_io_desc_ok)
            @ line (ascii ''  UblkIoCmd size:   '' @ ok_text ublk_io_cmd_ok)
            @ line (ascii ''  IoUringSqe size:  '' @ ok_text sqe_ok)
            @ line (ascii ''  IoUringCqe size:  '' @ ok_text cqe_ok)
            @ line []
            @ line (ascii ''Alignment Verification:'')
            @ line (ascii ''  PhysAddr align:   '' @ ok_text phys_align_ok)
            @ line (ascii ''  VirtAddr align:   '' @ ok_text virt_align_ok)
            @ line (ascii ''  IoUringSqe align: '' @ ok_text sqe_align_ok)
            @ line []
            @ line (ascii ''Construction Tests:'')
            @ line (ascii ''  UblkCtrlCmd: dev_id='' @ decimal (unat (UblkCtrlCmd_dev_id ctrl)))
            @ line (ascii ''  IoUringSqe::nop: opcode='' @ decimal (unat (sqe_opcode sqe)))
            @ line (ascii ''  Request: op='' @ ascii (RequestOp_debug (Request_op req))
                @ ascii '', tag='' @ decimal (unat (Request_tag req)))
            @ (case TagSetConfig_validate config of
                 Inr _ \<Rightarrow> line (ascii ''  TagSetConfig: valid'')
               | Inl e \<Rightarrow> line (ascii ''  TagSetConfig: invalid - '' @ ascii (KernelError_fmt e)))
            @ line [];
          all_ok = ublk_ctrl_ok \<and> ublk_io_desc_ok \<and> ublk_io_cmd_ok \<and> sqe_ok \<and> cqe_ok
            \<and> phys_align_ok \<and> virt_align_ok \<and> sqe_align_ok
      in if all_ok then (report @ line (ascii ''All ABI checks passed!''), 0)
         else (report @ line (ascii ''WARNING: Some ABI checks failed!''), 1))"

definition banner :: str where
  "banner =
     line (ascii ''Pepita - Tiny First-Principles Rust Kernel Interfaces'')
     @ line (ascii ''======================================================'') @ line []"

definition unrecognised :: "str \<Rightarrow> str" where
  "unrecognised arg =
     line (ascii ''pepita: unrecognised argument '' @ [39] @ arg @ [39]) @ line [] @ line usage"

text \<open>\<^verbatim>\<open>main\<close>: what goes to the standard output and to the standard error, and the exit code.  The first argument is
  the name of the program.  The arguments are bytes; collecting \<^verbatim>\<open>std::env::args()\<close> panics when one of them is not
  valid UTF-8.\<close>

definition main :: "nat \<Rightarrow> str list \<Rightarrow> (str \<times> str \<times> nat) exec" where
  "main request_size args =
     (if \<exists>arg \<in> set args. \<not> utf8_valid arg then Panic
      else Done
       (if 1 < length args
        then (if args ! 1 = ascii ''--version'' \<or> args ! 1 = ascii ''-V''
              then (line (ascii ''pepita '' @ CARGO_PKG_VERSION), [], 0)
              else if args ! 1 = ascii ''--help'' \<or> args ! 1 = ascii ''-h'' then (line usage, [], 0)
              else ([], unrecognised (args ! 1), 2))
        else (case verify_abi of
                (report, code) \<Rightarrow>
                  (banner @ print_struct_info request_size @ print_constants @ report, [], code))))"

section \<open>The build script\<close>

record Binding =
  bi_contract :: str
  bi_equation :: str
  bi_status :: str

text \<open>\<^verbatim>\<open>trim_end_matches\<close>: the suffix is removed as often as it occurs.\<close>

function trim_end_matches :: "str \<Rightarrow> str \<Rightarrow> str" where
  "trim_end_matches suf s =
     (if suf \<noteq> [] \<and> length suf \<le> length s \<and> drop (length s - length suf) s = suf
      then trim_end_matches suf (take (length s - length suf) s) else s)"
  by pat_completeness auto
termination
  by (relation "measure (length \<circ> snd)") (auto simp flip: length_greater_0_conv)

declare trim_end_matches.simps [simp del]

definition dashes_to_underscores :: "str \<Rightarrow> str" where
  "dashes_to_underscores s = map (\<lambda>b. if b = 45 then 95 else b) s"

text \<open>The loop over the bindings: the lines it prints, and the number of those implemented.\<close>

definition binding_line :: "(str \<Rightarrow> str) \<Rightarrow> Binding \<Rightarrow> str" where
  "binding_line to_uppercase b =
     (let stem = dashes_to_underscores (to_uppercase (trim_end_matches (ascii ''.yaml'') (bi_contract b)));
          eq = dashes_to_underscores (to_uppercase (bi_equation b))
      in line (ascii ''cargo:rustc-env=CONTRACT_'' @ stem @ ascii ''_'' @ eq @ ascii ''='' @ bi_status b))"

fun binding_loop :: "(str \<Rightarrow> str) \<Rightarrow> Binding list \<Rightarrow> u32 \<Rightarrow> str \<times> u32" where
  "binding_loop to_uppercase [] implemented = ([], implemented)"
| "binding_loop to_uppercase (b # bs) implemented =
     (case binding_loop to_uppercase bs
             (if bi_status b = ascii ''implemented'' then implemented + 1 else implemented) of
        (out, n) \<Rightarrow> (binding_line to_uppercase b @ out, n))"

text \<open>\<open>file\<close> is the text of the binding file, if the path exists and can be read.\<close>

definition build_main ::
  "(str \<Rightarrow> str) \<Rightarrow> (str \<Rightarrow> Binding list option) \<Rightarrow> str \<Rightarrow> str option \<Rightarrow> str" where
  "build_main to_uppercase parse binding_path file =
     line (ascii ''cargo:rerun-if-changed='' @ binding_path)
     @ (case (case file of None \<Rightarrow> None | Some yaml \<Rightarrow> parse yaml) of
          None \<Rightarrow> line (ascii ''cargo:rustc-env=CONTRACT_BINDING_SOURCE=none'')
        | Some bindings \<Rightarrow>
            (case binding_loop to_uppercase bindings 0 of
               (out, implemented) \<Rightarrow>
                 out @ line (ascii ''cargo:rustc-env=CONTRACT_BINDING_SOURCE=binding.yaml'')
                 @ line (ascii ''cargo:rustc-env=CONTRACT_TOTAL='' @ decimal (unat (word_of_nat (length bindings) :: u32)))
                 @ line (ascii ''cargo:rustc-env=CONTRACT_IMPLEMENTED='' @ decimal (unat implemented))))"

section \<open>Lemmas\<close>

text \<open>The crate has each of its limits twice; the two agree.\<close>

lemma constants_agree:
  "constants_MAX_QUEUE_DEPTH = BLK_MQ_MAX_DEPTH \<and> constants_MAX_HW_QUEUES = BLK_MQ_MAX_HW_QUEUES
   \<and> constants_PAGE_SIZE = PAGE_BYTES"
  by (simp add: constants_MAX_QUEUE_DEPTH_def BLK_MQ_MAX_DEPTH_def constants_MAX_HW_QUEUES_def
      BLK_MQ_MAX_HW_QUEUES_def constants_PAGE_SIZE_def PAGE_BYTES_def)

lemma binding_loop_counts:
  "binding_loop u bs n = (concat (map (binding_line u) bs),
     n + word_of_nat (length (filter (\<lambda>b. bi_status b = ascii ''implemented'') bs)))"
  by (induction bs arbitrary: n) (simp_all add: add.assoc)

lemma trim_end_matches_none:
  "suf \<noteq> [] \<Longrightarrow> take (length (trim_end_matches suf s)) s = trim_end_matches suf s
     \<and> (\<forall>r. trim_end_matches suf s \<noteq> r @ suf)"
proof (induction suf s rule: trim_end_matches.induct)
  case (1 suf s)
  show ?case
  proof (cases "length suf \<le> length s \<and> drop (length s - length suf) s = suf")
    case True
    with 1 have "trim_end_matches suf s = trim_end_matches suf (take (length s - length suf) s)"
      by (subst trim_end_matches.simps) simp
    with 1 True show ?thesis
      by (metis (no_types, lifting) append_take_drop_id take_take min.absorb2 length_take nle_le take_all_iff)
  next
    case False
    then have stop: "trim_end_matches suf s = s"
      by (subst trim_end_matches.simps) auto
    from False have "s \<noteq> r @ suf" for r by auto
    with stop show ?thesis by simp
  qed
qed

lemma verify_abi_passes: "snd verify_abi = 0"
  by code_simp

lemma version_text: "ascii ''pepita '' @ CARGO_PKG_VERSION = ascii ''pepita 0.1.1''"
  by code_simp

section \<open>Layout and command numbers\<close>

text \<open>The kernel structs have exactly the layout their documentation tables give, field by field,
  without padding, and the sizes 32, 24, 16, 64 and 16; hence the verification tool, run without
  arguments, prints its report and exits with 0; an argument that is not valid UTF-8 makes it panic; with another argument it exits with 0 for the version and help
  options, and for everything else prints nothing but an error and the usage, both to the standard error, and
  exits with 2. The block request header occupies exactly its declared 16 bytes; but the vsock
  packet header, declared with 44 bytes, occupies 48: \<^verbatim>\<open>repr(C)\<close> pads it to its alignment.\<close>

theorem abi_layout_verified:
  "offsets UblkCtrlCmd_struct =
     [(''dev_id'', 0, 4), (''queue_id'', 4, 2), (''len'', 6, 2), (''addr'', 8, 8), (''data'', 16, 8),
      (''dev_path_len'', 24, 2), (''pad'', 26, 2), (''reserved'', 28, 4)]
   \<and> offsets UblkIoDesc_struct =
     [(''op_flags'', 0, 4), (''nr_sectors'', 4, 4), (''start_sector'', 8, 8), (''addr'', 16, 8)]
   \<and> offsets UblkIoCmd_struct = [(''q_id'', 0, 2), (''tag'', 2, 2), (''result'', 4, 4), (''addr'', 8, 8)]
   \<and> offsets IoUringSqe_struct =
     [(''opcode'', 0, 1), (''flags'', 1, 1), (''ioprio'', 2, 2), (''fd'', 4, 4), (''off'', 8, 8), (''addr'', 16, 8),
      (''len'', 24, 4), (''op_flags'', 28, 4), (''user_data'', 32, 8), (''buf_index'', 40, 2),
      (''personality'', 42, 2), (''splice_fd_in'', 44, 4), (''addr3'', 48, 8), (''__pad2'', 56, 8)]
   \<and> offsets IoUringCqe_struct = [(''user_data'', 0, 8), (''res'', 8, 4), (''flags'', 12, 4)]
   \<and> map size_of [UblkCtrlCmd_struct, UblkIoDesc_struct, UblkIoCmd_struct, IoUringSqe_struct, IoUringCqe_struct] =
     [32, 24, 16, 64, 16]
   \<and> size_of BlockRequestHeader_struct = unat BlockRequestHeader_SIZE
   \<and> size_of VsockPacketHeader_struct = unat VsockPacketHeader_SIZE + 4
   \<and> snd verify_abi = 0
   \<and> main request_size args =
     (if \<exists>arg \<in> set args. \<not> utf8_valid arg then Panic else Done (if length args \<le> 1 then (banner @ print_struct_info request_size @ print_constants @ fst verify_abi, [], 0)
      else if args ! 1 \<in> {ascii ''--version'', ascii ''-V''} then (line (ascii ''pepita 0.1.1''), [], 0)
      else if args ! 1 \<in> {ascii ''--help'', ascii ''-h''} then (line usage, [], 0)
      else ([], unrecognised (args ! 1), 2)))"
proof (intro conjI)
  show "main request_size args =
     (if \<exists>arg \<in> set args. \<not> utf8_valid arg then Panic else Done (if length args \<le> 1 then (banner @ print_struct_info request_size @ print_constants @ fst verify_abi, [], 0)
      else if args ! 1 \<in> {ascii ''--version'', ascii ''-V''} then (line (ascii ''pepita 0.1.1''), [], 0)
      else if args ! 1 \<in> {ascii ''--help'', ascii ''-h''} then (line usage, [], 0)
      else ([], unrecognised (args ! 1), 2)))"
    using verify_abi_passes by (auto simp: main_def version_text case_prod_beta)
qed (code_simp | rule verify_abi_passes)+

end
