(* ===== verification/Pepita_Contracts.thy ===== *)
theory Pepita_Contracts
  imports Pepita_Prelude
begin

text \<open>
  The contract functions of \<^verbatim>\<open>src/src/verification_specs.rs\<close> with the postconditions their annotations state.  The
  annotations are over mathematical integers, the functions over \<^verbatim>\<open>u64\<close>: the lemmas say for every function whether
  its contract holds, and for the arithmetic ones exactly on which arguments.  The operations on \<^verbatim>\<open>f64\<close> are arguments.
\<close>

section \<open>Configuration and numeric contracts\<close>

definition validate_size :: "usize \<Rightarrow> usize \<Rightarrow> bool" where
  "validate_size sz limit \<longleftrightarrow> sz \<le> limit"

definition validate_index :: "usize \<Rightarrow> usize \<Rightarrow> bool" where
  "validate_index i len \<longleftrightarrow> i < len"

definition validated_len :: "u8 list \<Rightarrow> usize" where
  "validated_len data = word_of_nat (length data)"

definition checked_add :: "u64 \<Rightarrow> u64 \<Rightarrow> u64 option" where
  "checked_add a b = (if unat a + unat b < 2 ^ 64 then Some (a + b) else None)"

definition is_valid_float :: "('f \<Rightarrow> bool) \<Rightarrow> 'f \<Rightarrow> bool" where
  "is_valid_float is_finite v \<longleftrightarrow> is_finite v"

text \<open>\<open>clamp lo hi x\<close> is \<^verbatim>\<open>x.clamp(lo, hi)\<close>.\<close>

definition normalize ::
  "('f \<Rightarrow> 'f \<Rightarrow> 'f) \<Rightarrow> ('f \<Rightarrow> 'f \<Rightarrow> 'f \<Rightarrow> 'f) \<Rightarrow> 'f f64_ops \<Rightarrow> 'f \<Rightarrow> 'f \<Rightarrow> 'f \<Rightarrow> 'f" where
  "normalize sub clamp F val lo hi =
     clamp (f64_literal F ''0.0'') (f64_literal F ''1.0'') (f64_div F (sub val lo) (sub hi lo))"

section \<open>Kernel-interface contracts\<close>

definition verify_syscall_bounds :: "u64 \<Rightarrow> u64 \<Rightarrow> bool" where
  "verify_syscall_bounds syscall_nr max_syscall \<longleftrightarrow> syscall_nr \<le> max_syscall"

definition verify_valid_syscall_nr :: "u64 \<Rightarrow> u64" where
  "verify_valid_syscall_nr nr = nr"

definition verify_buffer_size :: "u64 \<Rightarrow> u64 \<Rightarrow> u64" where
  "verify_buffer_size buf_size max_buf_size = (if max_buf_size < buf_size then max_buf_size else buf_size)"

definition verify_remaining_buffer :: "u64 \<Rightarrow> u64 \<Rightarrow> u64" where
  "verify_remaining_buffer buf_len offset = buf_len - offset"

definition verify_total_buffer_size :: "u64 \<Rightarrow> u64 \<Rightarrow> u64" where
  "verify_total_buffer_size n element_size = n * element_size"

definition verify_fd_bounds :: "u64 \<Rightarrow> u64 \<Rightarrow> bool" where
  "verify_fd_bounds fd max_fd \<longleftrightarrow> fd < max_fd"

text \<open>An \<^verbatim>\<open>i64\<close> is read with \<^const>\<open>sint\<close>.\<close>

definition verify_stdio_fd :: "64 word \<Rightarrow> bool" where
  "verify_stdio_fd fd \<longleftrightarrow> 0 \<le> sint fd \<and> sint fd \<le> 2"

text \<open>The division panics on a page size of zero.\<close>

definition verify_page_count :: "u64 \<Rightarrow> u64 \<Rightarrow> u64 exec" where
  "verify_page_count sz page_size = (if page_size = 0 then Panic else Done ((sz + page_size - 1) div page_size))"

definition verify_page_aligned :: "u64 \<Rightarrow> u64 \<Rightarrow> bool exec" where
  "verify_page_aligned addr page_size = (if page_size = 0 then Panic else Done (addr mod page_size = 0))"

definition verify_page_allocation :: "u64 \<Rightarrow> u64" where
  "verify_page_allocation num_pages = num_pages * 4096"

definition verify_signal_number :: "u64 \<Rightarrow> bool" where
  "verify_signal_number signum \<longleftrightarrow> signum \<le> 64"

definition verify_file_mode :: "u64 \<Rightarrow> u64" where
  "verify_file_mode mode = mode"

definition verify_read_permission :: "u64 \<Rightarrow> bool" where
  "verify_read_permission rwx \<longleftrightarrow> rwx AND 4 \<noteq> 0"

definition verify_pid_bounds :: "u64 \<Rightarrow> u64 \<Rightarrow> bool" where
  "verify_pid_bounds pid max_pid \<longleftrightarrow> pid \<le> max_pid"

definition verify_ioctl_cmd :: "u64 \<Rightarrow> u64" where
  "verify_ioctl_cmd cmd = cmd"

definition verify_timeout_bounds :: "u64 \<Rightarrow> u64 \<Rightarrow> u64" where
  "verify_timeout_bounds timeout_ms max_timeout = (if max_timeout < timeout_ms then max_timeout else timeout_ms)"

definition verify_time_conversion :: "u64 \<Rightarrow> u64 \<Rightarrow> u64" where
  "verify_time_conversion seconds millis = seconds * 1000 + millis"

section \<open>The contracts\<close>

lemma unat_u64_less: "unat (w :: u64) < 2 ^ 64"
  using unsigned_less [of w] by simp

lemma checked_add_contract:
  "checked_add a b = Some r \<longleftrightarrow> unat a + unat b < 2 ^ 64 \<and> unat r = unat a + unat b"
  by (auto simp: checked_add_def word_unat_eq_iff unat_word_ariths)

lemma verify_buffer_size_contract: "verify_buffer_size n m = min n m"
  by (auto simp: verify_buffer_size_def min_def)

lemma verify_timeout_bounds_contract: "verify_timeout_bounds t m = min t m"
  by (auto simp: verify_timeout_bounds_def min_def)

lemma verify_remaining_buffer_contract:
  "int (unat (verify_remaining_buffer len off)) = int (unat len) - int (unat off) \<longleftrightarrow> off \<le> len"
proof
  assume "int (unat (verify_remaining_buffer len off)) = int (unat len) - int (unat off)"
  then show "off \<le> len"
    using uint_ge_0 [of "verify_remaining_buffer len off"] by (simp add: word_le_def)
qed (simp add: verify_remaining_buffer_def unat_sub word_le_nat_alt of_nat_diff)

lemma verify_total_buffer_size_contract:
  "unat (verify_total_buffer_size n s) = unat n * unat s \<longleftrightarrow> unat n * unat s < 2 ^ 64"
proof
  assume "unat (verify_total_buffer_size n s) = unat n * unat s"
  then show "unat n * unat s < 2 ^ 64" using unat_u64_less [of "verify_total_buffer_size n s"] by simp
qed (simp add: verify_total_buffer_size_def unat_word_ariths)

lemma verify_page_allocation_contract:
  "num_pages \<le> 1048576 \<Longrightarrow> unat (verify_page_allocation num_pages) = unat num_pages * 4096"
  by (simp add: verify_page_allocation_def unat_word_ariths word_le_nat_alt)

lemma verify_time_conversion_contract:
  "unat (verify_time_conversion s ms) = unat s * 1000 + unat ms \<longleftrightarrow> unat s * 1000 + unat ms < 2 ^ 64"
proof
  assume "unat (verify_time_conversion s ms) = unat s * 1000 + unat ms"
  then show "unat s * 1000 + unat ms < 2 ^ 64" using unat_u64_less [of "verify_time_conversion s ms"] by simp
qed (simp add: verify_time_conversion_def unat_word_ariths mod_simps)

lemma round_up_covers:
  fixes m p :: nat
  assumes "0 < p"
  shows "m \<le> (m + p - 1) div p * p"
proof -
  from assms have "m + p - 1 < p + (m + p - 1) div p * p" by (rule dividend_less_div_times)
  with assms show ?thesis by linarith
qed

text \<open>The page count covers the size exactly as long as size and page size together fit: near the end of the address
  space the sum wraps, and the count is too small.\<close>

theorem verify_page_count_contract:
  assumes "verify_page_count sz page_size = Done r"
  shows "unat sz \<le> unat r * unat page_size \<longleftrightarrow> unat sz + unat page_size \<le> 2 ^ 64"
proof -
  let ?s = "unat sz" and ?p = "unat page_size" and ?w = "unat (sz + page_size - 1)"
  from assms have r: "unat r = ?w div ?p" and p: "0 < ?p"
    by (auto simp: verify_page_count_def unat_div unat_gt_0 split: if_splits)
  have "?w = unat (sz + (page_size - 1))" by (simp add: add_diff_eq)
  also have "\<dots> = (?s + (?p - 1)) mod 2 ^ 64"
    using p by (simp add: unat_word_ariths(1) unat_minus_one unat_gt_0)
  finally have sum: "?w = (?s + (?p - 1)) mod 2 ^ 64" .
  have bounds: "?s < 2 ^ 64" "?p < 2 ^ 64" by (rule unat_u64_less)+
  show ?thesis
  proof (cases "?s + ?p \<le> 2 ^ 64")
    case True
    with p have "?w = ?s + ?p - 1" unfolding sum by simp
    moreover from p have "?s \<le> (?s + ?p - 1) div ?p * ?p" by (rule round_up_covers)
    ultimately show ?thesis using True r by simp
  next
    case False
    with bounds have "?w = ?s + (?p - 1) - 2 ^ 64"
      unfolding sum by (subst le_mod_geq) simp_all
    with False bounds have "?w < ?s" by simp
    moreover have "unat r * ?p \<le> ?w" unfolding r by (rule div_times_less_eq_dividend)
    ultimately show ?thesis using False by linarith
  qed
qed

lemma verify_page_count_short: "verify_page_count (2 ^ 64 - 1) 4096 = Done 0"
  by (simp add: verify_page_count_def)

end
