(* ===== verification/Pepita_Simd.thy ===== *)
theory Pepita_Simd
  imports Pepita_Error
begin

text \<open>
  The vector and matrix kernels of \<^verbatim>\<open>src/src/simd.rs\<close>: runtime feature detection, the dispatch to the
  AVX-512, AVX2, SSE and NEON kernels, their scalar fallbacks, tiled matrix multiplication and
  transposition.

  Floating-point arithmetic is an argument (\<open>float_ops\<close>), so that a theorem that holds for every
  such argument holds of IEEE arithmetic with its rounding.  A vector register is the list of its
  lanes; a lane-wise intrinsic applies the scalar operation lane by lane.  Accessing memory outside
  a slice through a raw pointer is undefined behaviour; the model gives it the value \<open>Panic\<close>, so that
  a proof that a kernel returns also shows that it stays inside its slices.
\<close>

section \<open>Capabilities\<close>

text \<open>The three cases of the \<^verbatim>\<open>cfg(target_arch)\<close> attributes.\<close>

datatype target_arch = X86_64 | Aarch64 | OtherArch

record SimdCapabilities =
  sse41 :: bool
  sse42 :: bool
  avx :: bool
  avx2 :: bool
  fma :: bool
  avx512f :: bool
  avx512vl :: bool
  neon :: bool

definition SimdCapabilities_default :: SimdCapabilities where
  "SimdCapabilities_default =
     \<lparr>sse41 = False, sse42 = False, avx = False, avx2 = False, fma = False, avx512f = False,
      avx512vl = False, neon = False\<rparr>"

text \<open>\<^verbatim>\<open>is_x86_feature_detected!\<close> is the argument \<open>feature\<close>.\<close>

definition SimdCapabilities_detect :: "target_arch \<Rightarrow> (string \<Rightarrow> bool) \<Rightarrow> SimdCapabilities" where
  "SimdCapabilities_detect arch feature =
     (case arch of
        X86_64 \<Rightarrow>
          \<lparr>sse41 = feature ''sse4.1'', sse42 = feature ''sse4.2'', avx = feature ''avx'',
           avx2 = feature ''avx2'', fma = feature ''fma'', avx512f = feature ''avx512f'',
           avx512vl = feature ''avx512vl'', neon = False\<rparr>
      | Aarch64 \<Rightarrow>
          \<lparr>sse41 = False, sse42 = False, avx = False, avx2 = False, fma = False, avx512f = False,
           avx512vl = False, neon = True\<rparr>
      | OtherArch \<Rightarrow> SimdCapabilities_default)"

definition SimdCapabilities_best_vector_width :: "SimdCapabilities \<Rightarrow> u32" where
  "SimdCapabilities_best_vector_width c =
     (if avx512f c then 512
      else if avx2 c \<or> avx c then 256
      else if sse42 c \<or> sse41 c then 128
      else if neon c then 128
      else 64)"

definition SimdCapabilities_best_f32_width :: "SimdCapabilities \<Rightarrow> usize" where
  "SimdCapabilities_best_f32_width c = ucast (SimdCapabilities_best_vector_width c div 32)"

definition SimdCapabilities_best_f64_width :: "SimdCapabilities \<Rightarrow> usize" where
  "SimdCapabilities_best_f64_width c = ucast (SimdCapabilities_best_vector_width c div 64)"

definition SimdCapabilities_has_simd :: "SimdCapabilities \<Rightarrow> bool" where
  "SimdCapabilities_has_simd c \<longleftrightarrow> sse41 c \<or> neon c"

definition SimdCapabilities_description :: "SimdCapabilities \<Rightarrow> string" where
  "SimdCapabilities_description c =
     (if avx512f c then ''AVX-512''
      else if avx2 c then ''AVX2''
      else if avx c then ''AVX''
      else if sse42 c then ''SSE4.2''
      else if sse41 c then ''SSE4.1''
      else if neon c then ''NEON''
      else ''Scalar'')"

record SimdOps =
  so_caps :: SimdCapabilities

definition SimdOps_new :: "target_arch \<Rightarrow> (string \<Rightarrow> bool) \<Rightarrow> SimdOps" where
  "SimdOps_new arch feature = \<lparr>so_caps = SimdCapabilities_detect arch feature\<rparr>"

definition SimdOps_default :: "target_arch \<Rightarrow> (string \<Rightarrow> bool) \<Rightarrow> SimdOps" where
  "SimdOps_default arch feature = SimdOps_new arch feature"

definition SimdOps_with_caps :: "SimdCapabilities \<Rightarrow> SimdOps" where
  "SimdOps_with_caps caps = \<lparr>so_caps = caps\<rparr>"

definition SimdOps_caps :: "SimdOps \<Rightarrow> SimdCapabilities" where
  "SimdOps_caps ops = so_caps ops"

section \<open>Arithmetic and memory\<close>

text \<open>
  Addition and multiplication of a float type, the constant 0.0 of the kernels, and the value from
  which the standard library's \<^verbatim>\<open>sum()\<close> starts (0.0 or -0.0, depending on its version).
\<close>

record 'f float_ops =
  fl_add :: "'f \<Rightarrow> 'f \<Rightarrow> 'f"
  fl_mul :: "'f \<Rightarrow> 'f \<Rightarrow> 'f"
  fl_zero :: 'f
  fl_sum_start :: 'f

text \<open>\<^verbatim>\<open>loadu\<close> of \<open>w\<close> lanes at an offset, and \<^verbatim>\<open>storeu\<close> of a register.\<close>

definition loadu :: "nat \<Rightarrow> 'f list \<Rightarrow> nat \<Rightarrow> 'f list exec" where
  "loadu w xs offset = (if offset + w \<le> length xs then Done (take w (drop offset xs)) else Panic)"

definition storeu :: "'f list \<Rightarrow> nat \<Rightarrow> 'f list \<Rightarrow> 'f list exec" where
  "storeu xs offset v = (if offset + length v \<le> length xs then Done (overwrite xs offset v) else Panic)"

text \<open>The loop \<^verbatim>\<open>for i in start..a.len() { c[i] = f(a[i], b[i]) }\<close>.\<close>

definition scalar_loop :: "('f \<Rightarrow> 'f \<Rightarrow> 'f) \<Rightarrow> 'f list \<Rightarrow> 'f list \<Rightarrow> nat \<Rightarrow> 'f list \<Rightarrow> 'f list exec" where
  "scalar_loop f a b start =
     exec_fold (\<lambda>i c. exec_bind (index a i) (\<lambda>x. exec_bind (index b i) (\<lambda>y.
       if i < length c then Done (c[i := f x y]) else Panic))) [start..<length a]"

text \<open>The shape of the vector kernels: whole chunks of \<open>w\<close> lanes, then the remainder.\<close>

definition chunk_step ::
  "nat \<Rightarrow> ('f \<Rightarrow> 'f \<Rightarrow> 'f) \<Rightarrow> 'f list \<Rightarrow> 'f list \<Rightarrow> nat \<Rightarrow> 'f list \<Rightarrow> 'f list exec" where
  "chunk_step w f a b i c =
     (let offset = i * w
      in exec_bind (loadu w a offset) (\<lambda>va. exec_bind (loadu w b offset) (\<lambda>vb.
           storeu c offset (map2 f va vb))))"

definition vector_loop ::
  "nat \<Rightarrow> ('f \<Rightarrow> 'f \<Rightarrow> 'f) \<Rightarrow> 'f list \<Rightarrow> 'f list \<Rightarrow> 'f list \<Rightarrow> 'f list exec" where
  "vector_loop w f a b c =
     (let chunks = length a div w
      in exec_bind (exec_fold (chunk_step w f a b) [0..<chunks] c) (scalar_loop f a b (chunks * w)))"

section \<open>Element-wise kernels\<close>

definition SimdOps_vadd_f32_scalar ::
  "'f float_ops \<Rightarrow> 'f list \<Rightarrow> 'f list \<Rightarrow> 'f list \<Rightarrow> 'f list exec" where
  "SimdOps_vadd_f32_scalar fl a b = scalar_loop (fl_add fl) a b 0"

definition SimdOps_vadd_f64_scalar ::
  "'f float_ops \<Rightarrow> 'f list \<Rightarrow> 'f list \<Rightarrow> 'f list \<Rightarrow> 'f list exec" where
  "SimdOps_vadd_f64_scalar fl a b = scalar_loop (fl_add fl) a b 0"

definition SimdOps_vmul_f32_scalar ::
  "'f float_ops \<Rightarrow> 'f list \<Rightarrow> 'f list \<Rightarrow> 'f list \<Rightarrow> 'f list exec" where
  "SimdOps_vmul_f32_scalar fl a b = scalar_loop (fl_mul fl) a b 0"

definition SimdOps_vadd_f32_avx512 ::
  "'f float_ops \<Rightarrow> 'f list \<Rightarrow> 'f list \<Rightarrow> 'f list \<Rightarrow> 'f list exec" where
  "SimdOps_vadd_f32_avx512 fl = vector_loop 16 (fl_add fl)"

definition SimdOps_vadd_f64_avx512 ::
  "'f float_ops \<Rightarrow> 'f list \<Rightarrow> 'f list \<Rightarrow> 'f list \<Rightarrow> 'f list exec" where
  "SimdOps_vadd_f64_avx512 fl = vector_loop 8 (fl_add fl)"

definition SimdOps_vmul_f32_avx512 ::
  "'f float_ops \<Rightarrow> 'f list \<Rightarrow> 'f list \<Rightarrow> 'f list \<Rightarrow> 'f list exec" where
  "SimdOps_vmul_f32_avx512 fl = vector_loop 16 (fl_mul fl)"

definition SimdOps_vadd_f32_avx2 ::
  "'f float_ops \<Rightarrow> 'f list \<Rightarrow> 'f list \<Rightarrow> 'f list \<Rightarrow> 'f list exec" where
  "SimdOps_vadd_f32_avx2 fl = vector_loop 8 (fl_add fl)"

definition SimdOps_vadd_f64_avx2 ::
  "'f float_ops \<Rightarrow> 'f list \<Rightarrow> 'f list \<Rightarrow> 'f list \<Rightarrow> 'f list exec" where
  "SimdOps_vadd_f64_avx2 fl = vector_loop 4 (fl_add fl)"

definition SimdOps_vmul_f32_avx2 ::
  "'f float_ops \<Rightarrow> 'f list \<Rightarrow> 'f list \<Rightarrow> 'f list \<Rightarrow> 'f list exec" where
  "SimdOps_vmul_f32_avx2 fl = vector_loop 8 (fl_mul fl)"

definition SimdOps_vadd_f32_sse ::
  "'f float_ops \<Rightarrow> 'f list \<Rightarrow> 'f list \<Rightarrow> 'f list \<Rightarrow> 'f list exec" where
  "SimdOps_vadd_f32_sse fl = vector_loop 4 (fl_add fl)"

definition SimdOps_vadd_f32_neon ::
  "'f float_ops \<Rightarrow> 'f list \<Rightarrow> 'f list \<Rightarrow> 'f list \<Rightarrow> 'f list exec" where
  "SimdOps_vadd_f32_neon fl = vector_loop 4 (fl_add fl)"

definition SimdOps_vadd_f32 ::
  "target_arch \<Rightarrow> SimdOps \<Rightarrow> 'f float_ops \<Rightarrow> 'f list \<Rightarrow> 'f list \<Rightarrow> 'f list \<Rightarrow> 'f list exec" where
  "SimdOps_vadd_f32 arch ops fl a b c =
     (if length a \<noteq> length b then Panic
      else if length a \<noteq> length c then Panic
      else if arch = X86_64 \<and> avx512f (so_caps ops) \<and> 16 \<le> length a then SimdOps_vadd_f32_avx512 fl a b c
      else if arch = X86_64 \<and> avx2 (so_caps ops) \<and> 8 \<le> length a then SimdOps_vadd_f32_avx2 fl a b c
      else if arch = X86_64 \<and> sse42 (so_caps ops) \<and> 4 \<le> length a then SimdOps_vadd_f32_sse fl a b c
      else if arch = Aarch64 \<and> neon (so_caps ops) \<and> 4 \<le> length a then SimdOps_vadd_f32_neon fl a b c
      else SimdOps_vadd_f32_scalar fl a b c)"

definition SimdOps_vadd_f64 ::
  "target_arch \<Rightarrow> SimdOps \<Rightarrow> 'f float_ops \<Rightarrow> 'f list \<Rightarrow> 'f list \<Rightarrow> 'f list \<Rightarrow> 'f list exec" where
  "SimdOps_vadd_f64 arch ops fl a b c =
     (if length a \<noteq> length b then Panic
      else if length a \<noteq> length c then Panic
      else if arch = X86_64 \<and> avx512f (so_caps ops) \<and> 8 \<le> length a then SimdOps_vadd_f64_avx512 fl a b c
      else if arch = X86_64 \<and> avx2 (so_caps ops) \<and> 4 \<le> length a then SimdOps_vadd_f64_avx2 fl a b c
      else SimdOps_vadd_f64_scalar fl a b c)"

definition SimdOps_vmul_f32 ::
  "target_arch \<Rightarrow> SimdOps \<Rightarrow> 'f float_ops \<Rightarrow> 'f list \<Rightarrow> 'f list \<Rightarrow> 'f list \<Rightarrow> 'f list exec" where
  "SimdOps_vmul_f32 arch ops fl a b c =
     (if length a \<noteq> length b then Panic
      else if length a \<noteq> length c then Panic
      else if arch = X86_64 \<and> avx512f (so_caps ops) \<and> 16 \<le> length a then SimdOps_vmul_f32_avx512 fl a b c
      else if arch = X86_64 \<and> avx2 (so_caps ops) \<and> 8 \<le> length a then SimdOps_vmul_f32_avx2 fl a b c
      else SimdOps_vmul_f32_scalar fl a b c)"

section \<open>Dot product\<close>

text \<open>\<^verbatim>\<open>a.iter().zip(b.iter()).map(|(x, y)| x * y).sum()\<close>.\<close>

definition SimdOps_dot_f32_scalar :: "'f float_ops \<Rightarrow> 'f list \<Rightarrow> 'f list \<Rightarrow> 'f" where
  "SimdOps_dot_f32_scalar fl a b = foldl (fl_add fl) (fl_sum_start fl) (map2 (fl_mul fl) a b)"

text \<open>
  The horizontal sum of the eight lanes: \<^verbatim>\<open>castps256_ps128\<close> and \<^verbatim>\<open>extractf128_ps(_, 1)\<close> are the low
  and the high four lanes, \<^verbatim>\<open>movehl_ps(v, v)\<close> has lanes 2 and 3 in front, \<^verbatim>\<open>shuffle_ps(v, v, 1)\<close> has
  lane 1 in front, \<^verbatim>\<open>add_ss\<close> adds the first lanes and \<^verbatim>\<open>cvtss_f32\<close> reads the first lane.
\<close>

definition horizontal_sum :: "'f float_ops \<Rightarrow> 'f list \<Rightarrow> 'f" where
  "horizontal_sum fl v =
     (let sum128 = map2 (fl_add fl) (take 4 v) (drop 4 v);
          sum64 = map2 (fl_add fl) sum128 (drop 2 sum128 @ drop 2 sum128);
          sum32 = fl_add fl (sum64 ! 0) (sum64 ! 1)
      in sum32)"

definition dot_chunk :: "'f float_ops \<Rightarrow> 'f list \<Rightarrow> 'f list \<Rightarrow> nat \<Rightarrow> 'f list \<Rightarrow> 'f list exec" where
  "dot_chunk fl a b i v =
     (let offset = i * 8
      in exec_bind (loadu 8 a offset) (\<lambda>va. exec_bind (loadu 8 b offset) (\<lambda>vb.
           Done (map2 (fl_add fl) v (map2 (fl_mul fl) va vb)))))"

definition dot_rest :: "'f float_ops \<Rightarrow> 'f list \<Rightarrow> 'f list \<Rightarrow> nat \<Rightarrow> 'f \<Rightarrow> 'f exec" where
  "dot_rest fl a b start =
     exec_fold (\<lambda>i s. exec_bind (index a i) (\<lambda>x. exec_bind (index b i) (\<lambda>y.
       Done (fl_add fl s (fl_mul fl x y))))) [start..<length a]"

definition SimdOps_dot_f32_avx2 :: "'f float_ops \<Rightarrow> 'f list \<Rightarrow> 'f list \<Rightarrow> 'f exec" where
  "SimdOps_dot_f32_avx2 fl a b =
     (let chunks = length a div 8
      in exec_bind (exec_fold (dot_chunk fl a b) [0..<chunks] (replicate 8 (fl_zero fl)))
           (\<lambda>v. dot_rest fl a b (chunks * 8) (horizontal_sum fl v)))"

definition SimdOps_dot_f32 :: "target_arch \<Rightarrow> SimdOps \<Rightarrow> 'f float_ops \<Rightarrow> 'f list \<Rightarrow> 'f list \<Rightarrow> 'f exec" where
  "SimdOps_dot_f32 arch ops fl a b =
     (if length a \<noteq> length b then Panic
      else if arch = X86_64 \<and> avx2 (so_caps ops) \<and> 8 \<le> length a then SimdOps_dot_f32_avx2 fl a b
      else Done (SimdOps_dot_f32_scalar fl a b))"

section \<open>Matrices\<close>

record MatrixOps =
  mo_simd :: SimdOps

definition MatrixOps_new :: "target_arch \<Rightarrow> (string \<Rightarrow> bool) \<Rightarrow> MatrixOps" where
  "MatrixOps_new arch feature = \<lparr>mo_simd = SimdOps_new arch feature\<rparr>"

definition MatrixOps_default :: "target_arch \<Rightarrow> (string \<Rightarrow> bool) \<Rightarrow> MatrixOps" where
  "MatrixOps_default arch feature = MatrixOps_new arch feature"

definition MatrixOps_caps :: "MatrixOps \<Rightarrow> SimdCapabilities" where
  "MatrixOps_caps mo = SimdOps_caps (mo_simd mo)"

definition TILE_SIZE :: usize where
  "TILE_SIZE = 32"

text \<open>
  \<^verbatim>\<open>(0..m).step_by(TILE_SIZE)\<close> with the end of each tile, and the indices \<^verbatim>\<open>lo..hi\<close> of a range.
\<close>

definition tiles :: "usize \<Rightarrow> (usize \<times> usize) list" where
  "tiles m =
     map (\<lambda>q. let i0 = word_of_nat (q * unat TILE_SIZE) in (i0, min (i0 + TILE_SIZE) m))
       [0..<(unat m + unat TILE_SIZE - 1) div unat TILE_SIZE]"

definition word_range :: "usize \<times> usize \<Rightarrow> usize list" where
  "word_range r = map word_of_nat [unat (fst r)..<unat (snd r)]"

text \<open>The innermost loop over \<^verbatim>\<open>j\<close>, the multiplication of one tile, and the whole product.\<close>

definition matmul_row ::
  "'f float_ops \<Rightarrow> 'f list \<Rightarrow> usize \<Rightarrow> usize \<Rightarrow> usize \<Rightarrow> usize list \<Rightarrow> 'f \<Rightarrow> 'f list \<Rightarrow> 'f list exec" where
  "matmul_row fl b n i kk js a_val =
     exec_fold (\<lambda>j c. exec_bind (index b (unat (kk * n + j))) (\<lambda>y.
       exec_bind (index c (unat (i * n + j))) (\<lambda>z.
         Done (c[unat (i * n + j) := fl_add fl z (fl_mul fl a_val y)])))) js"

definition matmul_tile ::
  "'f float_ops \<Rightarrow> 'f list \<Rightarrow> 'f list \<Rightarrow> usize \<Rightarrow> usize \<Rightarrow> usize list \<Rightarrow> usize list \<Rightarrow> usize list
    \<Rightarrow> 'f list \<Rightarrow> 'f list exec" where
  "matmul_tile fl a b k n is ks js =
     exec_fold (\<lambda>i. exec_fold (\<lambda>kk c. exec_bind (index a (unat (i * k + kk))) (\<lambda>a_val.
       matmul_row fl b n i kk js a_val c)) ks) is"

definition MatrixOps_matmul_f32 ::
  "'f float_ops \<Rightarrow> 'f list \<Rightarrow> 'f list \<Rightarrow> 'f list \<Rightarrow> usize \<Rightarrow> usize \<Rightarrow> usize \<Rightarrow> 'f list exec" where
  "MatrixOps_matmul_f32 fl a b c m k n =
     (if length a \<noteq> unat (m * k) then Panic
      else if length b \<noteq> unat (k * n) then Panic
      else if length c \<noteq> unat (m * n) then Panic
      else exec_fold (\<lambda>ti. exec_fold (\<lambda>tj. exec_fold (\<lambda>tk.
             matmul_tile fl a b k n (word_range ti) (word_range tk) (word_range tj)) (tiles k)) (tiles n))
             (tiles m) (replicate (length c) (fl_zero fl)))"

definition MatrixOps_transpose_f32 :: "'f list \<Rightarrow> 'f list \<Rightarrow> usize \<Rightarrow> usize \<Rightarrow> 'f list exec" where
  "MatrixOps_transpose_f32 src dst rows cols =
     (if length src \<noteq> unat (rows * cols) then Panic
      else if length dst \<noteq> unat (rows * cols) then Panic
      else exec_fold (\<lambda>i. exec_fold (\<lambda>j dst. exec_bind (index src (unat (i * cols + j))) (\<lambda>x.
             if unat (j * rows + i) < length dst then Done (dst[unat (j * rows + i) := x]) else Panic))
             (word_range (0, cols))) (word_range (0, rows)) dst)"

end
