(* ===== verification/Pepita_Simd_Kernels.thy ===== *)
theory Pepita_Simd_Kernels
  imports Pepita_Simd
begin

text \<open>
  Correctness of the kernels of \<open>Pepita_Simd\<close>.  Every element-wise kernel, on every architecture and
  whatever the detected features, gives bit for bit the scalar result; the tiled matrix product gives
  bit for bit the textbook product, because the tiling keeps the order of the additions of each entry.
  Only the dot product adds in another order: with AVX2 it adds eight lanes, their horizontal sum and the
  rest.  That order is stated for every arithmetic; it gives the scalar result in exact arithmetic only.
\<close>

section \<open>Loops that never panic\<close>

text \<open>A loop over a range of indices whose state after \<open>i\<close> rounds is known.\<close>

lemma exec_fold_range:
  assumes "s \<le> e" and "\<And>i. s \<le> i \<Longrightarrow> i < e \<Longrightarrow> f i (g i) = Done (g (Suc i))"
  shows "exec_fold f [s..<e] (g s) = Done (g e)"
  using assms
proof (induction e)
  case (Suc e)
  show ?case
  proof (cases "s \<le> e")
    case True
    with Suc show ?thesis by (simp add: exec_fold_append)
  next
    case False
    with Suc.prems(1) have "s = Suc e" by simp
    then show ?thesis by simp
  qed
qed simp

text \<open>A loop whose steps simulate the steps of an abstract loop.\<close>

lemma exec_fold_simulates:
  assumes "\<And>x c g. x \<in> set xs \<Longrightarrow> R c g \<Longrightarrow> \<exists>c'. f x c = Done c' \<and> R c' (h x g)" and "R c g"
  shows "\<exists>c'. exec_fold f xs c = Done c' \<and> R c' (fold h xs g)"
  using assms
proof (induction xs arbitrary: c g)
  case (Cons x xs)
  obtain c1 where c1: "f x c = Done c1" "R c1 (h x g)"
    using Cons.prems(1) [of x c g] Cons.prems(2) by auto
  have "\<exists>c'. exec_fold f xs c1 = Done c' \<and> R c' (fold h xs (h x g))"
    by (rule Cons.IH [OF _ c1(2)]) (simp add: Cons.prems(1))
  with c1(1) show ?case by simp
qed simp

lemma fold_concat_map: "fold (\<lambda>x. fold h (ts x)) xs = fold h (concat (map ts xs))"
  by (induction xs) auto

section \<open>Element-wise kernels\<close>

lemma drop_take_map2_nth:
  assumes "length a = length b" and "i < length a"
  shows "take (Suc i) (map2 f a b) = take i (map2 f a b) @ [f (a ! i) (b ! i)]"
  using assms by (simp add: take_Suc_conv_app_nth)

lemma scalar_loop_from:
  assumes "length a = length b" and "length a = length c" and "s \<le> length a"
  shows "scalar_loop f a b s (take s (map2 f a b) @ drop s c) = Done (map2 f a b)"
proof -
  let ?g = "\<lambda>i. take i (map2 f a b) @ drop i c"
  have "exec_fold (\<lambda>i c. exec_bind (index a i) (\<lambda>x. exec_bind (index b i) (\<lambda>y.
       if i < length c then Done (c[i := f x y]) else Panic))) [s..<length a] (?g s) = Done (?g (length a))"
  proof (rule exec_fold_range [OF assms(3)])
    fix i assume "s \<le> i" "i < length a"
    then show "exec_bind (index a i) (\<lambda>x. exec_bind (index b i) (\<lambda>y.
        if i < length (?g i) then Done ((?g i)[i := f x y]) else Panic)) = Done (?g (Suc i))"
      using assms by (simp add: drop_take_map2_nth list_update_append Cons_nth_drop_Suc [symmetric])
  qed
  then show ?thesis using assms by (simp add: scalar_loop_def)
qed

lemma chunk_step_from:
  assumes "length a = length b" and "length a = length c" and "i * w + w \<le> length a"
  shows "chunk_step w f a b i (take (i * w) (map2 f a b) @ drop (i * w) c) =
    Done (take (Suc i * w) (map2 f a b) @ drop (Suc i * w) c)"
proof -
  have "map2 f (take w (drop (i * w) a)) (take w (drop (i * w) b)) = take w (drop (i * w) (map2 f a b))"
    by (simp only: take_zip drop_zip take_map drop_map)
  moreover have "take (i * w + w) (map2 f a b) = take (i * w) (map2 f a b) @ take w (drop (i * w) (map2 f a b))"
    by (simp only: take_add)
  ultimately show ?thesis
    using assms by (simp add: chunk_step_def loadu_def storeu_def overwrite_def Let_def add.commute [of w])
qed

lemma vector_loop_map2:
  assumes "length a = length b" and "length a = length c"
  shows "vector_loop w f a b c = Done (map2 f a b)"
proof -
  let ?n = "length a div w"
  have "exec_fold (chunk_step w f a b) [0..<?n] (take (0 * w) (map2 f a b) @ drop (0 * w) c) =
    Done (take (?n * w) (map2 f a b) @ drop (?n * w) c)"
  proof (rule exec_fold_range [where g = "\<lambda>i. take (i * w) (map2 f a b) @ drop (i * w) c"])
    fix i assume "i < ?n"
    then have "Suc i * w \<le> ?n * w" by (intro mult_le_mono1) simp
    also have "\<dots> \<le> length a" by simp
    finally show "chunk_step w f a b i (take (i * w) (map2 f a b) @ drop (i * w) c) =
        Done (take (Suc i * w) (map2 f a b) @ drop (Suc i * w) c)"
      by (intro chunk_step_from assms) simp
  qed simp
  with assms show ?thesis
    by (simp add: vector_loop_def scalar_loop_from)
qed

lemma scalar_loop_map2:
  "length a = length b \<Longrightarrow> length a = length c \<Longrightarrow> scalar_loop f a b 0 c = Done (map2 f a b)"
  using scalar_loop_from [of a b c 0 f] by simp

lemmas kernel_defs =
  SimdOps_vadd_f32_scalar_def SimdOps_vadd_f64_scalar_def SimdOps_vmul_f32_scalar_def
  SimdOps_vadd_f32_avx512_def SimdOps_vadd_f64_avx512_def SimdOps_vmul_f32_avx512_def
  SimdOps_vadd_f32_avx2_def SimdOps_vadd_f64_avx2_def SimdOps_vmul_f32_avx2_def
  SimdOps_vadd_f32_sse_def SimdOps_vadd_f32_neon_def

text \<open>The vector kernels are their scalar definitions. On every architecture, for every set of
  detected features and for every floating-point arithmetic, element-wise addition (single and double
  precision) and multiplication return exactly the list of the sums or products of the elements, bit
  for bit, and never access memory outside the slices; slices of different lengths make them panic.\<close>

lemma simd_elementwise_exact:
  "SimdOps_vadd_f32 arch ops fl a b c =
     (if length a = length b \<and> length a = length c then Done (map2 (fl_add fl) a b) else Panic)
   \<and> SimdOps_vadd_f64 arch ops fl a b c =
     (if length a = length b \<and> length a = length c then Done (map2 (fl_add fl) a b) else Panic)
   \<and> SimdOps_vmul_f32 arch ops fl a b c =
     (if length a = length b \<and> length a = length c then Done (map2 (fl_mul fl) a b) else Panic)"
  by (simp add: SimdOps_vadd_f32_def SimdOps_vadd_f64_def SimdOps_vmul_f32_def kernel_defs
      vector_loop_map2 scalar_loop_map2)

section \<open>Dot product\<close>

text \<open>Arithmetic without rounding.\<close>

definition exact_ops :: "('f :: semiring_0) float_ops" where
  "exact_ops = \<lparr>fl_add = (+), fl_mul = (*), fl_zero = 0, fl_sum_start = 0\<rparr>"

lemma exact_ops_sel [simp]:
  "fl_add exact_ops = (+)" "fl_mul exact_ops = (*)" "fl_zero exact_ops = 0" "fl_sum_start exact_ops = 0"
  by (simp_all add: exact_ops_def)

lemma foldl_plus_start: "foldl (+) (s :: 'f::monoid_add) xs = s + sum_list xs"
  by (induction xs arbitrary: s) (simp_all add: add.assoc)

lemma horizontal_sum_exact: "length v = 8 \<Longrightarrow> horizontal_sum exact_ops v = sum_list v"
  by (auto simp: horizontal_sum_def length_Suc_conv numeral_eq_Suc Let_def ac_simps)

lemma sum_list_map2_plus:
  "length xs = length ys \<Longrightarrow> sum_list (map2 (+) xs ys) = sum_list xs + sum_list (ys :: 'f::comm_monoid_add list)"
  by (induction xs ys rule: list_induct2) (simp_all add: ac_simps)

text \<open>The sum of the lanes after \<open>i\<close> chunks is the dot product of the first \<open>8 * i\<close> elements.\<close>

lemma dot_chunks:
  assumes "length a = length b" and "8 * n \<le> length a"
  shows "\<exists>v. exec_fold (dot_chunk exact_ops a b) [0..<n] (replicate 8 0) = Done v \<and> length v = 8
    \<and> sum_list v = sum_list (take (8 * n) (map2 (*) a (b :: 'f::semiring_0 list)))"
  using assms(2)
proof (induction n)
  case (Suc n)
  then obtain v where v: "exec_fold (dot_chunk exact_ops a b) [0..<n] (replicate 8 0) = Done v" "length v = 8"
    "sum_list v = sum_list (take (8 * n) (map2 (*) a b))" by auto
  let ?p = "map2 (*) (take 8 (drop (n * 8) a)) (take 8 (drop (n * 8) b))"
  have p: "?p = take 8 (drop (n * 8) (map2 (*) a b))"
    by (simp only: take_zip drop_zip take_map drop_map)
  have "8 * Suc n = n * 8 + 8" by simp
  then have t: "take (8 * Suc n) (map2 (*) a b) = take (n * 8) (map2 (*) a b) @ ?p"
    unfolding p by (simp only: take_add)
  have len: "length ?p = 8" using Suc.prems assms(1) by simp
  have "dot_chunk exact_ops a b n v = Done (map2 (+) v ?p)"
    using Suc.prems assms(1) by (simp add: dot_chunk_def loadu_def Let_def)
  moreover have "sum_list (map2 (+) v ?p) = sum_list (take (8 * Suc n) (map2 (*) a b))"
    unfolding t using v len by (simp add: sum_list_map2_plus mult.commute del: map_map)
  ultimately show ?case
    using v len by (simp add: exec_fold_append)
qed (simp add: numeral_eq_Suc)

lemma dot_rest_exact:
  assumes "length a = length b" and "s \<le> length a"
  shows "dot_rest exact_ops a b s (sum_list (take s (map2 (*) a b))) =
    Done (sum_list (map2 (*) a (b :: 'f::semiring_0 list)))"
proof -
  let ?g = "\<lambda>i. sum_list (take i (map2 (*) a b))"
  have "dot_rest exact_ops a b s (?g s) = Done (?g (length a))"
    unfolding dot_rest_def
  proof (rule exec_fold_range [OF assms(2)])
    fix i assume "i < length a"
    then show "exec_bind (index a i) (\<lambda>x. exec_bind (index b i) (\<lambda>y.
        Done (fl_add exact_ops (?g i) (fl_mul exact_ops x y)))) = Done (?g (Suc i))"
      using assms(1) by (simp add: drop_take_map2_nth)
  qed
  then show ?thesis using assms(1) by simp
qed

text \<open>in exact arithmetic the dot product is the sum of the products, on every architecture and
  for every set of detected features: the eight partial sums of the AVX2 kernel, their horizontal
  sum and the remainder loop together count every element exactly once.\<close>

lemma simd_dot_exact:
  "SimdOps_dot_f32 arch ops exact_ops a b =
     (if length a = length b then Done (sum_list (map2 (*) a (b :: 'f::semiring_0 list))) else Panic)"
proof (cases "length a = length b")
  case True
  define n where "n = length a div 8"
  have "8 * n \<le> length a" by (simp add: n_def)
  with dot_chunks [OF True this] obtain v where
    v: "exec_fold (dot_chunk exact_ops a b) [0..<n] (replicate 8 0) = Done v" "length v = 8"
      "sum_list v = sum_list (take (n * 8) (map2 (*) a b))" by (auto simp: mult.commute)
  have "SimdOps_dot_f32_avx2 exact_ops a b = Done (sum_list (map2 (*) a b))"
    using v dot_rest_exact [OF True, of "n * 8"] \<open>8 * n \<le> length a\<close>
    by (simp add: SimdOps_dot_f32_avx2_def n_def [symmetric] horizontal_sum_exact mult.commute)
  with True show ?thesis
    by (simp add: SimdOps_dot_f32_def SimdOps_dot_f32_scalar_def foldl_plus_start)
qed (simp add: SimdOps_dot_f32_def)

text \<open>
  The order in which the AVX2 kernel adds the products \<open>ps\<close>, for any arithmetic: lane \<open>j\<close> adds the products
  at positions \<open>j, 8 + j, 16 + j, \<dots>\<close> of the whole chunks, the lanes are added pairwise at distances 4, 2
  and 1, and the products after the last whole chunk are added one by one.
\<close>

definition lane_sum :: "'f float_ops \<Rightarrow> 'f list \<Rightarrow> nat \<Rightarrow> nat \<Rightarrow> 'f" where
  "lane_sum fl ps n j = foldl (fl_add fl) (fl_zero fl) (map (\<lambda>i. ps ! (8 * i + j)) [0..<n])"

definition dot_in_lanes :: "'f float_ops \<Rightarrow> 'f list \<Rightarrow> 'f" where
  "dot_in_lanes fl ps =
     (let n = length ps div 8; l = lane_sum fl ps n
      in foldl (fl_add fl)
           (fl_add fl (fl_add fl (fl_add fl (l 0) (l 4)) (fl_add fl (l 2) (l 6)))
                      (fl_add fl (fl_add fl (l 1) (l 5)) (fl_add fl (l 3) (l 7))))
           (drop (8 * n) ps))"

lemma dot_chunks_lanes:
  assumes "length a = length b" and "8 * n \<le> length a"
  shows "exec_fold (dot_chunk fl a b) [0..<n] (replicate 8 (fl_zero fl)) =
    Done (map (lane_sum fl (map2 (fl_mul fl) a b) n) [0..<8])"
  using assms(2)
proof (induction n)
  case 0
  have "replicate 8 z = map (lane_sum fl ps 0) [0..<8]" if "z = fl_zero fl" for z ps
    by (rule nth_equalityI) (simp_all add: that lane_sum_def)
  then show ?case by simp
next
  case (Suc n)
  let ?ps = "map2 (fl_mul fl) a b"
  let ?p = "map2 (fl_mul fl) (take 8 (drop (n * 8) a)) (take 8 (drop (n * 8) b))"
  have "dot_chunk fl a b n (map (lane_sum fl ?ps n) [0..<8]) =
      Done (map2 (fl_add fl) (map (lane_sum fl ?ps n) [0..<8]) ?p)"
    using Suc.prems assms(1) by (simp add: dot_chunk_def loadu_def Let_def)
  moreover have "map2 (fl_add fl) (map (lane_sum fl ?ps n) [0..<8]) ?p = map (lane_sum fl ?ps (Suc n)) [0..<8]"
    using Suc.prems assms(1)
    by (intro nth_equalityI) (simp_all add: lane_sum_def mult.commute del: upt_rec_numeral)
  ultimately show ?case
    using Suc by (simp add: exec_fold_append)
qed

lemma dot_rest_lanes:
  assumes "length a = length b" and "s \<le> length a"
  shows "dot_rest fl a b s acc = Done (foldl (fl_add fl) acc (drop s (map2 (fl_mul fl) a b)))"
  using assms(2)
proof (induction "length a - s" arbitrary: s acc)
  case 0
  then show ?case by (simp add: dot_rest_def)
next
  case (Suc n)
  then have s: "s < length a" by simp
  then have "[s..<length a] = s # [Suc s..<length a]" by (rule upt_conv_Cons)
  moreover have "drop s (map2 (fl_mul fl) a b) = fl_mul fl (a ! s) (b ! s) # drop (Suc s) (map2 (fl_mul fl) a b)"
    using s assms(1) by (simp add: Cons_nth_drop_Suc [symmetric] del: drop_map)
  ultimately show ?case
    using Suc.hyps(1) [of "Suc s" "fl_add fl acc (fl_mul fl (a ! s) (b ! s))"] Suc.hyps(2) s assms(1)
    by (simp add: dot_rest_def)
qed

lemma horizontal_sum_lanes:
  "horizontal_sum fl (map f [0..<8]) =
     fl_add fl (fl_add fl (fl_add fl (f 0) (f 4)) (fl_add fl (f 2) (f 6)))
               (fl_add fl (fl_add fl (f 1) (f 5)) (fl_add fl (f 3) (f 7)))"
proof -
  have "map f [0..<8] = [f 0, f 1, f 2, f 3, f 4, f 5, f 6, f 7]" by (simp add: upt_rec numeral_eq_Suc)
  then show ?thesis by (simp only: horizontal_sum_def) simp
qed

lemma dot_avx2_lanes:
  assumes "length a = length b"
  shows "SimdOps_dot_f32_avx2 fl a b = Done (dot_in_lanes fl (map2 (fl_mul fl) a b))"
  using assms dot_chunks_lanes [OF assms, of "length a div 8" fl]
    dot_rest_lanes [OF assms, of "length a div 8 * 8" fl]
  by (simp add: SimdOps_dot_f32_avx2_def dot_in_lanes_def horizontal_sum_lanes Let_def mult.commute)

text \<open>C16: what the vector kernels compute. On every architecture, for every set of detected features and for
  every floating-point arithmetic, element-wise addition (single and double precision) and multiplication
  return exactly the list of the sums or products of the elements, bit for bit what the scalar loop gives,
  and never access memory outside the slices; slices of different lengths make them panic. The dot product
  is, for every arithmetic, the left-to-right sum of the products without AVX2 or below eight elements, and
  otherwise the sum in eight lanes: the two orders round differently, so the result depends on the machine.
  Only in arithmetic without rounding is it the scalar kernel's result on every machine.\<close>

theorem simd_kernels_compute:
  "SimdOps_vadd_f32 arch ops fl a b c =
     (if length a = length b \<and> length a = length c then Done (map2 (fl_add fl) a b) else Panic)
   \<and> SimdOps_vadd_f64 arch ops fl a b c =
     (if length a = length b \<and> length a = length c then Done (map2 (fl_add fl) a b) else Panic)
   \<and> SimdOps_vmul_f32 arch ops fl a b c =
     (if length a = length b \<and> length a = length c then Done (map2 (fl_mul fl) a b) else Panic)
   \<and> SimdOps_dot_f32 arch ops fl a b =
     (if length a \<noteq> length b then Panic
      else if arch = X86_64 \<and> avx2 (so_caps ops) \<and> 8 \<le> length a then Done (dot_in_lanes fl (map2 (fl_mul fl) a b))
      else Done (foldl (fl_add fl) (fl_sum_start fl) (map2 (fl_mul fl) a b)))
   \<and> SimdOps_dot_f32 arch ops exact_ops x y =
     (if length x = length y then Done (SimdOps_dot_f32_scalar exact_ops x (y :: 'g::semiring_0 list)) else Panic)"
  using simd_elementwise_exact [of arch ops fl a b c] simd_dot_exact [of arch ops x y]
  by (simp add: SimdOps_dot_f32_def dot_avx2_lanes SimdOps_dot_f32_scalar_def foldl_plus_start)

section \<open>Row-major matrices\<close>

text \<open>The list \<open>c\<close> holds the \<open>m\<close> by \<open>n\<close> matrix \<open>g\<close> in row-major order.\<close>

definition holds :: "nat \<Rightarrow> nat \<Rightarrow> 'f list \<Rightarrow> (nat \<Rightarrow> nat \<Rightarrow> 'f) \<Rightarrow> bool" where
  "holds m n c g \<longleftrightarrow> length c = m * n \<and> (\<forall>i < m. \<forall>j < n. c ! (i * n + j) = g i j)"

lemma cell_bound: "i < m \<Longrightarrow> j < n \<Longrightarrow> i * n + j < m * (n :: nat)"
proof -
  assume ij: "i < m" "j < n"
  then have "i * n + j < Suc i * n" by simp
  also have "\<dots> \<le> m * n" using ij by (intro mult_le_mono1) simp
  finally show ?thesis .
qed

lemma cell_inj: "j < n \<Longrightarrow> j' < n \<Longrightarrow> i * n + j = i' * n + j' \<longleftrightarrow> i = i' \<and> j = (j' :: nat)"
  by (metis add.commute add_right_cancel div_mult_self1 div_less add_0 less_nat_zero_code mult.commute)

lemma holds_update:
  assumes "holds m n c g" and "i < m" and "j < n"
  shows "holds m n (c[i * n + j := v]) (g(i := (g i)(j := v)))"
  using assms cell_bound [of i m j n] by (auto simp: holds_def nth_list_update cell_inj)

lemma unat_cell:
  assumes "unat i < m" and "unat j < unat n" and "m * unat n < 2 ^ 64"
  shows "unat (i * n + j :: u64) = unat i * unat n + unat j"
  using cell_bound [OF assms(1,2)] assms(3) by (simp add: unat_word_ariths)

section \<open>Tiles\<close>

definition nrange :: "usize \<times> usize \<Rightarrow> nat list" where
  "nrange r = [unat (fst r)..<unat (snd r)]"

lemma word_range_nats: "map unat (word_range r) = nrange r"
  unfolding word_range_def nrange_def map_map
  by (rule map_idI) (use unat_bound [of "snd r"] in \<open>simp add: unat_of_nat\<close>)

lemma set_word_range: "unat ` set (word_range r) = set (nrange r)"
  by (metis image_set word_range_nats)

lemma concat_blocks: "concat (map (\<lambda>q. [q * w..<min (q * w + w) m]) [0..<t]) = [0..<min (t * w) (m :: nat)]"
proof (induction t)
  case (Suc t)
  have "[0..<min (t * w) m] @ [t * w..<min (t * w + w) m] = [0..<min (t * w + w) m]"
  proof (cases "t * w \<le> m")
    case True
    then show ?thesis
      using upt_add_eq_append [of 0 "t * w" "min (t * w + w) m - t * w"] by (simp add: min_def)
  next
    case False
    then show ?thesis by simp
  qed
  with Suc show ?case by (simp add: add.commute)
qed simp

lemma tile_block:
  assumes "unat m < 2 ^ 63" and "q * 32 < unat m"
  shows "nrange (word_of_nat (q * 32), min (word_of_nat (q * 32) + 32) m) = [q * 32..<min (q * 32 + 32) (unat m)]"
proof -
  have "q * 32 + 32 < 2 ^ 64" using assms by simp
  then have "unat (word_of_nat (q * 32) :: usize) = q * 32" "unat (word_of_nat (q * 32) + 32 :: usize) = q * 32 + 32"
    by (simp_all add: unat_word_ariths unat_of_nat)
  then show ?thesis by (simp only: nrange_def fst_conv snd_conv min_def word_le_nat_alt split: if_split) simp
qed

lemma concat_tiles:
  assumes "unat m < 2 ^ 63"
  shows "concat (map nrange (tiles m)) = [0..<unat m]"
proof -
  let ?t = "(unat m + 32 - 1) div 32"
  have "tiles m = map (\<lambda>q. (word_of_nat (q * 32), min (word_of_nat (q * 32) + 32) m)) [0..<?t]"
    by (simp only: tiles_def TILE_SIZE_def Let_def unsigned_numeral) simp
  moreover have "q < ?t \<Longrightarrow> q * 32 < unat m" for q by simp
  ultimately have "map nrange (tiles m) = map (\<lambda>q. [q * 32..<min (q * 32 + 32) (unat m)]) [0..<?t]"
    by (simp only: map_map comp_def) (rule map_cong, rule refl, rule tile_block [OF assms], simp)
  moreover have "unat m \<le> ?t * 32" by simp
  ultimately show ?thesis by (simp only: concat_blocks min_absorb2)
qed

lemma tile_nrange: "t \<in> set (tiles m) \<Longrightarrow> unat m < 2 ^ 63 \<Longrightarrow> x \<in> set (nrange t) \<Longrightarrow> x < unat m"
  using concat_tiles [of m] by (metis UN_I atLeastLessThan_iff image_eqI set_concat set_map set_upt)

text \<open>In a partition exactly one block contains a given element.\<close>

lemma concat_one_block:
  assumes "distinct (concat yss)" and "x \<in> set (concat yss)"
  shows "concat (map (\<lambda>ys. if x \<in> set ys then zs else []) yss) = zs"
  using assms
proof (induction yss)
  case (Cons ys yss)
  show ?case
  proof (cases "x \<in> set ys")
    case True
    with Cons.prems(1) have "\<forall>zs \<in> set yss. x \<notin> set zs" by auto
    with True show ?thesis by simp
  next
    case False
    with Cons show ?thesis by simp
  qed
qed simp

section \<open>The tiled product\<close>

text \<open>
  One multiply-and-add of the product, on the matrices as functions, and the sequence of the index
  triples \<open>(i, kk, j)\<close> in the order in which the loops visit them.
\<close>

definition mul_add ::
  "'f float_ops \<Rightarrow> (nat \<Rightarrow> nat \<Rightarrow> 'f) \<Rightarrow> (nat \<Rightarrow> nat \<Rightarrow> 'f) \<Rightarrow> nat \<times> nat \<times> nat \<Rightarrow> (nat \<Rightarrow> nat \<Rightarrow> 'f) \<Rightarrow> nat \<Rightarrow> nat \<Rightarrow> 'f" where
  "mul_add fl A B t g = (case t of (i, kk, j) \<Rightarrow>
     g(i := (g i)(j := fl_add fl (g i j) (fl_mul fl (A i kk) (B kk j)))))"

definition tile_triples :: "nat list \<Rightarrow> nat list \<Rightarrow> nat list \<Rightarrow> (nat \<times> nat \<times> nat) list" where
  "tile_triples is ks js = concat (map (\<lambda>i. concat (map (\<lambda>kk. map (\<lambda>j. (i, kk, j)) js) ks)) is)"

definition all_triples :: "usize \<Rightarrow> usize \<Rightarrow> usize \<Rightarrow> (nat \<times> nat \<times> nat) list" where
  "all_triples m k n = concat (map (\<lambda>ti. concat (map (\<lambda>tj. concat (map (\<lambda>tk.
     tile_triples (nrange ti) (nrange tk) (nrange tj)) (tiles k))) (tiles n))) (tiles m))"

text \<open>The terms that a sequence of triples adds to one entry, and what they add up to.\<close>

definition terms_of :: "nat \<Rightarrow> nat \<Rightarrow> (nat \<times> nat \<times> nat) list \<Rightarrow> nat list" where
  "terms_of i j ts = map (\<lambda>t. fst (snd t)) (filter (\<lambda>t. fst t = i \<and> snd (snd t) = j) ts)"

lemma terms_of_concat: "terms_of i j (concat tss) = concat (map (terms_of i j) tss)"
  by (induction tss) (simp_all add: terms_of_def)

lemma fold_mul_add:
  "fold (mul_add fl A B) ts g i j =
     foldl (\<lambda>s kk. fl_add fl s (fl_mul fl (A i kk) (B kk j))) (g i j) (terms_of i j ts)"
proof (induction ts arbitrary: g)
  case (Cons t ts)
  then show ?case by (cases t) (auto simp: mul_add_def terms_of_def)
qed (simp add: terms_of_def)

lemma terms_of_row:
  "distinct js \<Longrightarrow> terms_of i j (map (\<lambda>j'. (i', kk, j')) js) = (if i' = i \<and> j \<in> set js then [kk] else [])"
  by (induction js) (auto simp: terms_of_def)

lemma concat_singletons [simp]: "concat (map (\<lambda>x. [x]) xs) = xs"
  by (induction xs) auto

lemma terms_of_tile:
  assumes "distinct is" and "distinct js"
  shows "terms_of i j (tile_triples is ks js) = (if i \<in> set is \<and> j \<in> set js then ks else [])"
proof -
  have row: "concat (map (\<lambda>kk. if x then [kk] else []) ks) = (if x then ks else [])" for x by simp
  have "terms_of i j (tile_triples is ks js) =
      concat (map (\<lambda>i'. if i' = i \<and> j \<in> set js then ks else []) is)"
    by (simp add: tile_triples_def terms_of_concat comp_def terms_of_row [OF assms(2)] row)
  also have "\<dots> = (if i \<in> set is \<and> j \<in> set js then ks else [])"
    using assms(1) by (induction "is") auto
  finally show ?thesis .
qed

lemma terms_of_all:
  assumes "unat m < 2 ^ 63" "unat k < 2 ^ 63" "unat n < 2 ^ 63" and "i < unat m" "j < unat n"
  shows "terms_of i j (all_triples m k n) = [0..<unat k]"
proof -
  have d: "distinct (nrange t)" for t by (simp add: nrange_def)
  have k: "concat (map (\<lambda>tk. if x then nrange tk else []) (tiles k)) = (if x then [0..<unat k] else [])" for x
    using concat_tiles [OF assms(2)] by simp
  have blocks: "concat (map (\<lambda>t. if x \<in> set (nrange t) then zs else []) (tiles r)) = zs"
    if "x < unat r" "unat r < 2 ^ 63" for x r and zs :: "nat list"
  proof -
    have "x \<in> set (concat (map nrange (tiles r)))" "distinct (concat (map nrange (tiles r)))"
      using that by (simp_all only: concat_tiles set_upt distinct_upt atLeastLessThan_iff, simp)
    from concat_one_block [OF this(2,1), of zs] show ?thesis by (simp add: comp_def)
  qed
  have "terms_of i j (all_triples m k n) =
      concat (map (\<lambda>ti. concat (map (\<lambda>tj.
        if i \<in> set (nrange ti) \<and> j \<in> set (nrange tj) then [0..<unat k] else []) (tiles n))) (tiles m))"
    by (simp add: all_triples_def terms_of_concat comp_def terms_of_tile [OF d d] k)
  also have "\<dots> = concat (map (\<lambda>ti. if i \<in> set (nrange ti) then [0..<unat k] else []) (tiles m))"
  proof (rule arg_cong [where f = concat], rule map_cong [OF refl])
    fix ti
    show "concat (map (\<lambda>tj. if i \<in> set (nrange ti) \<and> j \<in> set (nrange tj) then [0..<unat k] else []) (tiles n)) =
        (if i \<in> set (nrange ti) then [0..<unat k] else [])"
      using blocks [OF assms(5,3)] by (cases "i \<in> set (nrange ti)") simp_all
  qed
  also have "\<dots> = [0..<unat k]" by (rule blocks [OF assms(4,1)])
  finally show ?thesis .
qed

text \<open>The loops of the model carry out these steps on the row-major lists.\<close>

lemma matmul_row_simulates:
  assumes b: "holds (unat k) (unat n) b B" and c: "holds (unat m) (unat n) c g"
    and ik: "unat i < unat m" "unat kk < unat k" and js: "\<forall>j \<in> set js. unat j < unat n"
    and fits: "unat k * unat n < 2 ^ 64" "unat m * unat n < 2 ^ 64" and a_val: "a_val = A (unat i) (unat kk)"
  shows "\<exists>c'. matmul_row fl b n i kk js a_val c = Done c'
    \<and> holds (unat m) (unat n) c' (fold (mul_add fl A B) (map (\<lambda>j. (unat i, unat kk, unat j)) js) g)"
proof -
  have "\<exists>c'. matmul_row fl b n i kk js a_val c = Done c'
      \<and> holds (unat m) (unat n) c' (fold (\<lambda>j. mul_add fl A B (unat i, unat kk, unat j)) js g)"
    unfolding matmul_row_def
  proof (rule exec_fold_simulates [where R = "holds (unat m) (unat n)", OF _ c])
    fix j and c :: "'a list" and g assume j: "j \<in> set js" and c: "holds (unat m) (unat n) c g"
    have jn: "unat j < unat n" using js j by blast
    have "unat (kk * n + j) = unat kk * unat n + unat j" "unat (i * n + j) = unat i * unat n + unat j"
      by (rule unat_cell [OF ik(2) jn fits(1)], rule unat_cell [OF ik(1) jn fits(2)])
    moreover note cell_bound [OF ik(2) jn] cell_bound [OF ik(1) jn] holds_update [OF c ik(1) jn]
    ultimately show "\<exists>c'. exec_bind (index b (unat (kk * n + j))) (\<lambda>y. exec_bind (index c (unat (i * n + j)))
        (\<lambda>z. Done (c[unat (i * n + j) := fl_add fl z (fl_mul fl a_val y)]))) = Done c'
        \<and> holds (unat m) (unat n) c' (mul_add fl A B (unat i, unat kk, unat j) g)"
      using b c ik jn a_val by (simp add: holds_def mul_add_def)
  qed
  then show ?thesis by (simp add: fold_map comp_def)
qed

lemma matmul_tile_simulates:
  assumes a: "holds (unat m) (unat k) a A" and b: "holds (unat k) (unat n) b B" and c: "holds (unat m) (unat n) c g"
    and "\<forall>i \<in> set is. unat i < unat m" and "\<forall>kk \<in> set ks. unat kk < unat k" and "\<forall>j \<in> set js. unat j < unat n"
    and "unat m * unat k < 2 ^ 64" and "unat k * unat n < 2 ^ 64" and "unat m * unat n < 2 ^ 64"
  shows "\<exists>c'. matmul_tile fl a b k n is ks js c = Done c'
    \<and> holds (unat m) (unat n) c'
        (fold (mul_add fl A B) (tile_triples (map unat is) (map unat ks) (map unat js)) g)"
proof -
  let ?row = "\<lambda>i kk. fold (mul_add fl A B) (map (\<lambda>j. (unat i, unat kk, unat j)) js)"
  have "\<exists>c'. matmul_tile fl a b k n is ks js c = Done c'
      \<and> holds (unat m) (unat n) c' (fold (\<lambda>i. fold (?row i) ks) is g)"
    unfolding matmul_tile_def
  proof (rule exec_fold_simulates [where R = "holds (unat m) (unat n)", OF _ c])
    fix i and c :: "'a list" and g assume i: "i \<in> set is" and c: "holds (unat m) (unat n) c g"
    show "\<exists>c'. exec_fold (\<lambda>kk c. exec_bind (index a (unat (i * k + kk))) (\<lambda>a_val.
        matmul_row fl b n i kk js a_val c)) ks c = Done c' \<and> holds (unat m) (unat n) c' (fold (?row i) ks g)"
    proof (rule exec_fold_simulates [where R = "holds (unat m) (unat n)", OF _ c])
      fix kk and c :: "'a list" and g assume kk: "kk \<in> set ks" and c: "holds (unat m) (unat n) c g"
      have im: "unat i < unat m" and kkk: "unat kk < unat k" using assms i kk by blast+
      have "index a (unat (i * k + kk)) = Done (A (unat i) (unat kk))"
        using a cell_bound [OF im kkk] by (simp add: unat_cell [OF im kkk assms(7)] holds_def im kkk)
      with matmul_row_simulates [OF b c im kkk assms(6,8,9) refl]
      show "\<exists>c'. exec_bind (index a (unat (i * k + kk))) (\<lambda>a_val. matmul_row fl b n i kk js a_val c) = Done c'
          \<and> holds (unat m) (unat n) c' (?row i kk g)" by simp
    qed
  qed
  then show ?thesis
    by (simp only: tile_triples_def fold_concat_map map_map comp_def)
qed

lemma matmul_simulates:
  assumes a: "holds (unat m) (unat k) a A" and b: "holds (unat k) (unat n) b B"
    and c: "holds (unat m) (unat n) c g"
    and mkn: "unat m < 2 ^ 63" "unat k < 2 ^ 63" "unat n < 2 ^ 63"
    and "unat m * unat k < 2 ^ 64" and "unat k * unat n < 2 ^ 64" and "unat m * unat n < 2 ^ 64"
  shows "\<exists>c'. exec_fold (\<lambda>ti. exec_fold (\<lambda>tj. exec_fold (\<lambda>tk.
      matmul_tile fl a b k n (word_range ti) (word_range tk) (word_range tj)) (tiles k)) (tiles n)) (tiles m) c = Done c'
    \<and> holds (unat m) (unat n) c' (fold (mul_add fl A B) (all_triples m k n) g)"
proof -
  let ?tile = "\<lambda>ti tj tk. fold (mul_add fl A B) (tile_triples (nrange ti) (nrange tk) (nrange tj))"
  have in_range: "\<forall>x \<in> set (word_range t). unat x < unat r" if "t \<in> set (tiles r)" "unat r < 2 ^ 63" for t r
    using tile_nrange [OF that] set_word_range [of t] by blast
  have "\<exists>c'. exec_fold (\<lambda>ti. exec_fold (\<lambda>tj. exec_fold (\<lambda>tk.
      matmul_tile fl a b k n (word_range ti) (word_range tk) (word_range tj)) (tiles k)) (tiles n)) (tiles m) c = Done c'
    \<and> holds (unat m) (unat n) c' (fold (\<lambda>ti. fold (\<lambda>tj. fold (?tile ti tj) (tiles k)) (tiles n)) (tiles m) g)"
  proof (intro exec_fold_simulates [where R = "holds (unat m) (unat n)"] c)
    fix ti tj tk and c :: "'a list" and g
    assume t: "ti \<in> set (tiles m)" "tj \<in> set (tiles n)" "tk \<in> set (tiles k)" and c: "holds (unat m) (unat n) c g"
    show "\<exists>c'. matmul_tile fl a b k n (word_range ti) (word_range tk) (word_range tj) c = Done c'
        \<and> holds (unat m) (unat n) c' (?tile ti tj tk g)"
      using matmul_tile_simulates [OF a b c in_range [OF t(1) mkn(1)] in_range [OF t(3) mkn(2)]
          in_range [OF t(2) mkn(3)] assms(7-9), of fl]
      by (simp only: word_range_nats)
  qed
  then show ?thesis by (simp only: all_triples_def fold_concat_map)
qed

lemma holds_of_list: "length a = m * n \<Longrightarrow> holds m n a (\<lambda>i j. a ! (i * n + j))"
  by (simp add: holds_def)

lemma holds_replicate: "holds m n (replicate (m * n) z) (\<lambda>_ _. z)"
  by (simp add: holds_def cell_bound)

text \<open>C15: the tiled matrix product is the textbook product, bit for bit. For matrices in row-major
  order whose dimensions fit their slices, the product returns without leaving its slices, and each
  entry is the left-to-right sum, from zero, of the products of row and column elements in the order
  \<open>0, 1, \<dots>, k - 1\<close>, for every floating-point arithmetic: tiling does not change the rounding. Slices
  whose lengths do not match the dimensions make it panic.\<close>

theorem matmul_is_textbook_product:
  assumes "unat m < 2 ^ 63" and "unat k < 2 ^ 63" and "unat n < 2 ^ 63"
    and "unat m * unat k < 2 ^ 64" and "unat k * unat n < 2 ^ 64" and "unat m * unat n < 2 ^ 64"
  shows "if length a = unat m * unat k \<and> length b = unat k * unat n \<and> length c = unat m * unat n
    then \<exists>c'. MatrixOps_matmul_f32 fl a b c m k n = Done c' \<and> length c' = length c
      \<and> (\<forall>i j. i < unat m \<and> j < unat n \<longrightarrow> c' ! (i * unat n + j) =
           foldl (\<lambda>s kk. fl_add fl s (fl_mul fl (a ! (i * unat k + kk)) (b ! (kk * unat n + j))))
             (fl_zero fl) [0..<unat k])
    else MatrixOps_matmul_f32 fl a b c m k n = Panic"
proof (cases "length a = unat m * unat k \<and> length b = unat k * unat n \<and> length c = unat m * unat n")
  case True
  let ?A = "\<lambda>i j. a ! (i * unat k + j)" and ?B = "\<lambda>i j. b ! (i * unat n + j)"
  have h: "holds (unat m) (unat k) a ?A" "holds (unat k) (unat n) b ?B"
    using True by (simp_all add: holds_of_list)
  obtain c' where c': "MatrixOps_matmul_f32 fl a b c m k n = Done c'"
      "holds (unat m) (unat n) c' (fold (mul_add fl ?A ?B) (all_triples m k n) (\<lambda>_ _. fl_zero fl))"
    using matmul_simulates [OF h holds_replicate assms, of fl] True assms(4-6)
    by (auto simp: MatrixOps_matmul_f32_def unat_word_ariths)
  then have "length c' = length c" using True by (simp add: holds_def)
  moreover have "c' ! (i * unat n + j) =
      foldl (\<lambda>s kk. fl_add fl s (fl_mul fl (a ! (i * unat k + kk)) (b ! (kk * unat n + j)))) (fl_zero fl) [0..<unat k]"
    if "i < unat m \<and> j < unat n" for i j
    using c'(2) that terms_of_all [OF assms(1-3), of i j] by (simp add: holds_def fold_mul_add)
  ultimately show ?thesis using True c'(1) by simp
next
  case False
  then show ?thesis using assms(4-6)
    by (auto simp: MatrixOps_matmul_f32_def unat_word_ariths)
qed

theorem matmul_is_textbook_product_witness:
  "\<exists>c'. MatrixOps_matmul_f32 exact_ops [1, 2, 3, 4 :: int] [5, 6, 7, 8] [0, 0, 0, 0] 2 2 2 = Done c'
    \<and> c' ! (1 * 2 + 0) = 3 * 5 + 4 * 7"
proof -
  have "[0..<2::nat] = [0, 1]" by (simp add: upt_rec)
  then show ?thesis
    using matmul_is_textbook_product [of 2 2 2 "[1, 2, 3, 4 :: int]" "[5, 6, 7, 8]" "[0, 0, 0, 0]" exact_ops]
    by (simp, elim exE conjE) (drule spec [of _ 1], drule spec [of _ 0], simp)
qed

section \<open>Transposition\<close>

lemma transpose_simulates:
  assumes "unat rows * unat cols < 2 ^ 64" and src: "holds (unat rows) (unat cols) src S"
    and dst: "length dst = unat rows * unat cols"
  shows "\<exists>dst'. MatrixOps_transpose_f32 src dst rows cols = Done dst' \<and> holds (unat cols) (unat rows) dst' (\<lambda>j i. S i j)"
proof -
  let ?R = "holds (unat cols) (unat rows)"
  let ?put = "\<lambda>i j (g :: nat \<Rightarrow> nat \<Rightarrow> 'a). g(unat j := (g (unat j))(unat i := S (unat i) (unat j)))"
  have in_range: "unat x < unat r" if "x \<in> set (word_range (0, r))" for x r
    using imageI [OF that, of unat] by (simp add: set_word_range nrange_def)
  have lt: "unat (rows * cols) = unat rows * unat cols" using assms(1) by (simp add: unat_word_ariths)
  have len: "length src = unat rows * unat cols" using src by (simp add: holds_def)
  have "\<exists>dst'. MatrixOps_transpose_f32 src dst rows cols = Done dst'
      \<and> ?R dst' (fold (\<lambda>i. fold (?put i) (word_range (0, cols))) (word_range (0, rows)) (\<lambda>j i. dst ! (j * unat rows + i)))"
    unfolding MatrixOps_transpose_f32_def lt len dst simp_thms if_False
  proof (intro exec_fold_simulates [where R = ?R])
    fix i j and d :: "'a list" and g
    assume "i \<in> set (word_range (0, rows))" "j \<in> set (word_range (0, cols))" and d: "?R d g"
    then have ij: "unat i < unat rows" "unat j < unat cols" by (simp_all add: in_range)
    have "unat cols * unat rows < 2 ^ 64" using assms(1) by (simp add: mult.commute)
    note u = unat_cell [OF ij assms(1)] unat_cell [OF ij(2,1) this]
    have "index src (unat (i * cols + j)) = Done (S (unat i) (unat j))"
      using src cell_bound [OF ij] ij by (simp add: u holds_def)
    moreover have "unat (j * rows + i) < length d"
      using d cell_bound [OF ij(2,1)] by (simp add: u holds_def)
    ultimately show "\<exists>d'. exec_bind (index src (unat (i * cols + j))) (\<lambda>x.
        if unat (j * rows + i) < length d then Done (d[unat (j * rows + i) := x]) else Panic) = Done d'
        \<and> ?R d' (?put i j g)"
      using holds_update [OF d ij(2,1)] by (simp add: u)
  qed (assumption, rule holds_of_list, simp add: dst mult.commute)
  then obtain d where d: "MatrixOps_transpose_f32 src dst rows cols = Done d"
    "?R d (fold (\<lambda>i. fold (?put i) (word_range (0, cols))) (word_range (0, rows)) (\<lambda>j i. dst ! (j * unat rows + i)))" by blast
  have inner: "fold (?put i) js g b a = (if a = unat i \<and> b \<in> unat ` set js then S a b else g b a)" for i js g a b
    by (induction js arbitrary: g) auto
  have outer: "fold (\<lambda>i. fold (?put i) js) is g b a =
      (if a \<in> unat ` set is \<and> b \<in> unat ` set js then S a b else g b a)" for js "is" g a b
    by (induction "is" arbitrary: g) (auto simp: inner)
  have "?R d (\<lambda>j i. S i j)"
    using d(2) by (simp add: holds_def outer set_word_range nrange_def)
  with d(1) show ?thesis by blast
qed

text \<open>C40: Transposition. For a \<open>rows\<close> by \<open>cols\<close> matrix the result is its transpose, entry by entry,
  and transposing that again, into any buffer of the right length, gives back the matrix.\<close>

theorem transpose_involutive:
  assumes "unat rows * unat cols < 2 ^ 64" and "length src = unat rows * unat cols"
    and "length dst = length src" and "length dst2 = length src"
  shows "\<exists>t. MatrixOps_transpose_f32 src dst rows cols = Done t
    \<and> (\<forall>i j. i < unat rows \<and> j < unat cols \<longrightarrow> t ! (j * unat rows + i) = src ! (i * unat cols + j))
    \<and> MatrixOps_transpose_f32 t dst2 cols rows = Done src"
proof -
  let ?S = "\<lambda>i j. src ! (i * unat cols + j)"
  obtain t where t: "MatrixOps_transpose_f32 src dst rows cols = Done t" "holds (unat cols) (unat rows) t (\<lambda>j i. ?S i j)"
    using transpose_simulates [OF assms(1) holds_of_list [OF assms(2)], of dst] assms by auto
  obtain t2 where t2: "MatrixOps_transpose_f32 t dst2 cols rows = Done t2" "holds (unat rows) (unat cols) t2 ?S"
    using transpose_simulates [OF _ t(2), of dst2] assms by (auto simp: mult.commute)
  have "t2 = src"
  proof (rule nth_equalityI)
    fix x assume "x < length t2"
    then have x: "x < unat rows * unat cols" using t2(2) by (simp add: holds_def)
    then have "x div unat cols < unat rows" "x mod unat cols < unat cols"
      by (simp_all add: less_mult_imp_div_less) (metis mod_less_divisor mult_0_right not_gr_zero not_less0)
    with t2(2) show "t2 ! x = src ! x" 
      by (simp add: holds_def) (metis div_mult_mod_eq)
  qed (use t2(2) assms(2) in \<open>simp add: holds_def\<close>)
  with t t2 show ?thesis by (auto simp: holds_def)
qed

theorem transpose_involutive_witness:
  "\<exists>t. MatrixOps_transpose_f32 [1, 2, 3, 4, 5, 6 :: int] [0, 0, 0, 0, 0, 0] 2 3 = Done t
    \<and> MatrixOps_transpose_f32 t [0, 0, 0, 0, 0, 0] 3 2 = Done [1, 2, 3, 4, 5, 6]"
  using transpose_involutive [of 2 3 "[1, 2, 3, 4, 5, 6 :: int]" "[0, 0, 0, 0, 0, 0]" "[0, 0, 0, 0, 0, 0]"]
  by auto

end
