(* ===== verification/Pepita_Gpu.thy ===== *)
theory Pepita_Gpu
  imports Pepita_Blk_Mq
begin

text \<open>
  The compute device of \<^verbatim>\<open>src/src/gpu.rs\<close>: buffer usages, device limits, buffers, shaders, the mock
  device with its counters, and compute pipelines.  The device dispatches nothing: it validates and
  counts.  A mutable borrow of a buffer's bytes is the function that the borrower applies to them; a
  slice keeps its length.  The counter of shader identifiers, a static variable, is passed along.
\<close>

section \<open>Backends, usages and limits\<close>

datatype GpuBackend = NoGpu | Vulkan | Metal | Dx12 | OpenGL | WebGpu

definition GpuBackend_default :: GpuBackend where
  "GpuBackend_default = NoGpu"

fun GpuBackend_name :: "GpuBackend \<Rightarrow> string" where
  "GpuBackend_name NoGpu = ''none''"
| "GpuBackend_name Vulkan = ''vulkan''"
| "GpuBackend_name Metal = ''metal''"
| "GpuBackend_name Dx12 = ''dx12''"
| "GpuBackend_name OpenGL = ''opengl''"
| "GpuBackend_name WebGpu = ''webgpu''"

definition GpuBackend_is_native :: "GpuBackend \<Rightarrow> bool" where
  "GpuBackend_is_native b \<longleftrightarrow> (case b of Vulkan \<Rightarrow> True | Metal \<Rightarrow> True | Dx12 \<Rightarrow> True | _ \<Rightarrow> False)"

definition GpuBackend_is_available :: "GpuBackend \<Rightarrow> bool" where
  "GpuBackend_is_available b \<longleftrightarrow> \<not> (case b of NoGpu \<Rightarrow> True | _ \<Rightarrow> False)"

datatype BufferUsage = BufferUsage u32

fun BufferUsage_bits :: "BufferUsage \<Rightarrow> u32" where
  "BufferUsage_bits (BufferUsage u) = u"

definition BufferUsage_MAP_READ :: BufferUsage where
  "BufferUsage_MAP_READ = BufferUsage (push_bit 0 1)"

definition BufferUsage_MAP_WRITE :: BufferUsage where
  "BufferUsage_MAP_WRITE = BufferUsage (push_bit 1 1)"

definition BufferUsage_COPY_SRC :: BufferUsage where
  "BufferUsage_COPY_SRC = BufferUsage (push_bit 2 1)"

definition BufferUsage_COPY_DST :: BufferUsage where
  "BufferUsage_COPY_DST = BufferUsage (push_bit 3 1)"

definition BufferUsage_INDEX :: BufferUsage where
  "BufferUsage_INDEX = BufferUsage (push_bit 4 1)"

definition BufferUsage_VERTEX :: BufferUsage where
  "BufferUsage_VERTEX = BufferUsage (push_bit 5 1)"

definition BufferUsage_UNIFORM :: BufferUsage where
  "BufferUsage_UNIFORM = BufferUsage (push_bit 6 1)"

definition BufferUsage_STORAGE :: BufferUsage where
  "BufferUsage_STORAGE = BufferUsage (push_bit 7 1)"

definition BufferUsage_INDIRECT :: BufferUsage where
  "BufferUsage_INDIRECT = BufferUsage (push_bit 8 1)"

definition BufferUsage_empty :: BufferUsage where
  "BufferUsage_empty = BufferUsage 0"

definition BufferUsage_union :: "BufferUsage \<Rightarrow> BufferUsage \<Rightarrow> BufferUsage" where
  "BufferUsage_union u v = BufferUsage (BufferUsage_bits u OR BufferUsage_bits v)"

definition BufferUsage_contains :: "BufferUsage \<Rightarrow> BufferUsage \<Rightarrow> bool" where
  "BufferUsage_contains u v \<longleftrightarrow> BufferUsage_bits u AND BufferUsage_bits v = BufferUsage_bits v"

record GpuLimits =
  max_buffer_size :: u64
  max_storage_buffer_binding_size :: u32
  max_uniform_buffer_binding_size :: u32
  max_compute_workgroup_size_x :: u32
  max_compute_workgroup_size_y :: u32
  max_compute_workgroup_size_z :: u32
  max_compute_workgroups_per_dimension :: u32
  max_bind_groups :: u32

definition GpuLimits_default :: GpuLimits where
  "GpuLimits_default =
     \<lparr>max_buffer_size = 256 * 1024 * 1024, max_storage_buffer_binding_size = 128 * 1024 * 1024,
      max_uniform_buffer_binding_size = 64 * 1024, max_compute_workgroup_size_x = 256,
      max_compute_workgroup_size_y = 256, max_compute_workgroup_size_z = 64,
      max_compute_workgroups_per_dimension = 65535, max_bind_groups = 4\<rparr>"

datatype GpuDeviceType = DiscreteGpu | IntegratedGpu | VirtualGpu | CpuDevice | OtherDevice

definition GpuDeviceType_default :: GpuDeviceType where
  "GpuDeviceType_default = OtherDevice"

record GpuDeviceInfo =
  gi_name :: string
  gi_vendor :: string
  gi_backend :: GpuBackend
  gi_device_type :: GpuDeviceType
  gi_limits :: GpuLimits

definition GpuDeviceInfo_default :: GpuDeviceInfo where
  "GpuDeviceInfo_default =
     \<lparr>gi_name = ''Mock GPU'', gi_vendor = ''Pepita'', gi_backend = NoGpu, gi_device_type = OtherDevice,
      gi_limits = GpuLimits_default\<rparr>"

section \<open>Buffers\<close>

record Buffer =
  buf_id :: u64
  buf_size :: u64
  buf_usage :: BufferUsage
  buf_data :: bytes

definition Buffer_new :: "u64 \<Rightarrow> u64 \<Rightarrow> BufferUsage \<Rightarrow> Buffer" where
  "Buffer_new i sz usage =
     \<lparr>buf_id = i, buf_size = sz, buf_usage = usage, buf_data = replicate (unat sz) 0\<rparr>"

definition Buffer_with_data :: "u64 \<Rightarrow> bytes \<Rightarrow> BufferUsage \<Rightarrow> Buffer" where
  "Buffer_with_data i data usage =
     \<lparr>buf_id = i, buf_size = word_of_nat (length data), buf_usage = usage, buf_data = data\<rparr>"

definition Buffer_id :: "Buffer \<Rightarrow> u64" where
  "Buffer_id b = buf_id b"

definition Buffer_size :: "Buffer \<Rightarrow> u64" where
  "Buffer_size b = buf_size b"

definition Buffer_usage :: "Buffer \<Rightarrow> BufferUsage" where
  "Buffer_usage b = buf_usage b"

definition Buffer_data :: "Buffer \<Rightarrow> bytes" where
  "Buffer_data b = buf_data b"

text \<open>What a borrower writes to the bytes: \<open>f\<close>, restricted to the length of the slice.\<close>

definition through_slice :: "(bytes \<Rightarrow> bytes) \<Rightarrow> bytes \<Rightarrow> bytes" where
  "through_slice f data = (let new = f data in take (length data) (new @ drop (length new) data))"

definition Buffer_data_mut :: "Buffer \<Rightarrow> (bytes \<Rightarrow> bytes) \<Rightarrow> Buffer" where
  "Buffer_data_mut b f = b\<lparr>buf_data := through_slice f (buf_data b)\<rparr>"

definition Buffer_map_read :: "Buffer \<Rightarrow> bytes result" where
  "Buffer_map_read b =
     (if \<not> BufferUsage_contains (buf_usage b) BufferUsage_MAP_READ then Inl InvalidRequest else Inr (buf_data b))"

definition Buffer_map_write :: "Buffer \<Rightarrow> (bytes \<Rightarrow> bytes) \<Rightarrow> unit result \<times> Buffer" where
  "Buffer_map_write b f =
     (if \<not> BufferUsage_contains (buf_usage b) BufferUsage_MAP_WRITE then (Inl InvalidRequest, b)
      else (Inr (), b\<lparr>buf_data := through_slice f (buf_data b)\<rparr>))"

section \<open>Shaders\<close>

datatype ShaderStage = VertexStage | FragmentStage | ComputeStage

record ComputeShader =
  cs_id :: u64
  cs_source :: bytes
  cs_entry_point :: bytes
  cs_workgroup_size :: "u32 \<times> u32 \<times> u32"

text \<open>The argument and the second result are the static counter.\<close>

definition ComputeShader_from_wgsl :: "u64 \<Rightarrow> bytes \<Rightarrow> ComputeShader result \<times> u64" where
  "ComputeShader_from_wgsl shader_id source =
     (Inr \<lparr>cs_id = shader_id, cs_source = source, cs_entry_point = [109, 97, 105, 110],
           cs_workgroup_size = (64, 1, 1)\<rparr>, shader_id + 1)"

definition ComputeShader_with_entry_point :: "ComputeShader \<Rightarrow> bytes \<Rightarrow> ComputeShader" where
  "ComputeShader_with_entry_point s name = s\<lparr>cs_entry_point := name\<rparr>"

definition ComputeShader_with_workgroup_size :: "ComputeShader \<Rightarrow> u32 \<Rightarrow> u32 \<Rightarrow> u32 \<Rightarrow> ComputeShader" where
  "ComputeShader_with_workgroup_size s x y z = s\<lparr>cs_workgroup_size := (x, y, z)\<rparr>"

definition ComputeShader_id :: "ComputeShader \<Rightarrow> u64" where
  "ComputeShader_id s = cs_id s"

definition ComputeShader_source :: "ComputeShader \<Rightarrow> bytes" where
  "ComputeShader_source s = cs_source s"

definition ComputeShader_entry_point :: "ComputeShader \<Rightarrow> bytes" where
  "ComputeShader_entry_point s = cs_entry_point s"

definition ComputeShader_workgroup_size :: "ComputeShader \<Rightarrow> u32 \<times> u32 \<times> u32" where
  "ComputeShader_workgroup_size s = cs_workgroup_size s"

section \<open>The device\<close>

record GpuDevice =
  gd_info :: GpuDeviceInfo
  gd_available :: bool
  gd_buffer_counter :: u64
  gd_dispatch_count :: u64

definition GpuDevice_mock :: GpuDevice where
  "GpuDevice_mock =
     \<lparr>gd_info = GpuDeviceInfo_default, gd_available = True, gd_buffer_counter = 1, gd_dispatch_count = 0\<rparr>"

definition GpuDevice_default_device :: "GpuDevice result" where
  "GpuDevice_default_device = Inr GpuDevice_mock"

definition GpuDevice_info :: "GpuDevice \<Rightarrow> GpuDeviceInfo" where
  "GpuDevice_info d = gd_info d"

definition GpuDevice_is_available :: "GpuDevice \<Rightarrow> bool" where
  "GpuDevice_is_available d = gd_available d"

definition GpuDevice_create_buffer :: "GpuDevice \<Rightarrow> bytes \<Rightarrow> BufferUsage \<Rightarrow> Buffer result \<times> GpuDevice" where
  "GpuDevice_create_buffer d data usage =
     (if \<not> GpuDevice_is_available d then (Inl DeviceNotReady, d)
      else if max_buffer_size (gi_limits (gd_info d)) < word_of_nat (length data) then (Inl OutOfMemory, d)
      else (Inr (Buffer_with_data (gd_buffer_counter d) data usage),
            d\<lparr>gd_buffer_counter := gd_buffer_counter d + 1\<rparr>))"

definition GpuDevice_create_buffer_uninit :: "GpuDevice \<Rightarrow> u64 \<Rightarrow> BufferUsage \<Rightarrow> Buffer result \<times> GpuDevice" where
  "GpuDevice_create_buffer_uninit d sz usage =
     (if \<not> GpuDevice_is_available d then (Inl DeviceNotReady, d)
      else if max_buffer_size (gi_limits (gd_info d)) < sz then (Inl OutOfMemory, d)
      else (Inr (Buffer_new (gd_buffer_counter d) sz usage),
            d\<lparr>gd_buffer_counter := gd_buffer_counter d + 1\<rparr>))"

definition GpuDevice_dispatch ::
  "GpuDevice \<Rightarrow> ComputeShader \<Rightarrow> Buffer list \<Rightarrow> u32 \<times> u32 \<times> u32 \<Rightarrow> unit result \<times> GpuDevice" where
  "GpuDevice_dispatch d shader buffers workgroups =
     (if \<not> GpuDevice_is_available d then (Inl DeviceNotReady, d)
      else (let limits = gi_limits (gd_info d)
            in if max_compute_workgroups_per_dimension limits < fst workgroups
                  \<or> max_compute_workgroups_per_dimension limits < fst (snd workgroups)
                  \<or> max_compute_workgroups_per_dimension limits < snd (snd workgroups)
               then (Inl InvalidArgument, d)
               else (Inr (), d\<lparr>gd_dispatch_count := gd_dispatch_count d + 1\<rparr>)))"

definition GpuDevice_dispatch_count :: "GpuDevice \<Rightarrow> u64" where
  "GpuDevice_dispatch_count d = gd_dispatch_count d"

definition GpuDevice_copy_buffer :: "GpuDevice \<Rightarrow> Buffer \<Rightarrow> Buffer \<Rightarrow> (unit result \<times> Buffer) exec" where
  "GpuDevice_copy_buffer d src dst =
     (if \<not> GpuDevice_is_available d then Done (Inl DeviceNotReady, dst)
      else if \<not> BufferUsage_contains (buf_usage src) BufferUsage_COPY_SRC then Done (Inl InvalidRequest, dst)
      else if \<not> BufferUsage_contains (buf_usage dst) BufferUsage_COPY_DST then Done (Inl InvalidRequest, dst)
      else (let len = unat (min (buf_size src) (buf_size dst))
            in exec_bind (slice (buf_data dst) 0 len) (\<lambda>_. exec_bind (slice (buf_data src) 0 len) (\<lambda>s.
                 Done (Inr (), dst\<lparr>buf_data := overwrite (buf_data dst) 0 s\<rparr>)))))"

definition GpuDevice_submit_and_wait :: "GpuDevice \<Rightarrow> unit result" where
  "GpuDevice_submit_and_wait d = (if \<not> GpuDevice_is_available d then Inl DeviceNotReady else Inr ())"

definition GpuDevice_default :: GpuDevice where
  "GpuDevice_default = GpuDevice_mock"

record ComputePipeline =
  cp_shader :: ComputeShader
  cp_bind_groups :: u32

definition ComputePipeline_new :: "ComputeShader \<Rightarrow> ComputePipeline" where
  "ComputePipeline_new shader = \<lparr>cp_shader = shader, cp_bind_groups = 1\<rparr>"

definition ComputePipeline_with_bind_groups :: "ComputePipeline \<Rightarrow> u32 \<Rightarrow> ComputePipeline" where
  "ComputePipeline_with_bind_groups p n = p\<lparr>cp_bind_groups := n\<rparr>"

definition ComputePipeline_shader :: "ComputePipeline \<Rightarrow> ComputeShader" where
  "ComputePipeline_shader p = cp_shader p"

end
