(* ===== verification/Pepita_Gpu_Session.thy ===== *)
theory Pepita_Gpu_Session
  imports Pepita_Gpu
begin

text \<open>
  Sessions with the compute device of \<open>Pepita_Gpu\<close>: a program that obtains the default device, creates
  buffers, maps them, copies between them and dispatches shaders, in any order.
\<close>

section \<open>Usages as sets\<close>

lemma contains_iff: "BufferUsage_contains u v \<longleftrightarrow> (\<forall>n. bit (BufferUsage_bits v) n \<longrightarrow> bit (BufferUsage_bits u) n)"
proof
  assume "BufferUsage_contains u v"
  then have "bit (BufferUsage_bits u AND BufferUsage_bits v) n \<longleftrightarrow> bit (BufferUsage_bits v) n" for n
    by (simp only: BufferUsage_contains_def)
  then show "\<forall>n. bit (BufferUsage_bits v) n \<longrightarrow> bit (BufferUsage_bits u) n"
    by (simp only: bit_and_iff) blast
next
  assume "\<forall>n. bit (BufferUsage_bits v) n \<longrightarrow> bit (BufferUsage_bits u) n"
  then show "BufferUsage_contains u v"
    unfolding BufferUsage_contains_def by (intro bit_word_eqI) (auto simp only: bit_and_iff)
qed

lemma contains_union:
  "BufferUsage_contains w (BufferUsage_union u v) \<longleftrightarrow> BufferUsage_contains w u \<and> BufferUsage_contains w v"
  by (auto simp: contains_iff BufferUsage_union_def bit_simps)

section \<open>Sessions\<close>

type_synonym session = "GpuDevice \<times> Buffer list"

inductive gpu_step :: "session \<Rightarrow> session \<Rightarrow> bool" where
  create: "GpuDevice_create_buffer d data u = (Inr b, d') \<Longrightarrow> length data < 2 ^ 64 \<Longrightarrow> gpu_step (d, bs) (d', bs @ [b])"
| create_uninit: "GpuDevice_create_buffer_uninit d n u = (Inr b, d') \<Longrightarrow> gpu_step (d, bs) (d', bs @ [b])"
| dispatch: "GpuDevice_dispatch d sh args wg = (r, d') \<Longrightarrow> gpu_step (d, bs) (d', bs)"
| map_write: "i < length bs \<Longrightarrow> Buffer_map_write (bs ! i) f = (r, b) \<Longrightarrow> gpu_step (d, bs) (d, bs[i := b])"
| write_direct: "i < length bs \<Longrightarrow> gpu_step (d, bs) (d, bs[i := Buffer_data_mut (bs ! i) f])"
| copy: "i < length bs \<Longrightarrow> j < length bs \<Longrightarrow> i \<noteq> j \<Longrightarrow> GpuDevice_copy_buffer d (bs ! i) (bs ! j) = Done (r, b)
     \<Longrightarrow> gpu_step (d, bs) (d, bs[j := b])"

inductive_cases gpu_step_cases: "gpu_step s t"

text \<open>A buffer's size is the length of its bytes and within the limit of the device.\<close>

definition buffer_ok :: "Buffer \<Rightarrow> bool" where
  "buffer_ok b \<longleftrightarrow> length (buf_data b) = unat (buf_size b) \<and> buf_size b \<le> max_buffer_size GpuLimits_default"

fun gpu_init :: "session \<Rightarrow> bool" where
  "gpu_init (d, bs) \<longleftrightarrow> GpuDevice_default_device = Inr d \<and> bs = []"

fun gpu_inv :: "session \<Rightarrow> bool" where
  "gpu_inv (d, bs) \<longleftrightarrow> gd_available d \<and> gd_info d = GpuDeviceInfo_default
     \<and> gd_buffer_counter d = 1 + word_of_nat (length bs)
     \<and> map buf_id bs = map (\<lambda>k. 1 + word_of_nat k) [0..<length bs] \<and> list_all buffer_ok bs"

lemma length_through_slice [simp]: "length (through_slice f data) = length data"
  by (simp add: through_slice_def Let_def)

lemma buffer_ok_data: "buffer_ok b \<Longrightarrow> length data = length (buf_data b) \<Longrightarrow> buffer_ok (b\<lparr>buf_data := data\<rparr>)"
  by (simp add: buffer_ok_def)

lemma map_id_update: "i < length bs \<Longrightarrow> buf_id b = buf_id (bs ! i) \<Longrightarrow> map buf_id (bs[i := b]) = map buf_id bs"
  by (simp add: map_update list_update_same_conv)

lemma list_all_update: "list_all P bs \<Longrightarrow> P b \<Longrightarrow> list_all P (bs[i := b])"
  by (auto simp: list_all_iff dest: set_update_subset_insert [THEN subsetD])

text \<open>Copying between two buffers that are consistent, on every branch.\<close>

lemma copy_outcome:
  assumes "gd_available d" and "buffer_ok src" and "buffer_ok dst"
  shows "GpuDevice_copy_buffer d src dst =
    (if BufferUsage_contains (buf_usage src) BufferUsage_COPY_SRC \<and> BufferUsage_contains (buf_usage dst) BufferUsage_COPY_DST
     then Done (Inr (), dst\<lparr>buf_data := take (length (buf_data dst)) (buf_data src) @ drop (length (buf_data src)) (buf_data dst)\<rparr>)
     else Done (Inl InvalidRequest, dst))"
proof -
  have "unat (min (buf_size src) (buf_size dst)) = min (length (buf_data src)) (length (buf_data dst))"
    using assms by (simp add: buffer_ok_def min_def word_le_nat_alt)
  then show ?thesis
    using assms(1) by (simp add: GpuDevice_copy_buffer_def GpuDevice_is_available_def slice_def overwrite_def Let_def min_def)
qed

lemma copy_keeps:
  assumes "gd_available d" and "buffer_ok src" and "buffer_ok dst"
    and "GpuDevice_copy_buffer d src dst = Done (r, b)"
  shows "buffer_ok b \<and> buf_id b = buf_id dst"
  using assms(4) unfolding copy_outcome [OF assms(1-3)] using assms(3)
  by (auto simp: buffer_ok_def split: if_splits)

lemma create_keeps:
  assumes "GpuDevice_create_buffer d data u = (Inr b, d')" and "gd_info d = GpuDeviceInfo_default" and "length data < 2 ^ 64"
  shows "buffer_ok b \<and> buf_id b = gd_buffer_counter d \<and> d' = d\<lparr>gd_buffer_counter := gd_buffer_counter d + 1\<rparr>"
proof -
  have "unat (word_of_nat (length data) :: u64) = length data"
    using assms(3) by (simp add: unat_of_nat)
  with assms(1,2) show ?thesis
    by (auto simp: GpuDevice_create_buffer_def Buffer_with_data_def buffer_ok_def GpuDeviceInfo_default_def
        not_less split: if_splits)
qed

lemma create_uninit_keeps:
  assumes "GpuDevice_create_buffer_uninit d n u = (Inr b, d')" and "gd_info d = GpuDeviceInfo_default"
  shows "buffer_ok b \<and> buf_id b = gd_buffer_counter d \<and> d' = d\<lparr>gd_buffer_counter := gd_buffer_counter d + 1\<rparr>"
  using assms by (auto simp: GpuDevice_create_buffer_uninit_def Buffer_new_def buffer_ok_def GpuDeviceInfo_default_def
      not_less split: if_splits)

interpretation gpu: step_system gpu_init gpu_step gpu_inv
proof
  fix s assume "gpu_init s"
  then show "gpu_inv s" by (cases s) (auto simp: GpuDevice_default_device_def GpuDevice_mock_def)
next
  fix s t assume inv: "gpu_inv s" and "gpu_step s t"
  from this(2) show "gpu_inv t"
  proof cases
    case (create d data u b d' bs)
    then have "buffer_ok b \<and> buf_id b = gd_buffer_counter d \<and> d' = d\<lparr>gd_buffer_counter := gd_buffer_counter d + 1\<rparr>"
      using inv by (intro create_keeps [OF create(3)]) simp_all
    with create inv show ?thesis by (simp add: add.commute)
  next
    case (create_uninit d n u b d' bs)
    then have "buffer_ok b \<and> buf_id b = gd_buffer_counter d \<and> d' = d\<lparr>gd_buffer_counter := gd_buffer_counter d + 1\<rparr>"
      using inv by (intro create_uninit_keeps [OF create_uninit(3)]) simp_all
    with create_uninit inv show ?thesis by (simp add: add.commute)
  next
    case (dispatch d sh args wg r d' bs)
    then show ?thesis
      using inv by (auto simp: GpuDevice_dispatch_def Let_def split: if_splits)
  next
    case (map_write i bs f r b d)
    then have "buffer_ok b \<and> buf_id b = buf_id (bs ! i)"
      using inv by (auto simp: Buffer_map_write_def list_all_length intro!: buffer_ok_data split: if_splits)
    with map_write inv show ?thesis by (simp add: map_id_update list_all_update)
  next
    case (write_direct i bs d f)
    then have "buffer_ok (Buffer_data_mut (bs ! i) f)"
      using inv by (auto simp: Buffer_data_mut_def list_all_length intro!: buffer_ok_data)
    with write_direct inv show ?thesis by (simp add: map_id_update list_all_update Buffer_data_mut_def)
  next
    case (copy i bs j d r b)
    then have "buffer_ok b \<and> buf_id b = buf_id (bs ! j)"
      using inv by (intro copy_keeps [of d "bs ! i"]) (simp_all add: list_all_length)
    with copy inv show ?thesis by (simp add: map_id_update list_all_update)
  qed
qed

section \<open>Properties\<close>

lemma distinct_ids:
  "n \<le> 2 ^ 64 \<Longrightarrow> distinct (map (\<lambda>k. 1 + word_of_nat k :: u64) [0..<n])"
  by (auto simp: distinct_map inj_on_def word_of_nat_eq_iff take_bit_nat_eq_self)

text \<open>C32: sessions with the compute device. In every state reachable from the default device by creating,
  writing and copying buffers and dispatching shaders, the device is available; the buffers carry
  distinct identifiers (while fewer than \<open>2 ^ 64\<close> were created), and each holds exactly as many bytes as its
  size says, within the limit of 256 MiB; a new buffer, with data or without, is refused, with
  \<open>OutOfMemory\<close> and no change of the device, exactly above that limit; mapping a buffer for reading or
  writing is refused, with \<open>InvalidRequest\<close> and no change, exactly without the usage flag; a dispatch is refused, with \<open>InvalidArgument\<close>, exactly
  when a dimension exceeds 65535; and copying one buffer to another never panics: with the two copy
  usages it puts the source's bytes in front of the destination's, as many as fit, and without them it
  is refused with \<open>InvalidRequest\<close> and changes nothing.\<close>

theorem gpu_session_safe:
  assumes "GpuDevice_default_device = Inr d0" and "gpu_step\<^sup>*\<^sup>* (d0, []) (d, bs)"
    and "i < length bs" and "j < length bs"
  shows "GpuDevice_is_available d
    \<and> (length bs \<le> 2 ^ 64 \<longrightarrow> distinct (map buf_id bs))
    \<and> (\<forall>b \<in> set bs. length (buf_data b) = unat (buf_size b) \<and> length (buf_data b) \<le> 256 * 1024 * 1024)
    \<and> (length data < 2 ^ 64 \<longrightarrow> GpuDevice_create_buffer d data u =
        (if length data \<le> 256 * 1024 * 1024
         then (Inr (Buffer_with_data (gd_buffer_counter d) data u), d\<lparr>gd_buffer_counter := gd_buffer_counter d + 1\<rparr>)
         else (Inl OutOfMemory, d)))
    \<and> GpuDevice_create_buffer_uninit d n u =
        (if n \<le> 256 * 1024 * 1024
         then (Inr (Buffer_new (gd_buffer_counter d) n u), d\<lparr>gd_buffer_counter := gd_buffer_counter d + 1\<rparr>)
         else (Inl OutOfMemory, d))
    \<and> Buffer_map_read (bs ! i) =
        (if BufferUsage_contains (buf_usage (bs ! i)) BufferUsage_MAP_READ then Inr (buf_data (bs ! i)) else Inl InvalidRequest)
    \<and> Buffer_map_write (bs ! i) f =
        (if BufferUsage_contains (buf_usage (bs ! i)) BufferUsage_MAP_WRITE
         then (Inr (), (bs ! i)\<lparr>buf_data := through_slice f (buf_data (bs ! i))\<rparr>)
         else (Inl InvalidRequest, bs ! i))
    \<and> fst (GpuDevice_dispatch d sh args (x, y, z)) =
        (if x \<le> 65535 \<and> y \<le> 65535 \<and> z \<le> 65535 then Inr () else Inl InvalidArgument)
    \<and> GpuDevice_copy_buffer d (bs ! i) (bs ! j) =
        (if BufferUsage_contains (buf_usage (bs ! i)) BufferUsage_COPY_SRC
            \<and> BufferUsage_contains (buf_usage (bs ! j)) BufferUsage_COPY_DST
         then Done (Inr (), (bs ! j)\<lparr>buf_data := take (length (buf_data (bs ! j))) (buf_data (bs ! i))
                @ drop (length (buf_data (bs ! i))) (buf_data (bs ! j))\<rparr>)
         else Done (Inl InvalidRequest, bs ! j))"
proof -
  have inv: "gpu_inv (d, bs)" using assms(1) by (intro gpu.inv_reachable [OF _ assms(2)]) simp
  then have ok: "gd_available d" "gd_info d = GpuDeviceInfo_default" "buffer_ok (bs ! i)" "buffer_ok (bs ! j)"
    using assms(3,4) by (simp_all add: list_all_length)
  have "\<forall>b \<in> set bs. length (buf_data b) = unat (buf_size b) \<and> length (buf_data b) \<le> 256 * 1024 * 1024"
    using inv by (simp add: list_all_iff buffer_ok_def GpuLimits_default_def word_le_nat_alt)
  moreover have "length data < 2 ^ 64 \<Longrightarrow> GpuDevice_create_buffer d data u =
        (if length data \<le> 256 * 1024 * 1024
         then (Inr (Buffer_with_data (gd_buffer_counter d) data u), d\<lparr>gd_buffer_counter := gd_buffer_counter d + 1\<rparr>)
         else (Inl OutOfMemory, d))"
    using ok(1,2)
    by (simp add: GpuDevice_is_available_def GpuDevice_create_buffer_def GpuDeviceInfo_default_def GpuLimits_default_def
        word_less_nat_alt unat_of_nat)
  ultimately show ?thesis
    unfolding copy_outcome [OF ok(1,3,4)]
    using inv distinct_ids [of "length bs"] ok(1,2)
    by (auto simp: GpuDevice_is_available_def GpuDevice_create_buffer_uninit_def GpuDevice_dispatch_def
        GpuDeviceInfo_default_def GpuLimits_default_def Buffer_map_read_def Buffer_map_write_def Let_def not_less)
qed

theorem gpu_session_safe_witness:
  "\<exists>d bs. gpu_step\<^sup>*\<^sup>* (GpuDevice_mock, []) (d, bs) \<and> length bs = 2 \<and> GpuDevice_is_available d
    \<and> GpuDevice_copy_buffer d (bs ! 0) (bs ! 1) = Done (Inr (), (bs ! 1)\<lparr>buf_data := [7, 8, 0]\<rparr>)"
proof -
  let ?u = "BufferUsage_union BufferUsage_COPY_SRC BufferUsage_COPY_DST"
  let ?d1 = "GpuDevice_mock\<lparr>gd_buffer_counter := 2\<rparr>" and ?d2 = "GpuDevice_mock\<lparr>gd_buffer_counter := 3\<rparr>"
  let ?b0 = "Buffer_with_data 1 [7, 8] ?u" and ?b1 = "Buffer_new 2 3 ?u"
  have "gpu_step (GpuDevice_mock, []) (?d1, [] @ [?b0])"
    by (rule gpu_step.create [of _ "[7, 8]" ?u])
       (simp_all add: GpuDevice_create_buffer_def GpuDevice_mock_def GpuDevice_is_available_def
        GpuDeviceInfo_default_def GpuLimits_default_def)
  moreover have "gpu_step (?d1, [] @ [?b0]) (?d2, ([] @ [?b0]) @ [?b1])"
    by (rule gpu_step.create_uninit [of _ 3 ?u])
       (simp add: GpuDevice_create_buffer_uninit_def GpuDevice_mock_def GpuDevice_is_available_def
        GpuDeviceInfo_default_def GpuLimits_default_def)
  ultimately have reach: "gpu_step\<^sup>*\<^sup>* (GpuDevice_mock, []) (?d2, [?b0, ?b1])" by simp
  have usage: "BufferUsage_contains ?u BufferUsage_COPY_SRC" "BufferUsage_contains ?u BufferUsage_COPY_DST"
    by (simp_all add: BufferUsage_contains_def BufferUsage_union_def BufferUsage_COPY_SRC_def BufferUsage_COPY_DST_def)
  have data: "buf_data ?b0 = [7, 8]" "buf_data ?b1 = [0, 0, 0]" "buf_usage ?b0 = ?u" "buf_usage ?b1 = ?u"
    by (simp_all add: Buffer_with_data_def Buffer_new_def) (simp add: numeral_eq_Suc)
  have "GpuDevice_is_available ?d2 \<and> GpuDevice_copy_buffer ?d2 ?b0 ?b1 = Done (Inr (), ?b1\<lparr>buf_data := [7, 8, 0]\<rparr>)"
    using gpu_session_safe [of GpuDevice_mock ?d2 "[?b0, ?b1]" 0 1] reach
    by (simp add: GpuDevice_default_device_def data usage)
  with reach show ?thesis by (intro exI [of _ ?d2] exI [of _ "[?b0, ?b1]"]) simp
qed

end
