(* ===== verification/Spec2Isabelle.thy ===== *)
theory Spec2Isabelle
  imports Pepita_Error Pepita_Lz4_Roundtrip Pepita_Concurrent_Zram Pepita_Concurrent_Scheduler Pepita_Concurrent_Breaker
    Pepita_Concurrent_Pool Pepita_Wire Pepita_Block_Device Pepita_Vm_Lifecycle Pepita_Cli Pepita_Contracts
    Pepita_Simd_Kernels Pepita_Gpu_Session
begin

text \<open>
  Verification of \<^verbatim>\<open>pepita\<close>, a Rust library of kernel interfaces for distributed computing.

  \<^bold>\<open>The program.\<close>  \<^verbatim>\<open>pepita\<close> runs tasks on a pool: \<^verbatim>\<open>src/src/pool.rs\<close> owns a work-stealing scheduler
  (\<^verbatim>\<open>scheduler.rs\<close>), a registry of CPU, GPU and remote executors (\<^verbatim>\<open>executor.rs\<close>) for tasks built with
  \<^verbatim>\<open>task.rs\<close>, and a failure detector with retry policies and circuit breakers (\<^verbatim>\<open>fault.rs\<close>); remote
  workers speak the framed protocol of \<^verbatim>\<open>transport.rs\<close>.  Around it are a compressed RAM block device
  with its own LZ4 codec (\<^verbatim>\<open>zram.rs\<close>), virtio block and vsock devices (\<^verbatim>\<open>virtio.rs\<close>), micro-VMs
  (\<^verbatim>\<open>vmm.rs\<close>), the types of the Linux block and I/O interfaces (\<^verbatim>\<open>blk_mq.rs\<close>, \<^verbatim>\<open>ublk.rs\<close>, \<^verbatim>\<open>io_uring.rs\<close>,
  \<^verbatim>\<open>memory.rs\<close>), vector and matrix kernels (\<^verbatim>\<open>simd.rs\<close>), a mock compute device (\<^verbatim>\<open>gpu.rs\<close>), and a
  command-line tool that verifies the layout of the kernel structs (\<^verbatim>\<open>main.rs\<close>).  Errors are the type
  of \<^verbatim>\<open>error.rs\<close>.

  \<^bold>\<open>How the code is read.\<close>  The conventions are those of \<open>Pepita_Prelude\<close>.

  \<^item> A struct is a record, whose fields carry a prefix of the struct's name, an enum a datatype, and a
    method \<^verbatim>\<open>f\<close> of \<^verbatim>\<open>T\<close> the constant \<open>T_f\<close>.  A method that mutates its object returns the new object.
  \<^item> Fixed-width integers are words, \<^verbatim>\<open>usize\<close> has 64 bits, and arithmetic wraps as in the release profile
    of \<^verbatim>\<open>Cargo.toml\<close>; lengths of slices that are only compared or added are natural numbers.
  \<^item> \<^verbatim>\<open>Result\<close> is the sum type \<open>result\<close> with the error on the left.  A call that may panic (an index or a
    slice out of range, a poisoned lock taken with \<^verbatim>\<open>expect\<close>, an allocation above \<^verbatim>\<open>isize::MAX\<close> bytes in the
    block device, a sum of \<^verbatim>\<open>Instant\<close> and \<^verbatim>\<open>Duration\<close> that is not representable, an argument of the tool
    that is not UTF-8) has a value of type \<open>exec\<close>.
  \<^item> A lock is its contents with a poison flag.  A method is one atomic step, except where the code
    releases a lock in between or works on atomics: \<^verbatim>\<open>MicroVm::run\<close> is split at its lock boundaries
    (\<open>Pepita_Vm_Lifecycle\<close>), and the methods of the scheduler, the circuit breaker, the pool and the zram device are
    also given access by access (\<open>Pepita_Concurrent_Scheduler\<close>, \<open>Pepita_Concurrent_Breaker\<close>, \<open>Pepita_Concurrent_Pool\<close>,
    \<open>Pepita_Concurrent_Zram\<close>).  The atomic methods stay the reference: an undisturbed call of the scheduler, the breaker
    and \<^verbatim>\<open>submit_async\<close> is proved to be one atomic step, and the zram device to be linearizable.
  \<^item> A \<^verbatim>\<open>String\<close> is its UTF-8 bytes, a \<^verbatim>\<open>HashMap\<close> an association list with distinct keys.
  \<^item> The clock, sleeping, processes (spawning one, writing to its standard input, polling it, waiting for it,
    killing it) and the number of CPUs are fields of the parameter \<open>os\<close>, over a world that every call threads.
    Writing to a child and waiting for it may not return.  What is assumed of it is stated in the theorems:
    \<open>clock_laws\<close> (the clock is monotone and a sleep advances it) and \<open>responsive\<close> (besides, writes and waits
    end).  Floating-point
    arithmetic is the parameter \<open>float_ops\<close> of the kernels and \<open>f64_ops\<close> of the ratios, and the CPU's features and architecture are arguments.

  \<^bold>\<open>Theories.\<close>  For most components one theory holds the model and a second one its correctness.

  \<^item> \<open>Pepita_Prelude\<close>: words, \<open>exec\<close>, locks, byte order, slices; the collections \<open>codec_simps\<close> and
    \<open>word_bounds\<close>; the locale \<open>step_system\<close> (an invariant holds in all reachable states), interpreted on the
    scheduler (twice), the circuit breaker, the micro-VM and sessions with the compute device.
  \<^item> \<open>Pepita_Text\<close>: texts, numbers in decimal and hexadecimal, validity of UTF-8 and lossy decoding.
  \<^item> \<open>Pepita_Threads\<close>: interleavings of threads that make one access at a time; the locale \<open>thread_invariant\<close>,
    a \<open>step_system\<close> by \<open>sublocale\<close>, interpreted on the pool, and its extension \<open>thread_progress\<close> (no deadlock, and
    calls that return), interpreted on the circuit breaker, the zram device, and the pool whose executors answer.
  \<^item> \<open>Pepita_Error\<close>: \<^verbatim>\<open>KernelError\<close> with its errno values and messages.
  \<^item> \<open>Pepita_Lz4\<close>, \<open>Pepita_Lz4_Roundtrip\<close>: the codec of \<^verbatim>\<open>zram.rs\<close>; whatever the compressor emits
    decompresses to its input.  The decompressor is also given with every index and slice as an operation that
    can panic: it never does, on any input.
  \<^item> \<open>Pepita_Zram\<close>, \<open>Pepita_Zram_Store\<close>: the device; it refines an array of pages, over the locales
    \<open>page_codec\<close> and \<open>page_store\<close>; which calls fail; what the statistics count.
    \<open>Pepita_Concurrent_Zram\<close>: the device under concurrent calls; every call takes effect at one moment, except \<^verbatim>\<open>reset\<close>,
    which is a discard of every page; at rest the statistics agree with the calls; no deadlock.
  \<^item> \<open>Pepita_Scheduler\<close>, \<open>Pepita_Work_Stealing\<close>: deque and scheduler with atomic methods; conservation of
    tasks, who is chosen by submission and stealing, over the locale \<open>work_deque\<close>.
    \<open>Pepita_Concurrent_Scheduler\<close>: interleavings of single accesses to the shared state by any number of
    threads; conservation, capacity and identifiers in every reachable state; every call returns after a bounded
    number of its own accesses; an undisturbed call is the atomic method.
  \<^item> \<open>Pepita_Fault\<close>, \<open>Pepita_Resilience\<close>: retry policy and state, failure detector, circuit breaker; the
    backoff schedule with its wrap-around, the status of a worker after any sequence of calls as a
    function of the age of its last heartbeat, the breaker as a state machine.  \<open>Pepita_Concurrent_Breaker\<close>: the breaker's two locks and its counters under
    concurrent calls; mutual exclusion, the stamped opening time, absence of deadlock.
  \<^item> \<open>Pepita_Task\<close>, \<open>Pepita_Executor\<close>, \<open>Pepita_Pool\<close>, \<open>Pepita_Execution\<close>: tasks, executors, registry and pool;
    the locale \<open>executor_backend\<close> is the contract of the trait \<^verbatim>\<open>Executor\<close>, interpreted on its three
    implementations and on the trait object; submission refines a reference retry loop and returns on
    a responsive system, or panics at a deadline that is not representable; the child of a task that exceeds its
    timeout is killed; the outcome of a pipeline in terms of its stages.  \<open>Pepita_Concurrent_Pool\<close>: the pool under concurrent calls; its
    counters account for every submission, and calls return when the executors answer.
  \<^item> \<open>Pepita_Transport\<close>, \<open>Pepita_Wire\<close>: frames and payloads; round trips over the locale \<open>wire_payload\<close>, prefixes
    are rejected, exactly which inputs make a decoder panic.
  \<^item> \<open>Pepita_Virtio\<close>, \<open>Pepita_Block_Device\<close>: virtqueues, vsock and block device; the block device refines an array
    of bytes, and its behaviour on every request, wrapped ranges included.
  \<^item> \<open>Pepita_Vmm\<close>, \<open>Pepita_Vm_Lifecycle\<close>: micro-VM, vCPUs, registers, jailer; the lifecycle under interleaved calls.
  \<^item> \<open>Pepita_Memory\<close>, \<open>Pepita_Blk_Mq\<close>, \<open>Pepita_Ublk\<close>, \<open>Pepita_Io_Uring\<close>: addresses, pages and flags, requests and tag
    sets, commands and descriptors, queue entries; exact page and sector arithmetic over the locales
    \<open>page_address\<close>, \<open>flag\<close> and \<open>sector_range\<close>, and the partition of completion results.
  \<^item> \<open>Pepita_Abi\<close>, \<open>Pepita_Cli\<close>: the \<^verbatim>\<open>repr(C)\<close> layout of the shared structs and the command numbers that encode
    their sizes; \<^verbatim>\<open>main.rs\<close> with its checks, output and exit code, the constants of \<^verbatim>\<open>lib.rs\<close>, and \<^verbatim>\<open>build.rs\<close>.
  \<^item> \<open>Pepita_Contracts\<close>: the functions of \<^verbatim>\<open>verification_specs.rs\<close>, and exactly when their contracts hold.
  \<^item> \<open>Pepita_Simd\<close>, \<open>Pepita_Simd_Kernels\<close>: the kernels; for every floating-point arithmetic the element-wise
    kernels equal the scalar loop, the tiled matrix product equals the textbook one, and the dot product is the sum in
    the order of its lanes, which is the scalar sum only in arithmetic without rounding.
  \<^item> \<open>Pepita_Gpu\<close>, \<open>Pepita_Gpu_Session\<close>: the compute device; the invariant of sessions.

  \<^bold>\<open>Loops.\<close>  No definition takes fuel.  Loops over slices and indices are terminating functions.  The two
  loops that wait on the outside world, polling a child process and retrying a task, are partial
  functions whose non-return is \<open>None\<close>; that they return is proved for a responsive system, by the time left to
  the deadline and the retries left.

  \<^bold>\<open>Not modelled.\<close>  \<^verbatim>\<open>Debug\<close> output, except where the command-line tool prints it; the traits \<^verbatim>\<open>PageAllocator\<close> and
  \<^verbatim>\<open>BlockOps\<close>, which have no implementation in the crate; the re-exports
  of \<^verbatim>\<open>lib.rs\<close>; the examples, benchmarks and tests.  Memory orderings of atomics weaker than sequential consistency are
  not modelled: accesses to atomics are interleaved.  Sleeping between retries takes no access of its own in
  \<open>Pepita_Concurrent_Pool\<close>.  Allocations other than the storage of the block device always succeed.
\<close>

end
